(* ===== verification/AshPrelude.thy ===== *)
theory AshPrelude
  imports Main "HOL-Library.Word" "HOL-Library.Multiset"
begin

text \<open>
  What every component shares: Rust's three-way \<open>Ordering\<close> with the lexicographic
  comparison of slices, the contract of a comparator (a total preorder on the values it is
  used on) as a locale, the stable sort that a comparator drives, results as sums with
  their bind and their collecting map, and the \<open>HashMap\<close> of a record's fields as an
  association list with distinct keys.

  A Rust \<open>Result<T>\<close> is \<open>error + 'a\<close>, with \<open>Inl\<close> for \<open>Err\<close>.
\<close>

named_theorems result_simps
named_theorems fm_simps

section \<open>Three-way comparison\<close>

text \<open>Rust's \<open>std::cmp::Ordering\<close>, with \<open>reverse\<close> and \<open>then\<close>.\<close>

datatype ordering = Less | Equal | Greater

fun ord_reverse :: "ordering \<Rightarrow> ordering" where
  "ord_reverse Less = Greater"
| "ord_reverse Equal = Equal"
| "ord_reverse Greater = Less"

fun ord_then :: "ordering \<Rightarrow> ordering \<Rightarrow> ordering" where
  "ord_then Equal b = b"
| "ord_then a b = a"

lemma ord_reverse_reverse [simp]: "ord_reverse (ord_reverse a) = a"
  by (cases a) auto

lemma ord_reverse_eq [simp]:
  "ord_reverse a = Equal \<longleftrightarrow> a = Equal"
  "ord_reverse a = Less \<longleftrightarrow> a = Greater"
  "ord_reverse a = Greater \<longleftrightarrow> a = Less"
  by (cases a; simp)+

lemma ord_then_Equal [simp]: "ord_then a Equal = a"
  by (cases a) auto

lemma ord_then_eq_Equal [simp]: "ord_then a b = Equal \<longleftrightarrow> a = Equal \<and> b = Equal"
  by (cases a) auto

lemma ord_then_assoc [simp]: "ord_then (ord_then a b) c = ord_then a (ord_then b c)"
  by (cases a) auto

lemma ord_reverse_then: "ord_reverse (ord_then a b) = ord_then (ord_reverse a) (ord_reverse b)"
  by (cases a) auto

lemma ord_then_cong [fundef_cong]:
  "a = a' \<Longrightarrow> (a' = Equal \<Longrightarrow> b = b') \<Longrightarrow> ord_then a b = ord_then a' b'"
  by (cases a') auto

definition lin_cmp :: "'a::linorder \<Rightarrow> 'a \<Rightarrow> ordering" where
  "lin_cmp a b = (if a < b then Less else if a = b then Equal else Greater)"

lemma lin_cmp_simps [simp]:
  "lin_cmp a b = Less \<longleftrightarrow> a < b"
  "lin_cmp a b = Equal \<longleftrightarrow> a = b"
  "lin_cmp a b = Greater \<longleftrightarrow> b < a"
  by (auto simp: lin_cmp_def)

lemma lin_cmp_refl [simp]: "lin_cmp a a = Equal"
  by (simp add: lin_cmp_def)

text \<open>The lexicographic order of two slices, as Rust compares \<open>[T]\<close>.\<close>

fun list_cmp :: "('a \<Rightarrow> 'a \<Rightarrow> ordering) \<Rightarrow> 'a list \<Rightarrow> 'a list \<Rightarrow> ordering" where
  "list_cmp c [] [] = Equal"
| "list_cmp c [] (y # ys) = Less"
| "list_cmp c (x # xs) [] = Greater"
| "list_cmp c (x # xs) (y # ys) = ord_then (c x y) (list_cmp c xs ys)"

lemma list_cmp_cong [fundef_cong]:
  assumes "xs = xs'" and "ys = ys'"
    and "\<And>x y. x \<in> set xs' \<Longrightarrow> y \<in> set ys' \<Longrightarrow> c x y = c' x y"
  shows "list_cmp c xs ys = list_cmp c' xs' ys'"
proof -
  have "list_cmp c xs' ys' = list_cmp c' xs' ys'"
    using assms(3)
  proof (induction xs' arbitrary: ys')
    case Nil
    then show ?case by (cases ys') auto
  next
    case (Cons x xs)
    then show ?case by (cases ys') auto
  qed
  then show ?thesis using assms(1,2) by simp
qed

section \<open>The contract of a comparator\<close>

text \<open>
  What \<open>sort_by\<close>, \<open>HashMap\<close> keys and keyset pages need of a comparison: on the values
  that are \<open>ok\<close> for it, it is a total preorder whose \<open>Equal\<close> is an equivalence.
\<close>

locale comparator =
  fixes cmp :: "'a \<Rightarrow> 'a \<Rightarrow> ordering"
    and ok :: "'a \<Rightarrow> bool"
  assumes cmp_refl: "ok a \<Longrightarrow> cmp a a = Equal"
    and cmp_sym: "ok a \<Longrightarrow> ok b \<Longrightarrow> cmp b a = ord_reverse (cmp a b)"
    and cmp_le_trans: "ok a \<Longrightarrow> ok b \<Longrightarrow> ok c \<Longrightarrow>
      cmp a b \<noteq> Greater \<Longrightarrow> cmp b c \<noteq> Greater \<Longrightarrow> cmp a c \<noteq> Greater"
begin

lemma cmp_eq_sym: "ok a \<Longrightarrow> ok b \<Longrightarrow> cmp a b = Equal \<longleftrightarrow> cmp b a = Equal"
  using cmp_sym [of a b] by auto

lemma cmp_less_greater: "ok a \<Longrightarrow> ok b \<Longrightarrow> cmp a b = Less \<longleftrightarrow> cmp b a = Greater"
  using cmp_sym [of a b] by auto

lemma cmp_eq_trans:
  assumes "ok a" "ok b" "ok c" "cmp a b = Equal" "cmp b c = Equal"
  shows "cmp a c = Equal"
proof -
  have "cmp a c \<noteq> Greater" using cmp_le_trans [of a b c] assms by simp
  moreover have "cmp c b = Equal" "cmp b a = Equal"
    using assms cmp_eq_sym by blast+
  then have "cmp c a \<noteq> Greater" using cmp_le_trans [of c b a] assms by simp
  ultimately show ?thesis using cmp_sym [of a c] assms by (cases "cmp a c") auto
qed

lemma cmp_less_le_trans:
  assumes "ok a" "ok b" "ok c" "cmp a b = Less" "cmp b c \<noteq> Greater"
  shows "cmp a c = Less"
proof (rule ccontr)
  assume n: "cmp a c \<noteq> Less"
  then have "cmp c a \<noteq> Greater" using cmp_less_greater assms by auto
  then have "cmp b a \<noteq> Greater" using cmp_le_trans [of b c a] assms by simp
  then show False using assms cmp_less_greater by auto
qed

lemma cmp_le_less_trans:
  assumes "ok a" "ok b" "ok c" "cmp a b \<noteq> Greater" "cmp b c = Less"
  shows "cmp a c = Less"
proof (rule ccontr)
  assume n: "cmp a c \<noteq> Less"
  then have "cmp c a \<noteq> Greater" using cmp_less_greater assms by auto
  then have "cmp c b \<noteq> Greater" using cmp_le_trans [of c a b] assms by simp
  then show False using assms cmp_less_greater by auto
qed

lemma cmp_eq_left:
  assumes "ok a" "ok b" "ok c" "cmp a b = Equal"
  shows "cmp a c = cmp b c"
proof -
  have ba: "cmp b a = Equal" using assms cmp_eq_sym by blast
  show ?thesis
  proof (cases "cmp b c")
    case Less
    with assms show ?thesis using cmp_le_less_trans [of a b c] by simp
  next
    case Equal
    with assms show ?thesis using cmp_eq_trans [of a b c] by simp
  next
    case Greater
    then have "cmp c b = Less" using assms cmp_less_greater by blast
    then have "cmp c a = Less"
      using assms ba cmp_less_le_trans [of c b a] by simp
    then show ?thesis using assms Greater cmp_less_greater by simp
  qed
qed

lemma cmp_eq_right:
  assumes "ok a" "ok b" "ok c" "cmp b c = Equal"
  shows "cmp a b = cmp a c"
  using assms cmp_eq_left [of b c a] cmp_sym [of b a] cmp_sym [of c a] by simp

end



lemma list_cmp_refl: "(\<And>x. x \<in> set xs \<Longrightarrow> c x x = Equal) \<Longrightarrow> list_cmp c xs xs = Equal"
  by (induction xs) auto

lemma list_cmp_sym:
  "(\<And>x y. x \<in> set xs \<Longrightarrow> y \<in> set ys \<Longrightarrow> c y x = ord_reverse (c x y)) \<Longrightarrow>
   list_cmp c ys xs = ord_reverse (list_cmp c xs ys)"
proof (induction xs arbitrary: ys)
  case Nil
  then show ?case by (cases ys) auto
next
  case (Cons x xs)
  show ?case
  proof (cases ys)
    case Nil
    then show ?thesis by simp
  next
    case y: (Cons y ys')
    have "list_cmp c ys' xs = ord_reverse (list_cmp c xs ys')"
      using Cons y by auto
    moreover have "c y x = ord_reverse (c x y)" using Cons.prems y by auto
    ultimately show ?thesis using y by (simp add: ord_reverse_then)
  qed
qed

lemma list_cmp_le_trans:
  assumes C: "comparator c (\<lambda>x. x \<in> S)"
    and "set xs \<subseteq> S" "set ys \<subseteq> S" "set zs \<subseteq> S"
    and "list_cmp c xs ys \<noteq> Greater" "list_cmp c ys zs \<noteq> Greater"
  shows "list_cmp c xs zs \<noteq> Greater"
  using assms(2-)
proof (induction xs arbitrary: ys zs)
  case Nil
  then show ?case by (cases zs) auto
next
  case (Cons x xs)
  from Cons.prems obtain y ys' where ys: "ys = y # ys'" by (cases ys) auto
  from Cons.prems ys obtain z zs' where zs: "zs = z # zs'" by (cases zs) auto
  have S: "x \<in> S" "y \<in> S" "z \<in> S" using Cons.prems ys zs by auto
  have xy: "c x y \<noteq> Greater" using Cons.prems(4) ys by (cases "c x y") auto
  have yz: "c y z \<noteq> Greater" using Cons.prems(5) ys zs by (cases "c y z") auto
  have xz: "c x z \<noteq> Greater"
    using comparator.cmp_le_trans [OF C] S xy yz by blast
  show ?case
  proof (cases "c x z")
    case Less
    then show ?thesis using zs by simp
  next
    case Greater
    then show ?thesis using xz by simp
  next
    case Equal
    have exy: "c x y = Equal"
      using comparator.cmp_less_le_trans [OF C, of x y z] S xy yz Equal
      by (cases "c x y") auto
    have eyz: "c y z = Equal"
      using comparator.cmp_le_less_trans [OF C, of x y z] S xy yz Equal
      by (cases "c y z") auto
    have "list_cmp c xs zs' \<noteq> Greater"
      using Cons.IH [of ys' zs'] Cons.prems ys zs exy eyz by auto
    then show ?thesis using zs Equal by simp
  qed
qed

section \<open>The stable sort\<close>

text \<open>
  \<open>slice::sort_by\<close>: a stable sort by a comparison function. Insertion from the right keeps
  equal elements in their order, which fixes the result for every total preorder.
\<close>

fun insort_by :: "('a \<Rightarrow> 'a \<Rightarrow> ordering) \<Rightarrow> 'a \<Rightarrow> 'a list \<Rightarrow> 'a list" where
  "insort_by c x [] = [x]"
| "insort_by c x (y # ys) =
     (if c x y = Greater then y # insort_by c x ys else x # y # ys)"

definition sort_by :: "('a \<Rightarrow> 'a \<Rightarrow> ordering) \<Rightarrow> 'a list \<Rightarrow> 'a list" where
  "sort_by c xs = foldr (insort_by c) xs []"

lemma sort_by_simps [simp]:
  "sort_by c [] = []"
  "sort_by c (x # xs) = insort_by c x (sort_by c xs)"
  by (simp_all add: sort_by_def)

lemma mset_insort_by [simp]: "mset (insort_by c x xs) = add_mset x (mset xs)"
  by (induction xs) auto

lemma mset_sort_by [simp]: "mset (sort_by c xs) = mset xs"
  by (induction xs) auto

lemma set_insort_by [simp]: "set (insort_by c x xs) = insert x (set xs)"
  by (induction xs) auto

lemma set_sort_by [simp]: "set (sort_by c xs) = set xs"
  by (induction xs) auto

lemma length_sort_by [simp]: "length (sort_by c xs) = length xs"
  by (metis mset_sort_by size_mset)

lemma distinct_sort_by [simp]: "distinct (sort_by c xs) = distinct xs"
  by (metis mset_eq_imp_distinct_iff mset_sort_by)

lemma insort_by_cong:
  "(\<And>y. y \<in> set ys \<Longrightarrow> c x y = c' x y) \<Longrightarrow> insort_by c x ys = insort_by c' x ys"
  by (induction ys) auto

lemma sort_by_cong:
  "(\<And>x y. x \<in> set xs \<Longrightarrow> y \<in> set xs \<Longrightarrow> c x y = c' x y) \<Longrightarrow> sort_by c xs = sort_by c' xs"
  by (induction xs) (auto intro: insort_by_cong)

context comparator
begin

lemma sorted_insort:
  assumes "ok x" "\<forall>y \<in> set ys. ok y" "sorted_wrt (\<lambda>a b. cmp a b \<noteq> Greater) ys"
  shows "sorted_wrt (\<lambda>a b. cmp a b \<noteq> Greater) (insort_by cmp x ys)"
  using assms
proof (induction ys)
  case Nil
  then show ?case by simp
next
  case (Cons y ys)
  show ?case
  proof (cases "cmp x y = Greater")
    case True
    then have "cmp y x = Less" using Cons.prems cmp_less_greater by simp
    with True Cons show ?thesis by auto
  next
    case False
    have "cmp x z \<noteq> Greater" if "z \<in> set ys" for z
      using that Cons.prems False cmp_le_trans [of x y z] by auto
    with False Cons.prems show ?thesis by auto
  qed
qed

lemma sorted_sort:
  "\<forall>x \<in> set xs. ok x \<Longrightarrow> sorted_wrt (\<lambda>a b. cmp a b \<noteq> Greater) (sort_by cmp xs)"
  by (induction xs) (auto intro: sorted_insort)

text \<open>Stability: the elements equal to any given one keep their order.\<close>

lemma stable_insort:
  assumes "ok k" "ok x" "\<forall>y \<in> set ys. ok y"
  shows "filter (\<lambda>y. cmp k y = Equal) (insort_by cmp x ys) =
    filter (\<lambda>y. cmp k y = Equal) (x # ys)"
  using assms
proof (induction ys)
  case Nil
  then show ?case by simp
next
  case (Cons y ys)
  show ?case
  proof (cases "cmp x y = Greater")
    case True
    then have "\<not> (cmp k x = Equal \<and> cmp k y = Equal)"
      using Cons.prems cmp_eq_left [of k x y] by auto
    with True Cons show ?thesis by auto
  next
    case False
    then show ?thesis by simp
  qed
qed

lemma stable_sort:
  "ok k \<Longrightarrow> \<forall>x \<in> set xs. ok x \<Longrightarrow>
   filter (\<lambda>y. cmp k y = Equal) (sort_by cmp xs) = filter (\<lambda>y. cmp k y = Equal) xs"
  by (induction xs) (auto simp: stable_insort)

end

interpretation lin_order: comparator lin_cmp "\<lambda>_. True"
  by unfold_locales (auto simp: lin_cmp_def split: if_splits)

text \<open>A comparison through a key is a comparator wherever the keys' one is.\<close>

lemma comparator_on_key:
  assumes "comparator c ok"
  shows "comparator (\<lambda>a b. c (f a) (f b)) (\<lambda>a. ok (f a))"
  using assms unfolding comparator_def by blast

text \<open>Comparing by one order, then by another: \<open>a.cmp(b).then(...)\<close>.\<close>

lemma ord_then_not_Greater: "ord_then a b \<noteq> Greater \<longleftrightarrow> a = Less \<or> (a = Equal \<and> b \<noteq> Greater)"
  by (cases a) auto

lemma comparator_then:
  assumes C: "comparator c ok" and D: "comparator d ok"
  shows "comparator (\<lambda>a b. ord_then (c a b) (d a b)) ok"
proof
  fix a assume "ok a"
  then show "ord_then (c a a) (d a a) = Equal"
    by (simp add: comparator.cmp_refl [OF C] comparator.cmp_refl [OF D])
next
  fix a b assume "ok a" "ok b"
  then show "ord_then (c b a) (d b a) = ord_reverse (ord_then (c a b) (d a b))"
    by (simp only: ord_reverse_then comparator.cmp_sym [OF C, of a b]
        comparator.cmp_sym [OF D, of a b] ord_reverse_reverse)
next
  fix x y z
  assume ok: "ok x" "ok y" "ok z"
    and "ord_then (c x y) (d x y) \<noteq> Greater" "ord_then (c y z) (d y z) \<noteq> Greater"
  then consider "c x y = Less" "c y z \<noteq> Greater" | "c x y \<noteq> Greater" "c y z = Less"
    | "c x y = Equal" "c y z = Equal" "d x y \<noteq> Greater" "d y z \<noteq> Greater"
    unfolding ord_then_not_Greater by fastforce
  then show "ord_then (c x z) (d x z) \<noteq> Greater"
  proof cases
    case 1
    then show ?thesis using comparator.cmp_less_le_trans [OF C ok] by simp
  next
    case 2
    then show ?thesis using comparator.cmp_le_less_trans [OF C ok] by simp
  next
    case 3
    then show ?thesis
      using comparator.cmp_eq_trans [OF C ok] comparator.cmp_le_trans [OF D ok] by simp
  qed
qed

section \<open>Results\<close>

definition bindE :: "'e + 'a \<Rightarrow> ('a \<Rightarrow> 'e + 'b) \<Rightarrow> 'e + 'b" where
  "bindE m f = (case m of Inl e \<Rightarrow> Inl e | Inr x \<Rightarrow> f x)"

lemma bindE_simps [simp, result_simps]:
  "bindE (Inl e) f = Inl e"
  "bindE (Inr x) f = f x"
  by (simp_all add: bindE_def)

lemma bindE_cong [fundef_cong]:
  "m = m' \<Longrightarrow> (\<And>x. m' = Inr x \<Longrightarrow> f x = f' x) \<Longrightarrow> bindE m f = bindE m' f'"
  by (cases m') auto

lemma bindE_eq_Inr [result_simps]: "bindE m f = Inr y \<longleftrightarrow> (\<exists>x. m = Inr x \<and> f x = Inr y)"
  by (cases m) auto

lemma bindE_eq_Inl [result_simps]:
  "bindE m f = Inl e \<longleftrightarrow> m = Inl e \<or> (\<exists>x. m = Inr x \<and> f x = Inl e)"
  by (cases m) auto

text \<open>\<open>Option::ok_or\<close>.\<close>

definition ok_or :: "'a option \<Rightarrow> 'e \<Rightarrow> 'e + 'a" where
  "ok_or x e = (case x of None \<Rightarrow> Inl e | Some a \<Rightarrow> Inr a)"

lemma ok_or_simps [simp]: "ok_or None e = Inl e" "ok_or (Some a) e = Inr a"
  by (simp_all add: ok_or_def)

lemma ok_or_eq [result_simps]:
  "ok_or x e = Inr a \<longleftrightarrow> x = Some a" "ok_or x e = Inl e' \<longleftrightarrow> x = None \<and> e' = e"
  by (auto simp: ok_or_def split: option.splits)

text \<open>\<open>iter().map(f).collect::<Result<Vec<_>>>()\<close>: stops at the first error.\<close>

fun mapE :: "('a \<Rightarrow> 'e + 'b) \<Rightarrow> 'a list \<Rightarrow> 'e + 'b list" where
  "mapE f [] = Inr []"
| "mapE f (x # xs) = bindE (f x) (\<lambda>y. bindE (mapE f xs) (\<lambda>ys. Inr (y # ys)))"

lemma mapE_cong [fundef_cong]:
  assumes "xs = xs'" "\<And>x. x \<in> set xs' \<Longrightarrow> f x = f' x"
  shows "mapE f xs = mapE f' xs'"
  unfolding assms(1) using assms(2) by (induction xs') auto

lemma mapE_eq_Inr [result_simps]: "mapE f xs = Inr ys \<longleftrightarrow> list_all2 (\<lambda>x y. f x = Inr y) xs ys"
  by (induction xs arbitrary: ys) (auto simp: bindE_eq_Inr list_all2_Cons1)

lemma list_all2_in_right: "list_all2 P xs ys \<Longrightarrow> y \<in> set ys \<Longrightarrow> \<exists>x \<in> set xs. P x y"
  by (induction rule: list_all2_induct) auto

lemma list_all2_in_left: "list_all2 P xs ys \<Longrightarrow> x \<in> set xs \<Longrightarrow> \<exists>y \<in> set ys. P x y"
  by (induction rule: list_all2_induct) auto

lemma mapE_Inr: "(\<And>x. x \<in> set xs \<Longrightarrow> f x = Inr (g x)) \<Longrightarrow> mapE f xs = Inr (map g xs)"
  by (induction xs) auto

lemma mapE_length: "mapE f xs = Inr ys \<Longrightarrow> length ys = length xs"
  by (auto simp: mapE_eq_Inr dest: list_all2_lengthD)

text \<open>A loop that carries a state and may fail: \<open>for x in xs { state = step(state, x)?; }\<close>.\<close>

fun foldE :: "('s \<Rightarrow> 'a \<Rightarrow> 'e + 's) \<Rightarrow> 's \<Rightarrow> 'a list \<Rightarrow> 'e + 's" where
  "foldE f s [] = Inr s"
| "foldE f s (x # xs) = bindE (f s x) (\<lambda>s'. foldE f s' xs)"

lemma foldE_invariant:
  assumes "P s" "foldE f s xs = Inr s'"
    and "\<And>s x s'. x \<in> set xs \<Longrightarrow> P s \<Longrightarrow> f s x = Inr s' \<Longrightarrow> P s'"
  shows "P s'"
  using assms
proof (induction xs arbitrary: s)
  case Nil
  then show ?case by simp
next
  case (Cons x xs)
  from Cons.prems(2) obtain t where t: "f s x = Inr t" "foldE f t xs = Inr s'"
    by (auto simp: bindE_eq_Inr)
  have "P t" using Cons.prems(1,3) t(1) by auto
  then show ?case using Cons.IH [of t] Cons.prems(3) t(2) by auto
qed

text \<open>\<open>Iterator::find_map\<close>.\<close>

fun find_map :: "('a \<Rightarrow> 'b option) \<Rightarrow> 'a list \<Rightarrow> 'b option" where
  "find_map f [] = None"
| "find_map f (x # xs) = (case f x of None \<Rightarrow> find_map f xs | Some y \<Rightarrow> Some y)"

text \<open>\<open>Iterator::find\<close> is \<open>List.find\<close>.\<close>

lemma find_SomeD: "List.find P xs = Some x \<Longrightarrow> x \<in> set xs \<and> P x"
  by (induction xs) (auto split: if_splits)

lemma find_NoneD: "List.find P xs = None \<Longrightarrow> x \<in> set xs \<Longrightarrow> \<not> P x"
  by (induction xs) (auto split: if_splits)

section \<open>Hash maps\<close>

text \<open>
  A \<open>HashMap\<close> is the association list of its entries in the order it iterates, its keys
  distinct (\<open>fm_ok\<close>). Nothing is proved from a particular order: the operations below put
  a new key last and keep the others where they are.
\<close>

type_synonym ('k, 'v) hmap = "('k \<times> 'v) list"

definition fm_ok :: "('k, 'v) hmap \<Rightarrow> bool" where
  "fm_ok m \<longleftrightarrow> distinct (map fst m)"

definition fm_get :: "('k, 'v) hmap \<Rightarrow> 'k \<Rightarrow> 'v option" where
  "fm_get m k = map_of m k"

fun fm_insert :: "'k \<Rightarrow> 'v \<Rightarrow> ('k, 'v) hmap \<Rightarrow> ('k, 'v) hmap" where
  "fm_insert k v [] = [(k, v)]"
| "fm_insert k v ((k', v') # m) = (if k = k' then (k, v) # m else (k', v') # fm_insert k v m)"

definition fm_remove :: "'k \<Rightarrow> ('k, 'v) hmap \<Rightarrow> ('k, 'v) hmap" where
  "fm_remove k m = filter (\<lambda>(k', _). k' \<noteq> k) m"

definition fm_contains :: "('k, 'v) hmap \<Rightarrow> 'k \<Rightarrow> bool" where
  "fm_contains m k \<longleftrightarrow> fm_get m k \<noteq> None"

definition fm_extend :: "('k, 'v) hmap \<Rightarrow> ('k, 'v) hmap \<Rightarrow> ('k, 'v) hmap" where
  "fm_extend m new = fold (\<lambda>(k, v) acc. fm_insert k v acc) new m"

lemma fm_get_Nil [simp]: "fm_get [] k = None"
  by (simp add: fm_get_def)

lemma fm_get_Cons [simp]: "fm_get ((k', v) # m) k = (if k = k' then Some v else fm_get m k)"
  by (simp add: fm_get_def)

lemma fm_get_insert [simp, fm_simps]:
  "fm_get (fm_insert k v m) k' = (if k' = k then Some v else fm_get m k')"
  by (induction k v m rule: fm_insert.induct) (auto simp: fm_get_def)

lemma fm_keys_insert [simp]: "fst ` set (fm_insert k v m) = insert k (fst ` set m)"
  by (induction k v m rule: fm_insert.induct) auto

lemma fm_ok_Nil [simp]: "fm_ok []"
  by (simp add: fm_ok_def)

lemma fm_ok_insert [simp]: "fm_ok m \<Longrightarrow> fm_ok (fm_insert k v m)"
proof (induction k v m rule: fm_insert.induct)
  case (1 k v)
  then show ?case by (simp add: fm_ok_def)
next
  case (2 k v k' v' m)
  then show ?case
    using fm_keys_insert [of k v m] by (auto simp: fm_ok_def)
qed

lemma fm_get_remove [simp, fm_simps]:
  "fm_get (fm_remove k m) k' = (if k' = k then None else fm_get m k')"
  by (induction m) (auto simp: fm_remove_def)

lemma fm_ok_filter [simp]: "fm_ok m \<Longrightarrow> fm_ok (filter P m)"
  unfolding fm_ok_def by (rule distinct_map_filter)

lemma fm_ok_remove [simp]: "fm_ok m \<Longrightarrow> fm_ok (fm_remove k m)"
  by (simp add: fm_remove_def)

lemma fm_ok_extend [simp]: "fm_ok m \<Longrightarrow> fm_ok (fm_extend m new)"
  unfolding fm_extend_def by (induction new arbitrary: m) auto

lemma fm_get_extend_notin: "k \<notin> fst ` set new \<Longrightarrow> fm_get (fm_extend m new) k = fm_get m k"
  unfolding fm_extend_def by (induction new arbitrary: m) auto

lemma fm_get_extend [fm_simps]:
  "fm_ok new \<Longrightarrow>
   fm_get (fm_extend m new) k = (case fm_get new k of None \<Rightarrow> fm_get m k | Some v \<Rightarrow> Some v)"
proof (induction new arbitrary: m)
  case Nil
  then show ?case by (simp add: fm_extend_def)
next
  case (Cons e new)
  obtain k' v' where e: "e = (k', v')" by (cases e)
  have step: "fm_extend m (e # new) = fm_extend (fm_insert k' v' m) new"
    by (simp add: fm_extend_def e)
  have ok: "fm_ok new" and out: "k' \<notin> fst ` set new"
    using Cons.prems e by (auto simp: fm_ok_def)
  have none: "fm_get new k' = None"
    using out by (simp add: fm_get_def map_of_eq_None_iff)
  show ?case
    unfolding step using Cons.IH [OF ok] e none by (auto split: option.splits)
qed

lemma fm_get_Some_in: "fm_get m k = Some v \<Longrightarrow> (k, v) \<in> set m"
  by (simp add: fm_get_def map_of_SomeD)

lemma fm_get_in: "fm_ok m \<Longrightarrow> (k, v) \<in> set m \<Longrightarrow> fm_get m k = Some v"
  by (simp add: fm_get_def fm_ok_def)

lemma fm_get_None_iff: "fm_get m k = None \<longleftrightarrow> k \<notin> fst ` set m"
  by (simp add: fm_get_def map_of_eq_None_iff)

lemma fm_insert_set:
  "fm_ok m \<Longrightarrow> set (fm_insert k v m) = insert (k, v) {e \<in> set m. fst e \<noteq> k}"
proof (induction k v m rule: fm_insert.induct)
  case (1 k v)
  then show ?case by simp
next
  case (2 k v k' v' m)
  have ok: "fm_ok m" and out: "k' \<notin> fst ` set m" using "2.prems" by (auto simp: fm_ok_def)
  show ?case
  proof (cases "k = k'")
    case True
    then show ?thesis using out by force
  next
    case False
    then show ?thesis using "2.IH" [OF False ok] by auto
  qed
qed

end
