(* ===== verification/AshText.thy ===== *)
theory AshText
  imports AshPrelude
begin

text \<open>
  Rust's \<open>String\<close> is the list of its UTF-8 bytes, one \<open>char\<close> each, so comparison, prefixes,
  suffixes and substrings are the bytewise ones Rust uses, and \<open>chars()\<close> groups the bytes of
  each scalar value. The white space of \<open>trim\<close> is Unicode's \<open>White_Space\<close> set. Case mapping
  needs the Unicode tables and is a parameter of the model (see \<open>AshValue\<close>).
\<close>

section \<open>Bytes and characters\<close>

definition byte :: "char \<Rightarrow> nat" where
  "byte c = of_char c"

definition is_cont :: "char \<Rightarrow> bool" where
  "is_cont c \<longleftrightarrow> 128 \<le> byte c \<and> byte c < 192"

lemma length_dropWhile_less [simp]: "length (dropWhile P xs) < Suc (length xs)"
  by (simp add: less_Suc_eq_le length_dropWhile_le)

text \<open>\<open>str::chars\<close>: each scalar value as the bytes that encode it.\<close>

fun chars :: "string \<Rightarrow> string list" where
  "chars [] = []"
| "chars (c # cs) = (c # takeWhile is_cont cs) # chars (dropWhile is_cont cs)"

lemma concat_chars [simp]: "concat (chars s) = s"
  by (induction s rule: chars.induct) auto

lemma chars_nonempty: "g \<in> set (chars s) \<Longrightarrow> g \<noteq> []"
  by (induction s rule: chars.induct) auto

lemma chars_inj: "chars s = chars t \<Longrightarrow> s = t"
  by (metis concat_chars)

lemma chars_Nil_iff [simp]: "chars s = [] \<longleftrightarrow> s = []"
  by (cases s) auto

lemma length_chars_le: "length (chars s) \<le> length s"
proof (induction s rule: chars.induct)
  case (2 c cs)
  then show ?case using length_dropWhile_le [of is_cont cs] by simp
qed simp

text \<open>Text of single bytes (ASCII) has one character per byte.\<close>

lemma length_chars_ascii: "\<forall>c \<in> set s. \<not> is_cont c \<Longrightarrow> chars s = map (\<lambda>c. [c]) s"
  by (induction s rule: chars.induct) (auto simp: dropWhile_eq_self_iff takeWhile_eq_Nil_iff)

section \<open>Comparison\<close>

definition char_cmp :: "char \<Rightarrow> char \<Rightarrow> ordering" where
  "char_cmp a b = lin_cmp (byte a) (byte b)"

definition str_cmp :: "string \<Rightarrow> string \<Rightarrow> ordering" where
  "str_cmp a b = list_cmp char_cmp a b"

lemma byte_inj [simp]: "byte a = byte b \<longleftrightarrow> a = b"
  by (simp add: byte_def)

interpretation char_order: comparator char_cmp "\<lambda>_. True"
  unfolding char_cmp_def
  using comparator_on_key [OF lin_order.comparator_axioms, of byte] by simp

lemma char_cmp_Equal [simp]: "char_cmp a b = Equal \<longleftrightarrow> a = b"
  by (simp add: char_cmp_def)

lemma list_cmp_Equal_eq:
  "(\<And>x y. x \<in> set xs \<Longrightarrow> y \<in> set ys \<Longrightarrow> c x y = Equal \<longleftrightarrow> x = y) \<Longrightarrow>
   list_cmp c xs ys = Equal \<longleftrightarrow> xs = ys"
proof (induction xs arbitrary: ys)
  case Nil
  then show ?case by (cases ys) auto
next
  case (Cons x xs)
  then show ?case by (cases ys) auto
qed

lemma str_cmp_Equal [simp]: "str_cmp a b = Equal \<longleftrightarrow> a = b"
  unfolding str_cmp_def by (rule list_cmp_Equal_eq) simp

lemma comparator_UNIV: "comparator c (\<lambda>_. True) \<Longrightarrow> comparator c (\<lambda>x. x \<in> UNIV)"
  by simp

interpretation str_order: comparator str_cmp "\<lambda>_. True"
proof unfold_locales
  fix a b c :: string
  show "str_cmp a a = Equal" by simp
  show "str_cmp b a = ord_reverse (str_cmp a b)"
    unfolding str_cmp_def by (rule list_cmp_sym) (rule char_order.cmp_sym; simp)
  show "str_cmp a b \<noteq> Greater \<Longrightarrow> str_cmp b c \<noteq> Greater \<Longrightarrow> str_cmp a c \<noteq> Greater"
    unfolding str_cmp_def
    by (rule list_cmp_le_trans [OF comparator_UNIV [OF char_order.comparator_axioms]]) simp_all
qed

section \<open>Searching and splitting\<close>

definition str_starts_with :: "string \<Rightarrow> string \<Rightarrow> bool" where
  "str_starts_with s p \<longleftrightarrow> take (length p) s = p"

definition str_ends_with :: "string \<Rightarrow> string \<Rightarrow> bool" where
  "str_ends_with s p \<longleftrightarrow> length p \<le> length s \<and> drop (length s - length p) s = p"

fun str_contains :: "string \<Rightarrow> string \<Rightarrow> bool" where
  "str_contains [] n = (n = [])"
| "str_contains (c # s) n = (str_starts_with (c # s) n \<or> str_contains s n)"

lemma str_starts_with_iff: "str_starts_with s p \<longleftrightarrow> (\<exists>t. s = p @ t)"
  unfolding str_starts_with_def by (metis append_take_drop_id append_eq_conv_conj)

lemma str_ends_with_iff: "str_ends_with s p \<longleftrightarrow> (\<exists>t. s = t @ p)"
  unfolding str_ends_with_def
  by (metis append_take_drop_id append_eq_conv_conj diff_add_inverse2 le_add2 length_append)

lemma str_contains_iff: "str_contains s n \<longleftrightarrow> (\<exists>a b. s = a @ n @ b)"
proof (induction s)
  case Nil
  then show ?case by auto
next
  case (Cons c s)
  have "(\<exists>a b. c # s = a @ n @ b) \<longleftrightarrow>
      (\<exists>b. c # s = n @ b) \<or> (\<exists>a b. s = a @ n @ b)"
  proof
    assume "\<exists>a b. c # s = a @ n @ b"
    then obtain a b where "c # s = a @ n @ b" by blast
    then show "(\<exists>b. c # s = n @ b) \<or> (\<exists>a b. s = a @ n @ b)" by (cases a) auto
  next
    assume "(\<exists>b. c # s = n @ b) \<or> (\<exists>a b. s = a @ n @ b)"
    then show "\<exists>a b. c # s = a @ n @ b" by (metis append_Cons append_Nil)
  qed
  then show ?case using Cons by (simp add: str_starts_with_iff)
qed

text \<open>\<open>strip_prefix\<close> and \<open>strip_suffix\<close> of one character.\<close>

definition strip_prefix_ch :: "char \<Rightarrow> string \<Rightarrow> string option" where
  "strip_prefix_ch c s = (case s of [] \<Rightarrow> None | x # xs \<Rightarrow> if x = c then Some xs else None)"

definition strip_suffix_ch :: "char \<Rightarrow> string \<Rightarrow> string option" where
  "strip_suffix_ch c s =
     (if s \<noteq> [] \<and> last s = c then Some (butlast s) else None)"

text \<open>\<open>split_once\<close> and \<open>split\<close> at a character: n separators give n + 1 pieces.\<close>

definition split_once_ch :: "char \<Rightarrow> string \<Rightarrow> (string \<times> string) option" where
  "split_once_ch c s =
     (if c \<in> set s
      then Some (takeWhile (\<lambda>x. x \<noteq> c) s, tl (dropWhile (\<lambda>x. x \<noteq> c) s))
      else None)"

fun split_ch :: "char \<Rightarrow> string \<Rightarrow> string list" where
  "split_ch c [] = [[]]"
| "split_ch c (x # xs) =
     (if x = c then [] # split_ch c xs
      else (case split_ch c xs of [] \<Rightarrow> [[x]] | p # ps \<Rightarrow> (x # p) # ps))"

fun join_str :: "string \<Rightarrow> string list \<Rightarrow> string" where
  "join_str sep [] = []"
| "join_str sep [x] = x"
| "join_str sep (x # y # ys) = x @ sep @ join_str sep (y # ys)"

lemma split_ch_nonempty [simp]: "split_ch c s \<noteq> []"
  by (induction s) (auto split: list.splits)

lemma join_split_ch: "join_str [c] (split_ch c s) = s"
proof (induction s)
  case Nil
  then show ?case by simp
next
  case (Cons x s)
  obtain p ps where ps: "split_ch c s = p # ps" by (cases "split_ch c s") auto
  then show ?case using Cons by (cases ps) auto
qed

lemma split_ch_pieces: "p \<in> set (split_ch c s) \<Longrightarrow> c \<notin> set p"
  by (induction s arbitrary: p) (auto split: if_splits list.splits)

lemma split_ch_single: "c \<notin> set s \<Longrightarrow> split_ch c s = [s]"
  by (induction s) auto

lemma split_ch_append: "c \<notin> set p \<Longrightarrow> split_ch c (p @ c # s) = p # split_ch c s"
  by (induction p) auto

text \<open>\<open>str::replace\<close>, left to right, for a pattern that isn't empty.\<close>

function str_replace :: "string \<Rightarrow> string \<Rightarrow> string \<Rightarrow> string" where
  "str_replace pat new s =
     (case s of
        [] \<Rightarrow> []
      | c # cs \<Rightarrow>
          if pat \<noteq> [] \<and> str_starts_with s pat
          then new @ str_replace pat new (drop (length pat) s)
          else c # str_replace pat new cs)"
  by pat_completeness auto
termination
  by (relation "measure (\<lambda>(pat, new, s). length s)") auto

declare str_replace.simps [simp del]

lemma str_replace_absent: "\<not> str_contains s pat \<Longrightarrow> str_replace pat new s = s"
  by (induction s) (subst str_replace.simps; simp)+

section \<open>White space\<close>

text \<open>
  The scalar values of Unicode's \<open>White_Space\<close>, in UTF-8: U+0009 to U+000D, U+0020, U+0085,
  U+00A0, U+1680, U+2000 to U+200A, U+2028, U+2029, U+202F, U+205F and U+3000.
\<close>

definition is_whitespace :: "string \<Rightarrow> bool" where
  "is_whitespace g \<longleftrightarrow>
     (case map byte g of
        [a] \<Rightarrow> 9 \<le> a \<and> a \<le> 13 \<or> a = 32
      | [a, b] \<Rightarrow> a = 194 \<and> (b = 133 \<or> b = 160)
      | [a, b, c] \<Rightarrow>
          a = 225 \<and> b = 154 \<and> c = 128
          \<or> a = 226 \<and> b = 128 \<and> (128 \<le> c \<and> c \<le> 138 \<or> c = 168 \<or> c = 169 \<or> c = 175)
          \<or> a = 226 \<and> b = 129 \<and> c = 159
          \<or> a = 227 \<and> b = 128 \<and> c = 128
      | _ \<Rightarrow> False)"

definition str_trim :: "string \<Rightarrow> string" where
  "str_trim s =
     concat (rev (dropWhile is_whitespace (rev (dropWhile is_whitespace (chars s)))))"

section \<open>Numbers as text\<close>

definition is_digit :: "char \<Rightarrow> bool" where
  "is_digit c \<longleftrightarrow> 48 \<le> byte c \<and> byte c \<le> 57"

definition digit_val :: "char \<Rightarrow> nat" where
  "digit_val c = byte c - 48"

definition digit_char :: "nat \<Rightarrow> char" where
  "digit_char d = char_of (48 + d)"

fun show_nat :: "nat \<Rightarrow> string" where
  "show_nat n = (if n < 10 then [digit_char n] else show_nat (n div 10) @ [digit_char (n mod 10)])"

declare show_nat.simps [simp del]

definition show_int :: "int \<Rightarrow> string" where
  "show_int i = (if i < 0 then CHR ''-'' # show_nat (nat (- i)) else show_nat (nat i))"

definition digits_val :: "string \<Rightarrow> nat" where
  "digits_val s = foldl (\<lambda>n c. 10 * n + digit_val c) 0 s"

text \<open>
  \<open>str::parse\<close> for a signed integer of the range \<open>lo..hi\<close>: one optional sign, then at least
  one digit and only digits, and the value in range.
\<close>

definition parse_int :: "int \<Rightarrow> int \<Rightarrow> string \<Rightarrow> int option" where
  "parse_int lo hi s =
     (let (neg, ds) = (case s of
          c # cs \<Rightarrow> if c = CHR ''-'' then (True, cs)
                     else if c = CHR ''+'' then (False, cs) else (False, s)
        | [] \<Rightarrow> (False, s))
      in if ds = [] \<or> \<not> list_all is_digit ds then None
         else let v = (if neg then - int (digits_val ds) else int (digits_val ds))
              in if lo \<le> v \<and> v \<le> hi then Some v else None)"

lemma byte_digit_char [simp]: "d < 10 \<Longrightarrow> byte (digit_char d) = 48 + d"
  by (simp add: byte_def digit_char_def of_char_of)

lemma is_digit_digit_char [simp]: "d < 10 \<Longrightarrow> is_digit (digit_char d)"
  by (simp add: is_digit_def)

lemma digit_val_digit_char [simp]: "d < 10 \<Longrightarrow> digit_val (digit_char d) = d"
  by (simp add: digit_val_def)

lemma show_nat_digits: "list_all is_digit (show_nat n)"
proof (induction n rule: show_nat.induct)
  case (1 n)
  then show ?case by (subst show_nat.simps) simp
qed

lemma show_nat_nonempty [simp]: "show_nat n \<noteq> []"
  by (subst show_nat.simps) simp

lemma digits_val_snoc [simp]: "digits_val (s @ [c]) = 10 * digits_val s + digit_val c"
  by (simp add: digits_val_def)

lemma digits_val_show_nat [simp]: "digits_val (show_nat n) = n"
proof (induction n rule: show_nat.induct)
  case (1 n)
  show ?case
  proof (cases "n < 10")
    case True
    then show ?thesis by (subst show_nat.simps) (simp add: digits_val_def)
  next
    case False
    then show ?thesis using 1 by (subst show_nat.simps) simp
  qed
qed

lemma show_nat_head: "show_nat n = c # cs \<Longrightarrow> c \<noteq> CHR ''-'' \<and> c \<noteq> CHR ''+''"
  using show_nat_digits [of n] by (auto simp: is_digit_def byte_def)

lemma parse_show_int: "lo \<le> i \<Longrightarrow> i \<le> hi \<Longrightarrow> parse_int lo hi (show_int i) = Some i"
proof (cases "i < 0")
  case True
  assume "lo \<le> i" "i \<le> hi"
  with True show ?thesis by (simp add: show_int_def parse_int_def show_nat_digits)
next
  case False
  assume r: "lo \<le> i" "i \<le> hi"
  obtain c cs where s: "show_nat (nat i) = c # cs" by (cases "show_nat (nat i)") auto
  have c: "c \<noteq> CHR ''-''" "c \<noteq> CHR ''+''" using show_nat_head [OF s] by auto
  have d: "list_all is_digit (c # cs)" "digits_val (c # cs) = nat i"
    using show_nat_digits [of "nat i"] digits_val_show_nat [of "nat i"] by (simp_all add: s)
  show ?thesis
    using False r c d by (simp add: show_int_def parse_int_def s Let_def)
qed

text \<open>Padding with zeros to a width: \<open>{:0width$}\<close> for a number that isn't negative.\<close>

definition pad_nat :: "nat \<Rightarrow> nat \<Rightarrow> string" where
  "pad_nat w n = replicate (w - length (show_nat n)) (CHR ''0'') @ show_nat n"

end
