(* ===== verification/AshFloat.thy ===== *)
theory AshFloat
  imports AshPrelude
begin

text \<open>
  Machine integers and floats as the code's values hold them: an \<open>i64\<close> is a 64-bit word read
  with \<open>sint\<close>, and an \<open>f64\<close> is the 64 bits of an IEEE-754 binary64. What the code does with a
  float is defined on the bits: \<open>total_cmp\<close>, \<open>partial_cmp\<close>, \<open>is_finite\<close> and the cast from
  \<open>i64\<close>, which rounds to nearest, ties to even. The lemmas show that \<open>total_cmp\<close> is a total
  order and that the cast keeps the order of the integers, which the mixed comparison of
  \<open>Value\<close> needs to be transitive.
\<close>

type_synonym i64 = "64 word"
type_synonym f64 = "64 word"

definition i64_min :: int where "i64_min = - (2 ^ 63)"
definition i64_max :: int where "i64_max = 2 ^ 63 - 1"

definition i64_cmp :: "i64 \<Rightarrow> i64 \<Rightarrow> ordering" where
  "i64_cmp a b = lin_cmp (sint a) (sint b)"

lemma sint_i64_range: "i64_min \<le> sint (a :: i64) \<and> sint a \<le> i64_max"
  using sint_range_size [of a] by (simp add: i64_min_def i64_max_def word_size)

lemma sint_i64_eq [simp]: "sint (a :: i64) = sint b \<longleftrightarrow> a = b"
  using signed_word_eqI [of a b] by auto

lemma sint_of_int_i64: "i64_min \<le> x \<Longrightarrow> x \<le> i64_max \<Longrightarrow> sint (word_of_int x :: i64) = x"
  by (simp add: i64_min_def i64_max_def signed_of_int signed_take_bit_int_eq_self)

lemma i64_cmp_Equal [simp]: "i64_cmp a b = Equal \<longleftrightarrow> a = b"
  by (simp add: i64_cmp_def)

section \<open>Comparison of floats\<close>

text \<open>The magnitude bits, and the sign.\<close>

definition f64_mag :: "f64 \<Rightarrow> int" where
  "f64_mag x = uint x mod 2 ^ 63"

definition f64_neg :: "f64 \<Rightarrow> bool" where
  "f64_neg x \<longleftrightarrow> 2 ^ 63 \<le> uint x"

text \<open>IEEE-754's total order: the magnitude, from the other side of zero when negative.\<close>

definition f64_key :: "f64 \<Rightarrow> int" where
  "f64_key x = (if f64_neg x then - f64_mag x - 1 else f64_mag x)"

definition f64_total_cmp :: "f64 \<Rightarrow> f64 \<Rightarrow> ordering" where
  "f64_total_cmp a b = lin_cmp (f64_key a) (f64_key b)"

definition f64_inf_mag :: int where
  "f64_inf_mag = 2047 * 2 ^ 52"

definition f64_is_nan :: "f64 \<Rightarrow> bool" where
  "f64_is_nan x \<longleftrightarrow> f64_inf_mag < f64_mag x"

definition f64_is_finite :: "f64 \<Rightarrow> bool" where
  "f64_is_finite x \<longleftrightarrow> f64_mag x < f64_inf_mag"

text \<open>The order of \<open>partial_cmp\<close>, \<open><\<close> and \<open>>\<close>: none for a NaN, and the two zeros equal.\<close>

definition f64_partial_cmp :: "f64 \<Rightarrow> f64 \<Rightarrow> ordering option" where
  "f64_partial_cmp a b =
     (if f64_is_nan a \<or> f64_is_nan b then None
      else Some (lin_cmp (if f64_neg a then - f64_mag a else f64_mag a)
                         (if f64_neg b then - f64_mag b else f64_mag b)))"

definition f64_less :: "f64 \<Rightarrow> f64 \<Rightarrow> bool" where
  "f64_less a b \<longleftrightarrow> f64_partial_cmp a b = Some Less"

lemma f64_mag_bounds: "0 \<le> f64_mag x" "f64_mag x < 2 ^ 63"
  by (simp_all add: f64_mag_def)

lemma uint_f64: "uint (x :: f64) = f64_mag x + (if f64_neg x then 2 ^ 63 else 0)"
proof -
  have u: "uint x < 2 ^ 63 + 2 ^ 63" "0 \<le> uint x" using uint_lt2p [of x] by simp_all
  show ?thesis
  proof (cases "f64_neg x")
    case True
    then have "2 ^ 63 \<le> uint x" by (simp only: f64_neg_def)
    moreover have "uint x mod 2 ^ 63 = (uint x - 2 ^ 63) mod 2 ^ 63"
      by (rule minus_mod_self2 [symmetric])
    ultimately have "uint x mod 2 ^ 63 = uint x - 2 ^ 63"
      using u by (metis diff_ge_0_iff_ge less_diff_eq mod_pos_pos_trivial add.commute diff_less_eq)
    then show ?thesis using True by (simp add: f64_mag_def)
  next
    case False
    then have "uint x mod 2 ^ 63 = uint x"
      using u(2) by (simp add: f64_neg_def)
    then show ?thesis using False by (simp only: f64_mag_def) simp
  qed
qed

lemma f64_key_inj [simp]: "f64_key a = f64_key b \<longleftrightarrow> a = b"
proof
  assume "f64_key a = f64_key b"
  then have "f64_neg a = f64_neg b \<and> f64_mag a = f64_mag b"
    using f64_mag_bounds [of a] f64_mag_bounds [of b]
    by (auto simp: f64_key_def split: if_splits)
  then have "uint a = uint b" by (simp add: uint_f64)
  then show "a = b" by (rule word_uint_eqI)
qed simp

lemma f64_total_cmp_Equal [simp]: "f64_total_cmp a b = Equal \<longleftrightarrow> a = b"
  by (simp add: f64_total_cmp_def)

section \<open>Casting an integer to a float\<close>

fun log2_nat :: "nat \<Rightarrow> nat" where
  "log2_nat n = (if n < 2 then 0 else Suc (log2_nat (n div 2)))"

declare log2_nat.simps [simp del]

lemma log2_nat_bounds: "0 < n \<Longrightarrow> 2 ^ log2_nat n \<le> n \<and> n < 2 ^ Suc (log2_nat n)"
proof (induction n rule: log2_nat.induct)
  case (1 n)
  show ?case
  proof (cases "n < 2")
    case True
    then have "log2_nat n = 0" by (simp add: log2_nat.simps [of n])
    then show ?thesis using 1 True by simp
  next
    case False
    then have l: "log2_nat n = Suc (log2_nat (n div 2))" by (simp add: log2_nat.simps [of n])
    have "2 ^ log2_nat (n div 2) \<le> n div 2 \<and> n div 2 < 2 ^ Suc (log2_nat (n div 2))"
      using 1 False by simp
    then have "2 * 2 ^ log2_nat (n div 2) \<le> n \<and> n < 2 * 2 ^ Suc (log2_nat (n div 2))"
      by linarith
    then show ?thesis by (simp add: l)
  qed
qed

lemma log2_nat_eq: "2 ^ k \<le> n \<Longrightarrow> n < 2 ^ Suc k \<Longrightarrow> log2_nat n = k"
proof -
  assume n: "2 ^ k \<le> n" "n < 2 ^ Suc k"
  then have "0 < n" by (metis gr0I le_zero_eq power_not_zero zero_neq_numeral)
  note b = log2_nat_bounds [OF this]
  have p: "(2::nat) ^ k < 2 ^ Suc (log2_nat n)" "(2::nat) ^ log2_nat n < 2 ^ Suc k"
    using n b by linarith+
  from p(1) have "k < Suc (log2_nat n)" by (rule power_less_imp_less_exp [rotated]) simp
  moreover from p(2) have "log2_nat n < Suc k" by (rule power_less_imp_less_exp [rotated]) simp
  ultimately show ?thesis by simp
qed

lemma log2_nat_mono:
  assumes "m \<le> n"
  shows "log2_nat m \<le> log2_nat n"
proof (cases "m = 0")
  case True
  then show ?thesis by (simp add: log2_nat.simps [of 0])
next
  case False
  then have "2 ^ log2_nat m \<le> m" "n < 2 ^ Suc (log2_nat n)"
    using log2_nat_bounds [of m] log2_nat_bounds [of n] assms by simp_all
  then have "2 ^ log2_nat m < (2::nat) ^ Suc (log2_nat n)" using assms by linarith
  then have "log2_nat m < Suc (log2_nat n)" by (rule power_less_imp_less_exp [rotated]) simp
  then show ?thesis by simp
qed

text \<open>Dividing by \<open>d\<close>, rounding to the nearest quotient, a tie to the even one.\<close>

definition round_div :: "nat \<Rightarrow> nat \<Rightarrow> nat" where
  "round_div n d =
     (let q = n div d; r = n mod d
      in if d < 2 * r \<or> (2 * r = d \<and> odd q) then Suc q else q)"

lemma round_div_mono: "m \<le> n \<Longrightarrow> 0 < d \<Longrightarrow> round_div m d \<le> round_div n d"
proof -
  assume mn: "m \<le> n" and d: "0 < d"
  have q: "m div d \<le> n div d" using mn by (rule div_le_mono)
  show ?thesis
  proof (cases "m div d = n div d")
    case True
    then have "m mod d \<le> n mod d"
      using mn by (metis add_le_cancel_left mult_div_mod_eq)
    then show ?thesis using True by (auto simp: round_div_def Let_def)
  next
    case False
    then have "Suc (m div d) \<le> n div d" using q by simp
    then show ?thesis by (auto simp: round_div_def Let_def)
  qed
qed

text \<open>
  The bits of a positive integer's float: the exponent is that of its leading bit, and the 53
  bits of the significand, which rounding may carry into the next exponent.
\<close>

definition f64_significand :: "nat \<Rightarrow> nat" where
  "f64_significand n =
     (let e = log2_nat n
      in if e \<le> 52 then n * 2 ^ (52 - e) else round_div n (2 ^ (e - 52)))"

definition f64_nat_bits :: "nat \<Rightarrow> nat" where
  "f64_nat_bits n =
     (if n = 0 then 0 else (log2_nat n + 1022) * 2 ^ 52 + f64_significand n)"

text \<open>\<open>n as f64\<close> for an \<open>i64\<close>.\<close>

definition f64_of_i64 :: "i64 \<Rightarrow> f64" where
  "f64_of_i64 n =
     (if sint n < 0 then word_of_nat (2 ^ 63 + f64_nat_bits (nat (- sint n)))
      else word_of_nat (f64_nat_bits (nat (sint n))))"

lemma round_div_bounds:
  assumes "0 < d" "a * d \<le> n" "n \<le> b * d"
  shows "a \<le> round_div n d \<and> round_div n d \<le> b"
proof -
  have "round_div (a * d) d = a" "round_div (b * d) d = b"
    using assms(1) by (simp_all add: round_div_def Let_def)
  then show ?thesis using assms round_div_mono [of "a * d" n d] round_div_mono [of n "b * d" d] by simp
qed

lemma f64_significand_bounds:
  assumes "0 < n"
  shows "2 ^ 52 \<le> f64_significand n \<and> f64_significand n \<le> 2 ^ 53"
proof -
  define e where "e = log2_nat n"
  have n: "2 ^ e \<le> n" "n \<le> 2 ^ Suc e" using log2_nat_bounds [OF assms] by (simp_all add: e_def)
  show ?thesis
  proof (cases "e \<le> 52")
    case True
    have "2 ^ e * 2 ^ (52 - e) \<le> n * 2 ^ (52 - e)" using n(1) by (rule mult_le_mono1)
    moreover have "n * 2 ^ (52 - e) \<le> 2 ^ Suc e * 2 ^ (52 - e)"
      using n(2) by (rule mult_le_mono1)
    moreover have "(2::nat) ^ e * 2 ^ (52 - e) = 2 ^ 52"
      using True by (metis le_add_diff_inverse power_add)
    moreover have "(2::nat) ^ Suc e * 2 ^ (52 - e) = 2 ^ 53"
      using True by (metis Suc_diff_le add_Suc le_add_diff_inverse numeral_eq_Suc pred_numeral_simps(3)
          BitM.simps(1) eval_nat_numeral(3) power_add)
    ultimately show ?thesis using True unfolding f64_significand_def Let_def e_def [symmetric]
      by (simp only: if_True)
  next
    case False
    have "(2::nat) ^ 52 * 2 ^ (e - 52) = 2 ^ e"
      using False by (metis le_add_diff_inverse nat_le_linear power_add)
    moreover have "(2::nat) ^ 53 * 2 ^ (e - 52) = 2 ^ Suc e"
      using calculation by simp
    ultimately have "2 ^ 52 \<le> round_div n (2 ^ (e - 52)) \<and> round_div n (2 ^ (e - 52)) \<le> 2 ^ 53"
      using n by (intro round_div_bounds) (simp_all only: zero_less_power zero_less_numeral)
    then show ?thesis using False unfolding f64_significand_def Let_def e_def [symmetric]
      by (simp only: if_False)
  qed
qed

lemma f64_nat_bits_mono: "m \<le> n \<Longrightarrow> f64_nat_bits m \<le> f64_nat_bits n"
proof (cases "m = 0")
  case True
  then show ?thesis by (simp add: f64_nat_bits_def)
next
  case False
  assume mn: "m \<le> n"
  have n0: "n \<noteq> 0" using False mn by simp
  have lm: "log2_nat m \<le> log2_nat n" using mn by (rule log2_nat_mono)
  show ?thesis
  proof (cases "log2_nat m = log2_nat n")
    case True
    then have "f64_significand m \<le> f64_significand n"
      using mn by (auto simp: f64_significand_def Let_def intro: round_div_mono)
    then show ?thesis using False n0 True by (simp add: f64_nat_bits_def)
  next
    case ne: False
    have "f64_significand m \<le> 2 ^ 53" "2 ^ 52 \<le> f64_significand n"
      using f64_significand_bounds False n0 by simp_all
    moreover have "(log2_nat m + 1022) * 2 ^ 52 + 2 ^ 52 \<le> (log2_nat n + 1022) * (2::nat) ^ 52"
      using lm ne by (simp add: algebra_simps)
    ultimately show ?thesis using False n0 by (simp add: f64_nat_bits_def)
  qed
qed

lemma f64_nat_bits_bound:
  assumes "n \<le> 2 ^ 63"
  shows "f64_nat_bits n < 2 ^ 63"
proof (cases "n = 0")
  case True
  then show ?thesis by (simp add: f64_nat_bits_def)
next
  case False
  then have "2 ^ log2_nat n \<le> n" using log2_nat_bounds [of n] by simp
  then have "(2::nat) ^ log2_nat n \<le> 2 ^ 63" using assms by (rule order_trans)
  then have "log2_nat n \<le> 63" by (rule power_le_imp_le_exp [rotated]) simp
  then have "(log2_nat n + 1022) * 2 ^ 52 \<le> 1085 * (2::nat) ^ 52"
    by (intro mult_le_mono1) simp
  moreover have "f64_significand n \<le> 2 ^ 53" using f64_significand_bounds False by simp
  ultimately have "f64_nat_bits n \<le> 1085 * 2 ^ 52 + 2 ^ 53"
    using False unfolding f64_nat_bits_def by (simp only: if_False add_mono)
  also have "\<dots> < (2::nat) ^ 63" by simp
  finally show ?thesis .
qed

lemma uint_f64_of_nat: "m < 2 ^ 64 \<Longrightarrow> uint (word_of_nat m :: f64) = int m"
  by (simp add: uint_nat unat_of_nat)

lemma f64_key_small:
  assumes n: "n < 2 ^ 63"
  shows "f64_key (word_of_nat n) = int n"
proof -
  have "uint (word_of_nat n :: f64) = int n"
    by (rule uint_f64_of_nat) (use n in simp)
  then show ?thesis using n by (simp add: f64_key_def f64_mag_def f64_neg_def)
qed

lemma f64_key_large:
  assumes n: "n < 2 ^ 63"
  shows "f64_key (word_of_nat (2 ^ 63 + n)) = - int n - 1"
proof -
  define m :: nat where "m = 2 ^ 63 + n"
  have im: "int m = int n + 2 ^ 63" by (simp add: m_def)
  have "uint (word_of_nat m :: f64) = int n + 2 ^ 63"
    unfolding im [symmetric] by (rule uint_f64_of_nat) (use n in \<open>simp add: m_def\<close>)
  then show ?thesis
    unfolding m_def [symmetric] using n by (simp add: f64_key_def f64_mag_def f64_neg_def)
qed

lemma f64_key_of_i64:
  "f64_key (f64_of_i64 n) =
     (if sint n < 0 then - int (f64_nat_bits (nat (- sint n))) - 1
      else int (f64_nat_bits (nat (sint n))))"
proof -
  have r: "- (2 ^ 63) \<le> sint n" "sint n < 2 ^ 63"
    using sint_i64_range [of n] by (simp_all add: i64_min_def i64_max_def)
  have neg: "f64_nat_bits (nat (- sint n)) < 2 ^ 63"
    by (rule f64_nat_bits_bound) (use r in simp)
  have pos: "f64_nat_bits (nat (sint n)) < 2 ^ 63"
    by (rule f64_nat_bits_bound) (use r in simp)
  show ?thesis
  proof (cases "sint n < 0")
    case True
    then have "f64_of_i64 n = word_of_nat (2 ^ 63 + f64_nat_bits (nat (- sint n)))"
      by (simp only: f64_of_i64_def if_True)
    then show ?thesis using f64_key_large [OF neg] True by (simp only: if_True)
  next
    case False
    then have "f64_of_i64 n = word_of_nat (f64_nat_bits (nat (sint n)))"
      by (simp only: f64_of_i64_def if_False)
    then show ?thesis using f64_key_small [OF pos] False by (simp only: if_False)
  qed
qed

text \<open>The cast keeps the order of the integers (it may merge neighbours, never swap them).\<close>

lemma f64_of_i64_mono:
  "sint a \<le> sint b \<Longrightarrow> f64_key (f64_of_i64 a) \<le> f64_key (f64_of_i64 b)"
proof -
  assume ab: "sint a \<le> sint b"
  consider "sint a < 0" "sint b < 0" | "sint a < 0" "0 \<le> sint b" | "0 \<le> sint a" "0 \<le> sint b"
    using ab by linarith
  then show ?thesis
  proof cases
    case 1
    then have "f64_nat_bits (nat (- sint b)) \<le> f64_nat_bits (nat (- sint a))"
      using ab by (intro f64_nat_bits_mono) simp
    then show ?thesis using 1 by (simp add: f64_key_of_i64)
  next
    case 2
    then show ?thesis by (simp add: f64_key_of_i64)
  next
    case 3
    then have "f64_nat_bits (nat (sint a)) \<le> f64_nat_bits (nat (sint b))"
      using ab by (intro f64_nat_bits_mono) simp
    then show ?thesis using 3 by (simp add: f64_key_of_i64)
  qed
qed

end
