(* ===== verification/AshValue.thy ===== *)
theory AshValue
  imports AshText AshFloat
begin

text \<open>
  \<open>crates/ash-core/src/value.rs\<close>: the dynamic values a record holds, their total order, the
  hashing that must agree with it, the typed readers of a record's fields, metadata and
  unions. The order is proved to be a total preorder on every value, maps and mixed integers
  and floats included, which is what \<open>HashMap\<close> keys and sorting rest on.
\<close>

section \<open>Values\<close>

type_synonym uuid = "128 word"

datatype Value =
    VNull
  | VBool bool
  | VInt i64
  | VFloat f64
  | VUuid uuid
  | VString string
  | VMap "(string \<times> Value) list"
  | VArray "Value list"

type_synonym fields = "(string, Value) hmap"

text \<open>
  What the code calls outside the repository: the Unicode tables behind \<open>to_lowercase\<close> and
  \<open>to_uppercase\<close>, the decimal conversions of floats, \<open>chrono\<close>'s timestamps, \<open>uuid\<close>'s text
  form, the address parser, base64, the JSON and debug text a value is displayed with, and
  whether the build checks integer arithmetic for overflow (a debug build does, a release
  build wraps). They are parameters: every theorem holds whatever they do, unless it says
  otherwise.
\<close>

datatype time_precision = Second | Microsecond

type_synonym f32 = "32 word"

record external =
  x_overflow_checks :: bool
  x_lower :: "string \<Rightarrow> string"
  x_upper :: "string \<Rightarrow> string"
  x_uuid_parse :: "string \<Rightarrow> uuid option"
  x_uuid_error :: "string \<Rightarrow> string"
  x_uuid_show :: "uuid \<Rightarrow> string"
  x_f64_parse :: "string \<Rightarrow> f64 option"
  x_f64_show :: "f64 \<Rightarrow> string"
  x_f32_parse :: "string \<Rightarrow> f32 option"
  x_f32_debug :: "f32 \<Rightarrow> string"
  x_datetime :: "time_precision \<Rightarrow> string \<Rightarrow> string option"
  x_ip_parse :: "string \<Rightarrow> (bool \<times> string) option"
  x_base64_decode :: "string \<Rightarrow> string option"
  x_base64_encode :: "string \<Rightarrow> string"
  x_base64_error :: "string \<Rightarrow> string"
  x_json :: "Value \<Rightarrow> string"
  x_debug :: "string list \<Rightarrow> string"

text \<open>
  One such environment, for the examples: a debug build whose text is ASCII and whose parsers
  refuse everything.
\<close>

definition ascii_lower :: "string \<Rightarrow> string" where
  "ascii_lower = map (\<lambda>c. if 65 \<le> byte c \<and> byte c \<le> 90 then char_of (byte c + 32) else c)"

definition ascii_upper :: "string \<Rightarrow> string" where
  "ascii_upper = map (\<lambda>c. if 97 \<le> byte c \<and> byte c \<le> 122 then char_of (byte c - 32) else c)"

definition sample_external :: external where
  "sample_external =
     \<lparr>x_overflow_checks = True, x_lower = ascii_lower, x_upper = ascii_upper,
      x_uuid_parse = (\<lambda>_. None), x_uuid_error = (\<lambda>_. ''invalid uuid''), x_uuid_show = (\<lambda>u. show_nat (unat u)),
      x_f64_parse = (\<lambda>_. None), x_f64_show = (\<lambda>x. show_nat (unat x)),
      x_f32_parse = (\<lambda>_. None), x_f32_debug = (\<lambda>x. show_nat (unat x)),
      x_datetime = (\<lambda>_ _. None), x_ip_parse = (\<lambda>_. None), x_base64_decode = (\<lambda>_. None),
      x_base64_encode = (\<lambda>s. s), x_base64_error = (\<lambda>_. ''invalid base64''),
      x_json = (\<lambda>_. ''{}''), x_debug = join_str '', ''\<rparr>"

definition is_null :: "Value \<Rightarrow> bool" where
  "is_null v \<longleftrightarrow> v = VNull"

fun as_str :: "Value \<Rightarrow> string option" where
  "as_str (VString s) = Some s"
| "as_str _ = None"

fun as_float :: "Value \<Rightarrow> f64 option" where
  "as_float (VFloat n) = Some n"
| "as_float (VInt n) = Some (f64_of_i64 n)"
| "as_float _ = None"

fun as_int :: "Value \<Rightarrow> i64 option" where
  "as_int (VInt n) = Some n"
| "as_int _ = None"

fun as_bool :: "Value \<Rightarrow> bool option" where
  "as_bool (VBool b) = Some b"
| "as_bool _ = None"

fun as_uuid :: "Value \<Rightarrow> uuid option" where
  "as_uuid (VUuid u) = Some u"
| "as_uuid _ = None"

fun as_map :: "Value \<Rightarrow> fields option" where
  "as_map (VMap m) = Some m"
| "as_map _ = None"

fun as_array :: "Value \<Rightarrow> Value list option" where
  "as_array (VArray a) = Some a"
| "as_array _ = None"

fun type_name :: "Value \<Rightarrow> string" where
  "type_name VNull = ''null''"
| "type_name (VBool _) = ''boolean''"
| "type_name (VInt _) = ''integer''"
| "type_name (VFloat _) = ''float''"
| "type_name (VUuid _) = ''uuid''"
| "type_name (VString _) = ''string''"
| "type_name (VMap _) = ''map''"
| "type_name (VArray _) = ''array''"

fun value_display :: "external \<Rightarrow> Value \<Rightarrow> string" where
  "value_display x VNull = ''nil''"
| "value_display x (VBool b) = (if b then ''true'' else ''false'')"
| "value_display x (VInt n) = show_int (sint n)"
| "value_display x (VFloat n) = x_f64_show x n"
| "value_display x (VUuid u) = x_uuid_show x u"
| "value_display x (VString s) = s"
| "value_display x (VMap m) = x_json x (VMap m)"
| "value_display x (VArray a) = x_json x (VArray a)"

section \<open>The order of values\<close>

fun value_rank :: "Value \<Rightarrow> nat" where
  "value_rank VNull = 0"
| "value_rank (VBool _) = 1"
| "value_rank (VInt _) = 2"
| "value_rank (VFloat _) = 2"
| "value_rank (VUuid _) = 3"
| "value_rank (VString _) = 4"
| "value_rank (VMap _) = 5"
| "value_rank (VArray _) = 6"

lemma size_map_entry: "(k, v) \<in> set m \<Longrightarrow> size v < size (VMap m)"
  by (induction m) auto

lemma size_array_item: "v \<in> set a \<Longrightarrow> size v < size (VArray a)"
  by (induction a) auto

text \<open>\<open>sort_by_key(|(k, _)| *k)\<close>.\<close>

definition sort_entries :: "(string \<times> 'v) list \<Rightarrow> (string \<times> 'v) list" where
  "sort_entries m = sort_by (\<lambda>a b. str_cmp (fst a) (fst b)) m"

lemma set_sort_entries [simp]: "set (sort_entries m) = set m"
  by (simp add: sort_entries_def)

lemma length_sort_entries [simp]: "length (sort_entries m) = length m"
  by (simp add: sort_entries_def)

definition entry_cmp ::
    "('v \<Rightarrow> 'v \<Rightarrow> ordering) \<Rightarrow> string \<times> 'v \<Rightarrow> string \<times> 'v \<Rightarrow> ordering" where
  "entry_cmp c a b = ord_then (str_cmp (fst a) (fst b)) (c (snd a) (snd b))"

lemma entry_cmp_cong [fundef_cong]:
  "a = a' \<Longrightarrow> b = b' \<Longrightarrow> c (snd a') (snd b') = c' (snd a') (snd b') \<Longrightarrow>
   entry_cmp c a b = entry_cmp c' a' b'"
  by (simp add: entry_cmp_def)

function (sequential) value_cmp :: "Value \<Rightarrow> Value \<Rightarrow> ordering" where
  "value_cmp VNull VNull = Equal"
| "value_cmp (VBool a) (VBool b) = lin_cmp a b"
| "value_cmp (VInt a) (VInt b) = i64_cmp a b"
| "value_cmp (VFloat a) (VFloat b) = f64_total_cmp a b"
| "value_cmp (VInt a) (VFloat b) = ord_then (f64_total_cmp (f64_of_i64 a) b) Less"
| "value_cmp (VFloat a) (VInt b) = ord_then (f64_total_cmp a (f64_of_i64 b)) Greater"
| "value_cmp (VUuid a) (VUuid b) = lin_cmp a b"
| "value_cmp (VString a) (VString b) = str_cmp a b"
| "value_cmp (VArray a) (VArray b) = list_cmp (\<lambda>x y. value_cmp x y) a b"
| "value_cmp (VMap a) (VMap b) =
     (if length a \<noteq> length b then lin_cmp (length a) (length b)
      else list_cmp (\<lambda>e f. entry_cmp value_cmp e f) (sort_entries a) (sort_entries b))"
| "value_cmp a b = lin_cmp (value_rank a) (value_rank b)"
  by pat_completeness auto
termination
proof (relation "measure (\<lambda>(a, b). size a + size b)", goal_cases)
  case 1
  then show ?case by simp
next
  case (2 a b x y)
  then show ?case using size_array_item [of x a] size_array_item [of y b] by simp
next
  case (3 a b e f)
  then show ?case
    using size_map_entry [of "fst e" "snd e" a] size_map_entry [of "fst f" "snd f" b] by simp
qed

text \<open>\<open>PartialEq\<close>: equal where the order says so.\<close>

definition value_eq :: "Value \<Rightarrow> Value \<Rightarrow> bool" where
  "value_eq a b \<longleftrightarrow> value_cmp a b = Equal"

text \<open>What \<open>Hash\<close> feeds the hasher, in order.\<close>

datatype hash_token =
    HDiscriminant nat | HBool bool | HInt i64 | HBits "64 word" | HUuid uuid
  | HStr string | HLen nat

fun value_discriminant :: "Value \<Rightarrow> nat" where
  "value_discriminant VNull = 0"
| "value_discriminant (VBool _) = 1"
| "value_discriminant (VInt _) = 2"
| "value_discriminant (VFloat _) = 3"
| "value_discriminant (VUuid _) = 4"
| "value_discriminant (VString _) = 5"
| "value_discriminant (VMap _) = 6"
| "value_discriminant (VArray _) = 7"

function (sequential) value_hash :: "Value \<Rightarrow> hash_token list" where
  "value_hash VNull = [HDiscriminant 0]"
| "value_hash (VBool b) = [HDiscriminant 1, HBool b]"
| "value_hash (VInt n) = [HDiscriminant 2, HInt n]"
| "value_hash (VFloat n) = [HDiscriminant 3, HBits n]"
| "value_hash (VUuid u) = [HDiscriminant 4, HUuid u]"
| "value_hash (VString s) = [HDiscriminant 5, HStr s]"
| "value_hash (VMap m) = HDiscriminant 6 # HLen (length m) #
     concat (map (\<lambda>e. HStr (fst e) # value_hash (snd e)) (sort_entries m))"
| "value_hash (VArray a) = HDiscriminant 7 # HLen (length a) # concat (map value_hash a)"
  by pat_completeness auto
termination
proof (relation "measure size", goal_cases)
  case 1
  then show ?case by simp
next
  case (2 m e)
  then show ?case using size_map_entry [of "fst e" "snd e" m] by simp
next
  case (3 a v)
  then show ?case using size_array_item [of v a] by simp
qed

subsection \<open>The order is a total preorder\<close>

lemma comparator_cong:
  assumes "comparator c ok" and "\<And>a b. ok a \<Longrightarrow> ok b \<Longrightarrow> c' a b = c a b"
  shows "comparator c' ok"
  using assms unfolding comparator_def by metis

lemma comparator_weaken:
  assumes "comparator c ok" and "\<And>a. ok' a \<Longrightarrow> ok a"
  shows "comparator c ok'"
  using assms unfolding comparator_def by metis

lemma comparator_list:
  assumes "comparator c (\<lambda>x. x \<in> S)"
  shows "comparator (list_cmp c) (\<lambda>xs. set xs \<subseteq> S)"
proof
  fix xs assume "set xs \<subseteq> S"
  then show "list_cmp c xs xs = Equal"
    by (intro list_cmp_refl comparator.cmp_refl [OF assms]) auto
next
  fix xs ys assume "set xs \<subseteq> S" "set ys \<subseteq> S"
  then show "list_cmp c ys xs = ord_reverse (list_cmp c xs ys)"
    by (intro list_cmp_sym comparator.cmp_sym [OF assms]) blast+
next
  fix xs ys zs
  assume "set xs \<subseteq> S" "set ys \<subseteq> S" "set zs \<subseteq> S"
    and "list_cmp c xs ys \<noteq> Greater" "list_cmp c ys zs \<noteq> Greater"
  then show "list_cmp c xs zs \<noteq> Greater"
    by (rule list_cmp_le_trans [OF assms])
qed

lemma comparator_entry:
  assumes "comparator c ok"
  shows "comparator (entry_cmp c) (\<lambda>e. ok (snd e))"
proof -
  have k: "comparator (\<lambda>a b :: string \<times> 'a. str_cmp (fst a) (fst b)) (\<lambda>e. ok (snd e))"
    by (rule comparator_weaken [OF comparator_on_key [OF str_order.comparator_axioms]]) simp
  show ?thesis
    unfolding entry_cmp_def
    by (rule comparator_then [OF k comparator_on_key [OF assms]])
qed

text \<open>
  Numbers order by a key: the float nearest the number, integers before floats, then the
  integer itself. That this is the code's order for two integers is the monotonicity of the
  cast.
\<close>

fun num_key :: "Value \<Rightarrow> int list" where
  "num_key (VInt n) = [f64_key (f64_of_i64 n), 0, sint n]"
| "num_key (VFloat x) = [f64_key x, 1, 0]"
| "num_key _ = []"

lemma num_cmp_key:
  assumes "value_rank a = 2" "value_rank b = 2"
  shows "value_cmp a b = list_cmp lin_cmp (num_key a) (num_key b)"
proof -
  have ii: "i64_cmp m n = ord_then (lin_cmp (f64_key (f64_of_i64 m)) (f64_key (f64_of_i64 n)))
      (lin_cmp (sint m) (sint n))" for m n
    using f64_of_i64_mono [of m n] f64_of_i64_mono [of n m] sint_i64_eq [of m n]
    by (cases "sint m < sint n"; cases "sint n < sint m") (auto simp: i64_cmp_def lin_cmp_def)
  have l: "lin_cmp (0::int) 1 = Less" "lin_cmp (1::int) 0 = Greater"
    by (simp_all add: lin_cmp_def)
  show ?thesis
    using assms ii by (cases a; cases b) (simp_all add: f64_total_cmp_def l)
qed

lemma value_cmp_rank:
  "value_rank a \<noteq> value_rank b \<Longrightarrow> value_cmp a b = lin_cmp (value_rank a) (value_rank b)"
  by (cases a; cases b) simp_all

lemma comparator_same_rank:
  assumes key: "\<And>a b. ok a \<Longrightarrow> ok b \<Longrightarrow> r a \<noteq> r b \<Longrightarrow> c a b = lin_cmp (r a :: nat) (r b)"
    and same: "\<And>n. comparator c (\<lambda>a. ok a \<and> r a = n)"
  shows "comparator c ok"
proof
  fix a assume "ok a"
  then show "c a a = Equal" using comparator.cmp_refl [OF same [of "r a"]] by simp
next
  fix a b assume ok: "ok a" "ok b"
  show "c b a = ord_reverse (c a b)"
  proof (cases "r a = r b")
    case True
    then show ?thesis by (intro comparator.cmp_sym [OF same [of "r b"]]) (simp_all add: ok)
  next
    case False
    then have "c a b = lin_cmp (r a) (r b)" "c b a = lin_cmp (r b) (r a)"
      using key [OF ok] key [OF ok(2,1)] by simp_all
    then show ?thesis using lin_order.cmp_sym [of "r a" "r b"] by simp
  qed
next
  fix x y z
  assume ok: "ok x" "ok y" "ok z" and xy: "c x y \<noteq> Greater" and yz: "c y z \<noteq> Greater"
  have le: "r a \<le> r b" if "ok a" "ok b" "c a b \<noteq> Greater" for a b
  proof (cases "r a = r b")
    case False
    then have "c a b = lin_cmp (r a) (r b)" by (rule key [OF that(1,2)])
    then show ?thesis using that(3) by simp
  qed simp
  have r: "r x \<le> r y" "r y \<le> r z" using le ok xy yz by blast+
  show "c x z \<noteq> Greater"
  proof (cases "r x = r z")
    case True
    then have "r x = r z" "r y = r z" using r by simp_all
    then show ?thesis
      by (intro comparator.cmp_le_trans [OF same [of "r z"] _ _ _ xy yz]) (simp_all add: ok)
  next
    case False
    then have "c x z = lin_cmp (r x) (r z)" by (rule key [OF ok(1,3)])
    then show ?thesis using r by simp
  qed
qed

definition below :: "nat \<Rightarrow> Value \<Rightarrow> bool" where
  "below n v \<longleftrightarrow> size v < n"

fun map_entries :: "Value \<Rightarrow> (string \<times> Value) list" where
  "map_entries (VMap m) = m"
| "map_entries _ = []"

fun array_items :: "Value \<Rightarrow> Value list" where
  "array_items (VArray a) = a"
| "array_items _ = []"

lemma comparator_arrays:
  assumes "comparator value_cmp (below n)"
  shows "comparator value_cmp (\<lambda>v. below (Suc n) v \<and> value_rank v = 6)"
proof (rule comparator_cong)
  have S: "comparator value_cmp (\<lambda>x. x \<in> Collect (below n))" using assms by simp
  have "comparator (\<lambda>a b. list_cmp value_cmp (array_items a) (array_items b))
      (\<lambda>a. set (array_items a) \<subseteq> Collect (below n))"
    by (rule comparator_on_key [OF comparator_list [OF S]])
  then show "comparator (\<lambda>a b. list_cmp value_cmp (array_items a) (array_items b))
      (\<lambda>v. below (Suc n) v \<and> value_rank v = 6)"
  proof (rule comparator_weaken)
    fix v assume v: "below (Suc n) v \<and> value_rank v = 6"
    then obtain a where a: "v = VArray a" by (cases v) auto
    show "set (array_items v) \<subseteq> Collect (below n)"
      using v size_array_item [of _ a] by (fastforce simp: a below_def)
  qed
next
  fix a b
  assume "below (Suc n) a \<and> value_rank a = 6" "below (Suc n) b \<and> value_rank b = 6"
  then show "value_cmp a b = list_cmp value_cmp (array_items a) (array_items b)"
    by (cases a; cases b) simp_all
qed

lemma comparator_maps:
  assumes "comparator value_cmp (below n)"
  shows "comparator value_cmp (\<lambda>v. below (Suc n) v \<and> value_rank v = 5)"
proof (rule comparator_same_rank)
  fix a b
  assume "below (Suc n) a \<and> value_rank a = 5" "below (Suc n) b \<and> value_rank b = 5"
    and "length (map_entries a) \<noteq> length (map_entries b)"
  then show "value_cmp a b = lin_cmp (length (map_entries a)) (length (map_entries b))"
    by (cases a; cases b) simp_all
next
  fix k
  let ?ok = "\<lambda>v. (below (Suc n) v \<and> value_rank v = 5) \<and> length (map_entries v) = k"
  let ?c = "\<lambda>a b. list_cmp (entry_cmp value_cmp) (sort_entries (map_entries a))
      (sort_entries (map_entries b))"
  have S: "comparator (entry_cmp value_cmp) (\<lambda>e. e \<in> {e. below n (snd e)})"
    using comparator_entry [OF assms] by simp
  have "comparator ?c (\<lambda>a. set (sort_entries (map_entries a)) \<subseteq> {e. below n (snd e)})"
    by (rule comparator_on_key [OF comparator_list [OF S]])
  then have C: "comparator ?c ?ok"
  proof (rule comparator_weaken)
    fix v assume v: "?ok v"
    then obtain m where m: "v = VMap m" by (cases v) auto
    show "set (sort_entries (map_entries v)) \<subseteq> {e. below n (snd e)}"
    proof
      fix e assume "e \<in> set (sort_entries (map_entries v))"
      then have "(fst e, snd e) \<in> set m" by (simp add: m)
      then show "e \<in> {e. below n (snd e)}"
        using size_map_entry [of "fst e" "snd e" m] v by (simp add: m below_def)
    qed
  qed
  have e: "value_cmp a b = ?c a b" if "?ok a" "?ok b" for a b
    using that by (cases a; cases b) simp_all
  show "comparator value_cmp ?ok" by (rule comparator_cong [OF C e])
qed

lemma comparator_numbers: "comparator value_cmp (\<lambda>v. value_rank v = 2)"
proof (rule comparator_cong)
  have U: "comparator lin_cmp (\<lambda>x :: int. x \<in> UNIV)"
    using lin_order.comparator_axioms by simp
  have "comparator (\<lambda>a b. list_cmp lin_cmp (num_key a) (num_key b)) (\<lambda>a. set (num_key a) \<subseteq> UNIV)"
    by (rule comparator_on_key [OF comparator_list [OF U]])
  then show "comparator (\<lambda>a b. list_cmp lin_cmp (num_key a) (num_key b)) (\<lambda>v. value_rank v = 2)"
    by (rule comparator_weaken) simp
qed (rule num_cmp_key)

lemma comparator_scalars:
  assumes "k \<notin> {2, 5, 6}"
  shows "comparator value_cmp (\<lambda>v. value_rank v = k)"
proof -
  consider "k = 0" | "k = 1" | "k = 3" | "k = 4" | "6 < k" using assms by force
  then show ?thesis
  proof cases
    case 1
    have "value_rank v = 0 \<longleftrightarrow> v = VNull" for v by (cases v) auto
    then show ?thesis unfolding 1 by unfold_locales auto
  next
    case 2
    have v: "\<exists>x. v = VBool x" if "value_rank v = 1" for v using that by (cases v) auto
    have "comparator (\<lambda>a b. lin_cmp (as_bool a = Some True) (as_bool b = Some True)) (\<lambda>v. value_rank v = 1)"
      by (rule comparator_weaken [OF comparator_on_key [OF lin_order.comparator_axioms]]) simp
    then show ?thesis unfolding 2 by (rule comparator_cong) (fastforce dest: v)
  next
    case 3
    have v: "\<exists>x. v = VUuid x" if "value_rank v = 3" for v using that by (cases v) auto
    have "comparator (\<lambda>a b. lin_cmp (the (as_uuid a)) (the (as_uuid b))) (\<lambda>v. value_rank v = 3)"
      by (rule comparator_weaken [OF comparator_on_key [OF lin_order.comparator_axioms]]) simp
    then show ?thesis unfolding 3 by (rule comparator_cong) (auto dest!: v)
  next
    case 4
    have v: "\<exists>x. v = VString x" if "value_rank v = 4" for v using that by (cases v) auto
    have "comparator (\<lambda>a b. str_cmp (the (as_str a)) (the (as_str b))) (\<lambda>v. value_rank v = 4)"
      by (rule comparator_weaken [OF comparator_on_key [OF str_order.comparator_axioms]]) simp
    then show ?thesis unfolding 4 by (rule comparator_cong) (auto dest!: v)
  next
    case 5
    have "value_rank v \<noteq> k" for v using 5 by (cases v) auto
    then show ?thesis by unfold_locales auto
  qed
qed

lemma comparator_below: "comparator value_cmp (below n)"
proof (induction n)
  case 0
  show ?case by unfold_locales (simp_all add: below_def)
next
  case (Suc n)
  show ?case
  proof (rule comparator_same_rank [where r = value_rank])
    fix a b
    assume "value_rank a \<noteq> value_rank b"
    then show "value_cmp a b = lin_cmp (value_rank a) (value_rank b)" by (rule value_cmp_rank)
  next
    fix k
    have num: "comparator value_cmp (\<lambda>v. below (Suc n) v \<and> value_rank v = 2)"
      by (rule comparator_weaken [OF comparator_numbers]) simp
    have simple: "comparator value_cmp (\<lambda>v. below (Suc n) v \<and> value_rank v = k)"
      if "k \<notin> {2, 5, 6}"
      by (rule comparator_weaken [OF comparator_scalars [OF that]]) simp
    show "comparator value_cmp (\<lambda>v. below (Suc n) v \<and> value_rank v = k)"
      using num comparator_maps [OF Suc] comparator_arrays [OF Suc] simple by (cases "k \<in> {2, 5, 6}") auto
  qed
qed

interpretation value_order: comparator value_cmp "\<lambda>_. True"
proof unfold_locales
  fix a b c :: Value
  let ?n = "Suc (size a + size b + size c)"
  have s: "below ?n a" "below ?n b" "below ?n c" by (simp_all add: below_def)
  show "value_cmp a a = Equal" by (rule comparator.cmp_refl [OF comparator_below s(1)])
  show "value_cmp b a = ord_reverse (value_cmp a b)"
    by (rule comparator.cmp_sym [OF comparator_below s(1,2)])
  show "value_cmp a b \<noteq> Greater \<Longrightarrow> value_cmp b c \<noteq> Greater \<Longrightarrow> value_cmp a c \<noteq> Greater"
    by (rule comparator.cmp_le_trans [OF comparator_below s])
qed

subsection \<open>Equality, and the hash that must agree with it\<close>

lemma value_eq_refl [simp]: "value_eq v v"
  by (simp add: value_eq_def value_order.cmp_refl)

lemma value_eq_sym: "value_eq a b \<Longrightarrow> value_eq b a"
  unfolding value_eq_def using value_order.cmp_eq_sym [of a b] by simp

lemma value_eq_trans: "value_eq a b \<Longrightarrow> value_eq b c \<Longrightarrow> value_eq a c"
  unfolding value_eq_def using value_order.cmp_eq_trans [of a b c] by simp

lemma value_eq_cong: "value_eq a b \<Longrightarrow> value_cmp a c = value_cmp b c"
  unfolding value_eq_def using value_order.cmp_eq_left [of a b c] by simp

lemma value_eq_simps [simp]:
  "value_eq VNull v \<longleftrightarrow> v = VNull" "value_eq v VNull \<longleftrightarrow> v = VNull"
  "value_eq (VBool b) v \<longleftrightarrow> v = VBool b" "value_eq v (VBool b) \<longleftrightarrow> v = VBool b"
  "value_eq (VInt n) v \<longleftrightarrow> v = VInt n" "value_eq v (VInt n) \<longleftrightarrow> v = VInt n"
  "value_eq (VFloat x) v \<longleftrightarrow> v = VFloat x" "value_eq v (VFloat x) \<longleftrightarrow> v = VFloat x"
  "value_eq (VUuid u) v \<longleftrightarrow> v = VUuid u" "value_eq v (VUuid u) \<longleftrightarrow> v = VUuid u"
  "value_eq (VString s) v \<longleftrightarrow> v = VString s" "value_eq v (VString s) \<longleftrightarrow> v = VString s"
  unfolding value_eq_def by (cases v; auto)+

lemma list_cmp_Equal_iff: "list_cmp c xs ys = Equal \<longleftrightarrow> list_all2 (\<lambda>x y. c x y = Equal) xs ys"
proof (induction xs arbitrary: ys)
  case Nil
  then show ?case by (cases ys) auto
next
  case (Cons x xs)
  then show ?case by (cases ys) auto
qed

lemma concat_map_list_all2:
  assumes "list_all2 P xs ys"
    and "\<And>x y. x \<in> set xs \<Longrightarrow> y \<in> set ys \<Longrightarrow> P x y \<Longrightarrow> f x = f y"
  shows "concat (map f xs) = concat (map f ys)"
  using assms by (induction xs ys rule: list_all2_induct) auto

text \<open>\<open>HashMap<Value, _>\<close> needs this: values that are equal hash alike.\<close>

lemma value_hash_agrees: "value_cmp a b = Equal \<Longrightarrow> value_hash a = value_hash b"
proof (induction a b rule: value_cmp.induct)
  case (9 a b)
  then have l: "list_all2 (\<lambda>x y. value_cmp x y = Equal) a b" by (simp add: list_cmp_Equal_iff)
  have "concat (map value_hash a) = concat (map value_hash b)"
    by (rule concat_map_list_all2 [OF l]) (rule 9)
  then show ?case using list_all2_lengthD [OF l] by simp
next
  case (10 a b)
  have len: "length a = length b" using "10.prems" by (cases "length a = length b") simp_all
  then have l: "list_all2 (\<lambda>x y. entry_cmp value_cmp x y = Equal) (sort_entries a) (sort_entries b)"
    using "10.prems" by (simp add: list_cmp_Equal_iff)
  have "concat (map (\<lambda>e. HStr (fst e) # value_hash (snd e)) (sort_entries a)) =
      concat (map (\<lambda>e. HStr (fst e) # value_hash (snd e)) (sort_entries b))"
    by (rule concat_map_list_all2 [OF l]) (use len "10.IH" in \<open>auto simp: entry_cmp_def\<close>)
  then show ?case using len by simp
qed auto

text \<open>
  C24: Values can key a \<open>HashMap\<close> and be sorted: on every value, nested maps
  and arrays and mixed integers and floats included, \<open>cmp\<close> is reflexive, antisymmetric under
  reversal and transitive, and two values that are equal hash to the same sequence of
  writes.
\<close>

theorem value_hash_key:
  "value_eq a a \<and> value_cmp b a = ord_reverse (value_cmp a b) \<and>
   (value_cmp a b \<noteq> Greater \<longrightarrow> value_cmp b c \<noteq> Greater \<longrightarrow> value_cmp a c \<noteq> Greater) \<and>
   (value_eq a b \<longrightarrow> value_hash a = value_hash b)"
  using value_order.cmp_sym [of a b] value_order.cmp_le_trans [of a b c] value_hash_agrees [of a b]
  by (simp add: value_eq_def value_order.cmp_refl)

lemma value_hash_key_witness:
  "value_hash (VMap [(''a'', VInt 1), (''b'', VNull)]) = value_hash (VMap [(''b'', VNull), (''a'', VInt 1)])"
proof -
  have "value_eq (VMap [(''a'', VInt 1), (''b'', VNull)]) (VMap [(''b'', VNull), (''a'', VInt 1)])"
    by code_simp
  then show ?thesis
    using value_hash_key [of "VMap [(''a'', VInt 1), (''b'', VNull)]"
        "VMap [(''b'', VNull), (''a'', VInt 1)]"] by blast
qed

end
