(* ===== verification/AshErrors.thy ===== *)
theory AshErrors
  imports AshValue
begin

text \<open>
  \<open>crates/ash-core/src/error.rs\<close>: the errors of every fallible operation, how several become
  one and one becomes several, and the text a person reads. A result of the code is
  \<open>error + 'a\<close>. \<open>EPanic\<close> is not in the enum: it is what the model answers where the code
  panics, with the panic's message.
\<close>

datatype error =
    EForbidden
  | ENotFound
  | ETooMany nat
  | EUnknownAction string string
  | EWrongActionKind string string string
  | ENotAccepted string string
  | EMissing string
  | ETypeMismatch string string string
  | EConstraint string string
  | EValidation string string "(string \<times> Value) list"
  | ENoPrimaryKey string
  | ENoPrimaryRead string
  | EManualRequired string
  | ENotManual string
  | EDataLayer string
  | EInvalid string
  | EExtension string
  | EStaleRecord string Value
  | EMustBeAtomic string string string
  | EIdentityConflict string "string list" string
  | EMulti string error
  | EDeleteRestricted string string nat
  | ETenantRequired string
  | EAuthentication string
  | EMultiple "error list"
  | EPanic string

type_synonym 'a res = "error + 'a"

section \<open>Messages\<close>

definition interpolate :: "external \<Rightarrow> string \<Rightarrow> (string \<times> Value) list \<Rightarrow> string" where
  "interpolate x template vars =
     fold (\<lambda>(name, v) out. str_replace (''%{'' @ name @ ''}'') (value_display x v) out) vars template"

fun error_display :: "external \<Rightarrow> error \<Rightarrow> string" where
  "error_display x EForbidden = ''forbidden''"
| "error_display x ENotFound = ''not found''"
| "error_display x (ETooMany n) = ''expected one record, found '' @ show_nat n"
| "error_display x (EUnknownAction resource name) =
     ''unknown action `'' @ name @ ''` on '' @ resource"
| "error_display x (EWrongActionKind action expected actual) =
     ''action `'' @ action @ ''` is '' @ actual @ '', expected '' @ expected"
| "error_display x (ENotAccepted field action) =
     ''field `'' @ field @ ''` is not accepted by action `'' @ action @ ''`''"
| "error_display x (EMissing field) = ''missing required attribute `'' @ field @ ''`''"
| "error_display x (ETypeMismatch field expected got) =
     ''attribute `'' @ field @ ''` expected '' @ expected @ '', got '' @ got"
| "error_display x (EConstraint field message) = ''attribute `'' @ field @ ''` '' @ message"
| "error_display x (EValidation field message vars) =
     ''validation failed on `'' @ field @ ''`: '' @ interpolate x message vars"
| "error_display x (ENoPrimaryKey resource) = ''resource '' @ resource @ '' has no primary key''"
| "error_display x (ENoPrimaryRead resource) =
     ''resource '' @ resource @ '' has no primary read action''"
| "error_display x (EManualRequired action) =
     ''action `'' @ action @ ''` is manual; use manual_create''"
| "error_display x (ENotManual action) =
     ''action `'' @ action @ ''` persists through the data layer''"
| "error_display x (EDataLayer message) = message"
| "error_display x (EInvalid message) = message"
| "error_display x (EExtension message) = message"
| "error_display x (EMustBeAtomic resource action reason) =
     resource @ ''.'' @ action @ '' must be performed atomically, but it could not be: '' @ reason @
     ''; set `require_atomic` to false on the action to read the record first instead''"
| "error_display x (EStaleRecord resource rid) =
     ''stale record on '' @ resource @ '' `'' @ value_display x rid @
     ''`: record was modified concurrently''"
| "error_display x (EIdentityConflict identity columns message) =
     ''identity conflict on `'' @ identity @ ''` ('' @ x_debug x columns @ ''): '' @ message"
| "error_display x (EMulti step source) =
     ''multi step `'' @ step @ ''` failed: '' @ error_display x source"
| "error_display x (EDeleteRestricted resource relationship n) =
     ''cannot delete '' @ resource @ '' because relationship `'' @ relationship @ ''` has '' @
     show_nat n @ '' dependent record(s) and specifies on_delete: restrict''"
| "error_display x (ETenantRequired resource) =
     ''tenant is required for resource `'' @ resource @ ''`''"
| "error_display x (EAuthentication msg) = ''authentication error: '' @ msg"
| "error_display x (EMultiple errors) = join_str ''; '' (map (error_display x) errors)"
| "error_display x (EPanic msg) = msg"

fun message :: "external \<Rightarrow> error \<Rightarrow> string" where
  "message x (EValidation field m vars) = interpolate x m vars"
| "message x (EConstraint field m) = m"
| "message x e = error_display x e"

section \<open>Several errors as one\<close>

text \<open>\<open>Error::collect\<close>.\<close>

definition collect_errors :: "error list \<Rightarrow> unit res" where
  "collect_errors errors =
     (case errors of [] \<Rightarrow> Inr () | [e] \<Rightarrow> Inl e | _ \<Rightarrow> Inl (EMultiple errors))"

fun into_each :: "error \<Rightarrow> error list" where
  "into_each (EMultiple errors) = concat (map into_each errors)"
| "into_each e = [e]"

fun multi_step :: "error \<Rightarrow> string option" where
  "multi_step (EMulti step source) = Some step"
| "multi_step _ = None"

fun multi_source :: "error \<Rightarrow> error option" where
  "multi_source (EMulti step source) = Some source"
| "multi_source _ = None"

fun is_multiple :: "error \<Rightarrow> bool" where
  "is_multiple (EMultiple errors) = True"
| "is_multiple _ = False"

lemma collect_errors_eq_Inr [simp]: "collect_errors es = Inr u \<longleftrightarrow> es = []"
  by (auto simp: collect_errors_def split: list.splits)

lemma collect_errors_Nil [simp]: "collect_errors [] = Inr ()"
  by (simp add: collect_errors_def)

lemma collect_errors_each: "collect_errors es = Inl e \<Longrightarrow> into_each e = concat (map into_each es)"
  by (auto simp: collect_errors_def split: list.splits)

lemma into_each_flat: "e' \<in> set (into_each e) \<Longrightarrow> \<not> is_multiple e'"
  by (induction e rule: into_each.induct) auto

lemma into_each_single: "\<not> is_multiple e \<Longrightarrow> into_each e = [e]"
  by (cases e) auto

text \<open>Flattening is a projection: doing it again to each part changes nothing.\<close>

lemma into_each_idem: "concat (map into_each (into_each e)) = into_each e"
proof -
  have "concat (map into_each es) = es" if "\<forall>e \<in> set es. \<not> is_multiple e" for es
    using that by (induction es) (auto simp: into_each_single)
  then show ?thesis using into_each_flat by blast
qed

lemma interpolate_no_vars [simp]: "interpolate x t [] = t"
  by (simp add: interpolate_def)

end
