(* ===== verification/AshSchema.thy ===== *)
theory AshSchema
  imports AshErrors
begin

text \<open>
  The data a resource is declared with, as \<open>resource.rs\<close>, \<open>action.rs\<close>, \<open>expr.rs\<close>,
  \<open>filter.rs\<close>, \<open>policy.rs\<close>, \<open>aggregate.rs\<close>, \<open>actor.rs\<close>, \<open>atomic.rs\<close> and
  \<open>data_layer.rs\<close> of \<open>crates/ash-core/src\<close> define it: attribute types, filters,
  expressions, policies, actions, relationships and the resource that holds them.

  A function pointer or a trait object of the code is a HOL function. A pointer to another
  resource (a relationship's destination, an embedded type) is that resource's name, looked
  up in a registry, the list of the program's resources; \<open>dyn\<close> extensions, notifiers and the
  store's type id, which none of the modelled code calls, are left out.
\<close>

section \<open>Attributes\<close>

datatype attr_type =
    TUuid | TString | TInteger | TBoolean
  | TAtom "string list" "string option"
  | TMap
  | TArray attr_type
  | TUtcDatetime time_precision
  | TDecimal | TFloat | TDate | TBinary | TCiString | TInet
  | TVector nat
  | TEmbedded string
  | TTypedMap string "(string \<times> attr_type \<times> bool) list"
  | TUnion string "(string \<times> attr_type) list"

fun attr_type_name :: "attr_type \<Rightarrow> string" where
  "attr_type_name TUuid = ''uuid''"
| "attr_type_name TString = ''string''"
| "attr_type_name TInteger = ''integer''"
| "attr_type_name TBoolean = ''boolean''"
| "attr_type_name (TAtom _ _) = ''atom''"
| "attr_type_name TMap = ''map''"
| "attr_type_name (TArray _) = ''array''"
| "attr_type_name (TUtcDatetime Second) = ''utc_datetime''"
| "attr_type_name (TUtcDatetime Microsecond) = ''utc_datetime_usec''"
| "attr_type_name TDecimal = ''decimal''"
| "attr_type_name TFloat = ''float''"
| "attr_type_name TDate = ''date''"
| "attr_type_name TBinary = ''binary''"
| "attr_type_name TCiString = ''ci_string''"
| "attr_type_name TInet = ''inet''"
| "attr_type_name (TVector _) = ''vector''"
| "attr_type_name (TEmbedded _) = ''map''"
| "attr_type_name (TTypedMap _ _) = ''map''"
| "attr_type_name (TUnion _ _) = ''union''"

fun is_map_like :: "attr_type \<Rightarrow> bool" where
  "is_map_like TMap = True"
| "is_map_like (TEmbedded _) = True"
| "is_map_like (TTypedMap _ _) = True"
| "is_map_like (TUnion _ _) = True"
| "is_map_like _ = False"

record attribute_def =
  a_name :: string
  a_ty :: attr_type
  a_primary_key :: bool
  a_allow_nil :: bool
  a_generated :: bool
  a_default_fn :: "(unit \<Rightarrow> Value) option"

datatype const_value = CNull | CBool bool | CInt i64 | CStr string

section \<open>Filters, sorts and expressions\<close>

datatype Filter =
    FTrue | FFalse
  | FEq string Value | FNe string Value
  | FGt string Value | FGte string Value | FLt string Value | FLte string Value
  | FIn string "Value list"
  | FIsNil string
  | FContains string string | FStartsWith string string | FEndsWith string string
  | FLike string string | FILike string string
  | FHas string Value
  | FAnd "Filter list" | FOr "Filter list"
  | FNot Filter
  | FRelated string Filter

record sort_def =
  s_field :: string
  s_descending :: bool
  s_guard :: "Filter option"
  s_nulls_first :: "bool option"

datatype expr =
    XField string | XLitInt i64 | XLitString string | XLitBool bool | XNull
  | XStringLength string
  | XLength expr | XLower expr | XUpper expr
  | XConcat "expr list" | XCoalesce "expr list"
  | XAdd expr expr | XSub expr expr | XMul expr expr | XDiv expr expr
  | XEq expr expr | XNe expr expr | XGt expr expr | XGte expr expr | XLt expr expr | XLte expr expr
  | XIfElse expr expr expr
  | XArg string
  | XCustom "fields \<Rightarrow> Value res"

record argument_def =
  arg_name :: string
  arg_ty :: attr_type
  arg_allow_nil :: bool
  arg_default :: "(unit \<Rightarrow> Value) option"

record calculation_def =
  c_name :: string
  c_ty :: attr_type
  c_expr :: expr
  c_arguments :: "argument_def list"

datatype aggregate_kind = AggCount | AggExists | AggFirst string | AggSum string

datatype aggregate_filter = AggEq string const_value | AggNe string const_value

record aggregate_def =
  ag_name :: string
  ag_relationship :: string
  ag_kind :: aggregate_kind
  ag_filter :: "aggregate_filter option"
  ag_ty :: attr_type

section \<open>Actors and policies\<close>

record actor =
  actor_id :: uuid
  actor_attributes :: fields

datatype check =
    CkAlways | CkActorPresent
  | CkRelatesToActor string
  | CkActorAttributeEquals string const_value
  | CkIsNil string
  | CkEq string const_value
  | CkAnd "check list" | CkOr "check list"

datatype policy_effect =
    AuthorizeIf check | AuthorizeUnless check | ForbidIf check | ForbidUnless check

datatype action_kind = Create | Read | Update | Destroy | Generic

datatype policy_when = WhenAlways | WhenActionType action_kind | WhenActionName string

record policy_def =
  p_bypass :: bool
  p_when :: policy_when
  p_checks :: "policy_effect list"

record field_policy_def =
  fp_field :: string
  fp_checks :: "policy_effect list"

section \<open>Actions\<close>

datatype persist_kind = PersistDataLayer | PersistManual

datatype countable_def = CountNo | CountYes | CountByDefault

record pagination_def =
  pg_keyset :: bool
  pg_offset :: bool
  pg_countable :: countable_def
  pg_default_limit :: "nat option"
  pg_max_page_size :: "nat option"
  pg_required :: bool

datatype preparation_def =
    PrepFilter "unit \<Rightarrow> Filter"
  | PrepFilterWithArgs "fields \<Rightarrow> Filter"
  | PrepSort string bool
  | PrepLimit nat
  | PrepOffset nat
  | PrepAfterAction "fields \<Rightarrow> fields list \<Rightarrow> fields list res"

datatype managed_rel_type = ManagedCreate | ManagedDirectControl | ManagedAppend

text \<open>
  What a custom change works on: the attributes, and the hooks it registers. A hook that runs
  after the transaction is given the action's result and answers nothing; what it did is a
  list of events, so that running it is observable.
\<close>

type_synonym field_hook = "fields \<Rightarrow> fields res"
type_synonym transaction_hook = "fields res \<Rightarrow> string list"

record change_context =
  cx_fields :: fields
  cx_before_actions :: "field_hook list"
  cx_after_actions :: "field_hook list"
  cx_after_transactions :: "transaction_hook list"

record action_context =
  ac_actor :: "actor option"
  ac_tenant :: "string option"
  ac_metadata :: fields
  ac_arguments :: fields

datatype change =
    SetAttribute string const_value
  | SetNewAttribute string const_value
  | RelateActor string
  | SetFromArgument string string
  | SetAttributeFn string "unit \<Rightarrow> Value"
  | SetNewAttributeFn string "unit \<Rightarrow> Value"
  | ManageRelationship string managed_rel_type
  | AtomicUpdateChange string expr
  | OptimisticLock string
  | BeforeAction field_hook
  | AfterAction field_hook
  | AfterTransaction transaction_hook
  | CustomChange "action_context \<Rightarrow> change_context \<Rightarrow> change_context res"
  | FuncChange "action_context \<Rightarrow> change_context \<Rightarrow> change_context res"

record validation_context =
  vx_record :: "fields option"
  vx_fields :: fields
  vx_action :: action_context

datatype validation =
    Present string
  | StringLength string "nat option" "nat option"
  | OneOf string "string list"
  | Numericality string "i64 option" "i64 option"
  | CustomValidation "validation_context \<Rightarrow> unit res"
  | FuncValidation "validation_context \<Rightarrow> unit res"

record metadata_def =
  md_name :: string
  md_ty :: attr_type
  md_allow_nil :: bool

record action_def =
  act_name :: string
  act_kind :: action_kind
  act_accept :: "string list"
  act_arguments :: "argument_def list"
  act_primary :: bool
  act_changes :: "change list"
  act_validations :: "validation list"
  act_preparations :: "preparation_def list"
  act_persist :: persist_kind
  act_soft :: bool
  act_cascade_destroy :: "string list"
  act_require_atomic :: bool
  act_atomic_upgrade_with :: "string option"
  act_pagination :: "pagination_def option"
  act_returns :: "attr_type option"
  act_transaction :: bool
  act_metadata :: "metadata_def list"

section \<open>Resources\<close>

datatype on_delete = OnDeleteNothing | OnDeleteCascade | OnDeleteNilify | OnDeleteRestrict

datatype on_update = OnUpdateNothing | OnUpdateCascade | OnUpdateNilify | OnUpdateRestrict

datatype rel_kind = BelongsTo | HasMany | HasOne | ManyToMany

record relationship_def =
  rel_name :: string
  rel_kind_of :: rel_kind
  rel_destination :: string
  rel_source_attribute :: string
  rel_destination_attribute :: string
  rel_source_attributes :: "string list"
  rel_destination_attributes :: "string list"
  rel_through :: "string option"
  rel_source_attribute_on_join :: "string option"
  rel_destination_attribute_on_join :: "string option"
  rel_on_delete :: on_delete
  rel_on_update :: on_update

record identity_def =
  i_name :: string
  i_keys :: "string list"
  i_message :: "string option"
  i_predicate :: "string option"
  i_nils_distinct :: bool
  i_all_tenants :: bool

record index_def =
  ix_name :: string
  ix_keys :: "string list"
  ix_predicate :: "string option"
  ix_method :: "string option"
  ix_include :: "string list"
  ix_all_tenants :: bool

record check_def =
  ck_name :: string
  ck_expression :: string

record statement_def =
  st_name :: string
  st_dialects :: "string list"
  st_up :: string
  st_down :: string

datatype multitenancy_strategy = AttributeTenancy string | ContextTenancy

record multitenancy_def =
  mt_strategy :: multitenancy_strategy
  mt_global :: bool

datatype data_layer_kind = DlMemory | DlSqlite | DlPostgres | DlEmbedded | DlCustom string

record resource_def =
  r_name :: string
  r_table :: string
  r_attributes :: "attribute_def list"
  r_relationships :: "relationship_def list"
  r_actions :: "action_def list"
  r_policies :: "policy_def list"
  r_field_policies :: "field_policy_def list"
  r_calculations :: "calculation_def list"
  r_aggregates :: "aggregate_def list"
  r_identities :: "identity_def list"
  r_indexes :: "index_def list"
  r_checks :: "check_def list"
  r_statements :: "statement_def list"
  r_embedded :: bool
  r_data_layer :: data_layer_kind
  r_timestamps :: "(string \<times> string) option"
  r_store_name :: string
  r_multitenancy :: "multitenancy_def option"

type_synonym registry = "resource_def list"

text \<open>The resource a pointer names.\<close>

definition resource_named :: "registry \<Rightarrow> string \<Rightarrow> resource_def option" where
  "resource_named reg name = List.find (\<lambda>r. r_name r = name) reg"

definition destination :: "registry \<Rightarrow> relationship_def \<Rightarrow> resource_def option" where
  "destination reg rel = resource_named reg (rel_destination rel)"

section \<open>Lookups\<close>

definition attribute :: "resource_def \<Rightarrow> string \<Rightarrow> attribute_def option" where
  "attribute r name = List.find (\<lambda>a. a_name a = name) (r_attributes r)"

definition action_of :: "resource_def \<Rightarrow> string \<Rightarrow> action_def option" where
  "action_of r name = List.find (\<lambda>a. act_name a = name) (r_actions r)"

definition calculation :: "resource_def \<Rightarrow> string \<Rightarrow> calculation_def option" where
  "calculation r name = List.find (\<lambda>c. c_name c = name) (r_calculations r)"

definition aggregate_of :: "resource_def \<Rightarrow> string \<Rightarrow> aggregate_def option" where
  "aggregate_of r name = List.find (\<lambda>a. ag_name a = name) (r_aggregates r)"

definition relationship :: "resource_def \<Rightarrow> string \<Rightarrow> relationship_def option" where
  "relationship r name = List.find (\<lambda>x. rel_name x = name) (r_relationships r)"

definition identity_of :: "resource_def \<Rightarrow> string \<Rightarrow> identity_def option" where
  "identity_of r name = List.find (\<lambda>i. i_name i = name) (r_identities r)"

definition primary_key :: "resource_def \<Rightarrow> attribute_def option" where
  "primary_key r = List.find a_primary_key (r_attributes r)"

lemma attribute_Some: "attribute r name = Some a \<Longrightarrow> a \<in> set (r_attributes r) \<and> a_name a = name"
  unfolding attribute_def by (drule find_SomeD) simp

lemma primary_key_Some: "primary_key r = Some a \<Longrightarrow> a \<in> set (r_attributes r) \<and> a_primary_key a"
  unfolding primary_key_def by (drule find_SomeD) simp

lemma relationship_Some:
  "relationship r name = Some x \<Longrightarrow> x \<in> set (r_relationships r) \<and> rel_name x = name"
  unfolding relationship_def by (drule find_SomeD) simp

text \<open>A resource with no declaration but its name, which the examples extend.\<close>

definition sample_resource :: resource_def where
  "sample_resource =
     \<lparr>r_name = ''Post'', r_table = ''posts'', r_attributes = [], r_relationships = [], r_actions = [],
      r_policies = [], r_field_policies = [], r_calculations = [], r_aggregates = [],
      r_identities = [], r_indexes = [], r_checks = [], r_statements = [], r_embedded = False,
      r_data_layer = DlMemory, r_timestamps = None, r_store_name = ''Default'', r_multitenancy = None\<rparr>"

end
