(* ===== verification/AshFields.thy ===== *)
theory AshFields
  imports AshSchema
begin

text \<open>
  The rest of \<open>crates/ash-core/src/value.rs\<close>: conversions into values, the readers of a
  record's typed fields, a record's metadata and a union's member; and \<open>actor.rs\<close>.
\<close>

section \<open>Conversions\<close>

text \<open>
  \<open>impl_from_int\<close>: \<open>value as i64\<close>, which wraps for a type wider than 64 signed bits
  (\<open>u64\<close>, \<open>usize\<close>, \<open>i128\<close>, \<open>u128\<close>).
\<close>

definition value_from_int :: "int \<Rightarrow> Value" where
  "value_from_int n = VInt (word_of_int n)"

fun value_from_option :: "('a \<Rightarrow> Value) \<Rightarrow> 'a option \<Rightarrow> Value" where
  "value_from_option f (Some v) = f v"
| "value_from_option f None = VNull"

fun value_from_const :: "const_value \<Rightarrow> Value" where
  "value_from_const CNull = VNull"
| "value_from_const (CBool v) = VBool v"
| "value_from_const (CInt v) = VInt v"
| "value_from_const (CStr v) = VString v"

section \<open>Reading a record's fields\<close>

definition required_pk :: "fields \<Rightarrow> string \<Rightarrow> Value res" where
  "required_pk fs key =
     (case fm_get fs key of
        None \<Rightarrow> Inl (EMissing key)
      | Some VNull \<Rightarrow> Inl (EMissing key)
      | Some v \<Rightarrow> Inr v)"

fun pk_cast :: "external \<Rightarrow> attr_type \<Rightarrow> Value \<Rightarrow> Value option" where
  "pk_cast x _ VNull = None"
| "pk_cast x TUuid (VString text) = map_option VUuid (x_uuid_parse x text)"
| "pk_cast x TInteger (VString text) =
     map_option (\<lambda>n. VInt (word_of_int n)) (parse_int i64_min i64_max text)"
| "pk_cast x TUuid (VUuid u) = Some (VUuid u)"
| "pk_cast x TInteger (VInt n) = Some (VInt n)"
| "pk_cast x TUuid _ = None"
| "pk_cast x TInteger _ = None"
| "pk_cast x _ v = Some v"

definition required_uuid :: "fields \<Rightarrow> string \<Rightarrow> uuid res" where
  "required_uuid fs key =
     (case fm_get fs key of
        Some (VUuid u) \<Rightarrow> Inr u
      | Some v \<Rightarrow> Inl (ETypeMismatch key ''uuid'' (type_name v))
      | None \<Rightarrow> Inl (EMissing key))"

definition required_string :: "fields \<Rightarrow> string \<Rightarrow> string res" where
  "required_string fs key =
     (case fm_get fs key of
        Some (VString s) \<Rightarrow> Inr s
      | Some v \<Rightarrow> Inl (ETypeMismatch key ''string'' (type_name v))
      | None \<Rightarrow> Inl (EMissing key))"

definition optional_int :: "fields \<Rightarrow> string \<Rightarrow> i64 option res" where
  "optional_int fs key =
     (case fm_get fs key of
        None \<Rightarrow> Inr None
      | Some VNull \<Rightarrow> Inr None
      | Some (VInt n) \<Rightarrow> Inr (Some n)
      | Some v \<Rightarrow> Inl (ETypeMismatch key ''integer'' (type_name v)))"

definition optional_uuid :: "fields \<Rightarrow> string \<Rightarrow> uuid option res" where
  "optional_uuid fs key =
     (case fm_get fs key of
        None \<Rightarrow> Inr None
      | Some VNull \<Rightarrow> Inr None
      | Some (VUuid u) \<Rightarrow> Inr (Some u)
      | Some v \<Rightarrow> Inl (ETypeMismatch key ''uuid'' (type_name v)))"

definition metadata_key :: "string \<Rightarrow> string" where
  "metadata_key name = ''__metadata__:'' @ name"

definition put_metadata :: "fields \<Rightarrow> string \<Rightarrow> Value \<Rightarrow> fields" where
  "put_metadata record name v = fm_insert (metadata_key name) v record"

definition get_metadata :: "fields \<Rightarrow> string \<Rightarrow> Value option" where
  "get_metadata record name = fm_get record (metadata_key name)"

definition union_value :: "string \<Rightarrow> Value \<Rightarrow> Value" where
  "union_value name v = VMap (fm_insert ''value'' v (fm_insert ''type'' (VString name) []))"

definition union_member :: "Value \<Rightarrow> (string \<times> Value) option" where
  "union_member v =
     (case v of
        VMap held \<Rightarrow>
          (case (fm_get held ''type'', fm_get held ''value'') of
             (Some (VString name), Some inner) \<Rightarrow> Some (name, inner)
           | _ \<Rightarrow> None)
      | _ \<Rightarrow> None)"

lemma union_member_value: "union_member (union_value name v) = Some (name, v)"
  by (simp add: union_member_def union_value_def)

lemma get_put_metadata [simp]:
  "get_metadata (put_metadata r name v) name' = (if name' = name then Some v else get_metadata r name')"
  by (simp add: get_metadata_def put_metadata_def metadata_key_def)

lemma put_metadata_field:
  "\<not> str_starts_with f ''__metadata__:'' \<Longrightarrow> fm_get (put_metadata r name v) f = fm_get r f"
  by (auto simp: put_metadata_def metadata_key_def str_starts_with_iff)

lemma required_pk_Inr: "required_pk fs key = Inr v \<longleftrightarrow> fm_get fs key = Some v \<and> v \<noteq> VNull"
  by (auto simp: required_pk_def split: option.splits Value.splits)

section \<open>Actors\<close>

definition new_actor :: "uuid \<Rightarrow> actor" where
  "new_actor i = \<lparr>actor_id = i, actor_attributes = []\<rparr>"

definition actor_with :: "actor \<Rightarrow> string \<Rightarrow> Value \<Rightarrow> actor" where
  "actor_with a key v = a\<lparr>actor_attributes := fm_insert key v (actor_attributes a)\<rparr>"

definition actor_with_role :: "actor \<Rightarrow> string \<Rightarrow> actor" where
  "actor_with_role a role = actor_with a ''role'' (VString role)"

definition actor_attr :: "actor \<Rightarrow> string \<Rightarrow> Value option" where
  "actor_attr a key = fm_get (actor_attributes a) key"

definition actor_role :: "actor \<Rightarrow> string option" where
  "actor_role a = (case fm_get (actor_attributes a) ''role'' of Some (VString s) \<Rightarrow> Some s | _ \<Rightarrow> None)"

definition attr_eq :: "actor \<Rightarrow> string \<Rightarrow> const_value \<Rightarrow> bool" where
  "attr_eq a key expected =
     (case (fm_get (actor_attributes a) key, expected) of
        (Some (VString v), CStr e) \<Rightarrow> v = e
      | (Some (VBool v), CBool e) \<Rightarrow> v = e
      | (Some (VInt v), CInt e) \<Rightarrow> v = e
      | (Some VNull, CNull) \<Rightarrow> True
      | _ \<Rightarrow> False)"

lemma attr_eq_iff: "attr_eq a key e \<longleftrightarrow> actor_attr a key = Some (value_from_const e)"
  by (cases e) (auto simp: attr_eq_def actor_attr_def split: option.splits Value.splits)

lemma actor_attr_with [simp]:
  "actor_attr (actor_with a k v) k' = (if k' = k then Some v else actor_attr a k')"
  by (simp add: actor_attr_def actor_with_def)

lemma actor_role_with_role [simp]: "actor_role (actor_with_role a r) = Some r"
  by (simp add: actor_role_def actor_with_role_def actor_with_def)

end
