(* ===== verification/AshTypes.thy ===== *)
theory AshTypes
  imports AshFields
begin

text \<open>
  \<open>crates/ash-core/src/types.rs\<close>: what each attribute type accepts, the canonical text of the
  types with several spellings, and the comparison of stored values by their column's type.
\<close>

section \<open>Decimals\<close>

text \<open>\<open>is_decimal\<close>: a sign, digits, and perhaps a point with digits after it.\<close>

definition is_decimal :: "string \<Rightarrow> bool" where
  "is_decimal raw =
     (let rest = (case raw of
          c # cs \<Rightarrow> if c = CHR ''+'' \<or> c = CHR ''-'' then cs else raw
        | [] \<Rightarrow> raw)
      in if rest = [] then False
         else (case split_ch (CHR ''.'') rest of
                 [whole] \<Rightarrow> list_all is_digit whole \<and> whole \<noteq> []
               | [whole, fraction] \<Rightarrow>
                   list_all is_digit whole \<and> fraction \<noteq> [] \<and> list_all is_digit fraction
               | _ \<Rightarrow> False))"

definition decimal_parse :: "string \<Rightarrow> string res" where
  "decimal_parse raw =
     (if is_decimal raw then Inr raw
      else Inl (EInvalid (''invalid decimal `'' @ raw @ ''`: expected a base-10 number'')))"

text \<open>The sign, whole digits and fraction digits of a decimal, without idle zeros.\<close>

definition trim_signs :: "string \<Rightarrow> string" where
  "trim_signs s = dropWhile (\<lambda>c. c = CHR ''+'' \<or> c = CHR ''-'') s"

definition trim_end_zeros :: "string \<Rightarrow> string" where
  "trim_end_zeros s = rev (dropWhile (\<lambda>c. c = CHR ''0'') (rev s))"

definition decimal_split :: "string \<Rightarrow> (bool \<times> string \<times> string) option" where
  "decimal_split raw =
     (if \<not> is_decimal raw then None
      else let negative = str_starts_with raw ''-'';
               rest = trim_signs raw;
               (whole, fraction) = (case split_once_ch (CHR ''.'') rest of
                                      Some p \<Rightarrow> p | None \<Rightarrow> (rest, []));
               whole = dropWhile (\<lambda>c. c = CHR ''0'') whole;
               fraction = trim_end_zeros fraction;
               zero = (whole = [] \<and> fraction = [])
           in Some (negative \<and> \<not> zero, whole, fraction))"

definition compare_decimal :: "string \<Rightarrow> string \<Rightarrow> ordering option" where
  "compare_decimal a b =
     (case (decimal_split a, decimal_split b) of
        (Some (a_negative, a_whole, a_fraction), Some (b_negative, b_whole, b_fraction)) \<Rightarrow>
          let magnitude =
            ord_then (ord_then (lin_cmp (length a_whole) (length b_whole)) (str_cmp a_whole b_whole))
              (str_cmp a_fraction b_fraction)
          in Some (case (a_negative, b_negative) of
                     (False, True) \<Rightarrow> Greater
                   | (True, False) \<Rightarrow> Less
                   | (False, False) \<Rightarrow> magnitude
                   | (True, True) \<Rightarrow> ord_reverse magnitude)
      | _ \<Rightarrow> None)"

section \<open>Dates and times\<close>

definition is_leap_year :: "int \<Rightarrow> bool" where
  "is_leap_year year \<longleftrightarrow> year mod 4 = 0 \<and> (year mod 100 \<noteq> 0 \<or> year mod 400 = 0)"

definition is_calendar_date :: "string \<Rightarrow> bool" where
  "is_calendar_date raw =
     (if length raw \<noteq> 10 \<or> raw ! 4 \<noteq> CHR ''-'' \<or> raw ! 7 \<noteq> CHR ''-'' then False
      else if \<not> list_all (\<lambda>(i, b). i = 4 \<or> i = 7 \<or> is_digit b) (enumerate 0 raw) then False
      else (case parse_int (- (2 ^ 31)) (2 ^ 31 - 1) (take 4 raw) of
              None \<Rightarrow> False
            | Some year \<Rightarrow>
                if year < 1 then False
                else (case parse_int 0 255 (take 2 (drop 5 raw)) of
                        None \<Rightarrow> False
                      | Some month \<Rightarrow>
                          (case parse_int 0 255 (take 2 (drop 8 raw)) of
                             None \<Rightarrow> False
                           | Some day \<Rightarrow>
                               (let max =
                                  (if month \<in> {1, 3, 5, 7, 8, 10, 12} then Some 31
                                   else if month \<in> {4, 6, 9, 11} then Some 30
                                   else if month = 2 then
                                     (if is_leap_year year then Some 29 else Some 28)
                                   else None)
                                in (case max of None \<Rightarrow> False | Some m \<Rightarrow> 1 \<le> day \<and> day \<le> m))))))"

definition date_parse :: "string \<Rightarrow> string res" where
  "date_parse raw =
     (if is_calendar_date raw then Inr raw
      else Inl (EInvalid (''invalid date `'' @ raw @ ''`: expected YYYY-MM-DD'')))"

text \<open>\<open>TimePrecision::normalize\<close>; the timestamps are \<open>chrono\<close>'s.\<close>

definition normalize_time :: "external \<Rightarrow> time_precision \<Rightarrow> string \<Rightarrow> string res" where
  "normalize_time x precision raw =
     (case x_datetime x precision raw of
        Some s \<Rightarrow> Inr s
      | None \<Rightarrow> Inl (EInvalid (''invalid UTC datetime `'' @ raw @ ''`: expected an RFC3339 timestamp'')))"

text \<open>\<open>push_digits\<close>: the last \<open>width\<close> decimal digits of a \<open>u32\<close>.\<close>

definition push_digits :: "nat \<Rightarrow> nat \<Rightarrow> string" where
  "push_digits v width = map (\<lambda>place. digit_char (v div 10 ^ place mod 10)) (rev [0..<width])"

text \<open>The stored form of a UTC instant whose year has four digits, from its parts.\<close>

definition format_time :: "time_precision \<Rightarrow> nat \<Rightarrow> nat \<Rightarrow> nat \<Rightarrow> nat \<Rightarrow> nat \<Rightarrow> nat \<Rightarrow> nat \<Rightarrow> string" where
  "format_time precision year month day hour minute second micros =
     push_digits year 4 @
     concat (map (\<lambda>(separator, v). separator # push_digits v 2)
       [(CHR ''-'', month), (CHR ''-'', day), (CHR ''T'', hour), (CHR '':'', minute), (CHR '':'', second)]) @
     (if precision = Microsecond then CHR ''.'' # push_digits (min micros 999999) 6 else []) @ ''Z''"

section \<open>Floats, addresses, vectors and bytes\<close>

definition float_parse :: "external \<Rightarrow> string \<Rightarrow> string res" where
  "float_parse x raw =
     (case x_f64_parse x raw of
        None \<Rightarrow> Inl (EInvalid (''invalid float `'' @ raw @ ''`: expected a finite number''))
      | Some parsed \<Rightarrow>
          if \<not> f64_is_finite parsed
          then Inl (EInvalid (''invalid float `'' @ raw @ ''`: expected a finite number''))
          else Inr (x_f64_show x parsed))"

text \<open>\<open>format_inet\<close>: whether the address is an IPv4 one, its text, and the prefix.\<close>

definition format_inet :: "bool \<times> string \<Rightarrow> nat \<Rightarrow> string" where
  "format_inet addr prefix =
     (let max = (if fst addr then 32 else 128)
      in if prefix = max then snd addr else snd addr @ ''/'' @ show_nat prefix)"

definition inet_parse :: "external \<Rightarrow> string \<Rightarrow> string res" where
  "inet_parse x raw =
     (let invalid = EInvalid (''invalid inet `'' @ raw @ ''`: expected an IP address'');
          (addr, prefix) = (case split_once_ch (CHR ''/'') raw of
              Some (a, p) \<Rightarrow> (a, Some p) | None \<Rightarrow> (raw, None))
      in bindE (ok_or (x_ip_parse x addr) invalid) (\<lambda>ip.
         let max = (if fst ip then 32 else 128 :: nat)
         in bindE (case prefix of
                Some p \<Rightarrow>
                  if list_all is_digit p
                  then (case parse_int 0 255 p of Some n \<Rightarrow> Inr (nat n) | None \<Rightarrow> Inl invalid)
                  else Inl invalid
              | None \<Rightarrow> Inr max) (\<lambda>prefix.
            if max < prefix then Inl invalid else Inr (format_inet ip prefix))))"

definition f32_is_finite :: "f32 \<Rightarrow> bool" where
  "f32_is_finite v \<longleftrightarrow> uint v mod 2 ^ 31 < 255 * 2 ^ 23"

definition parse_vector :: "external \<Rightarrow> string \<Rightarrow> f32 list res" where
  "parse_vector x raw =
     (let invalid = EInvalid (''invalid vector `'' @ raw @ ''`: expected [1,2,3]'')
      in bindE (ok_or (Option.bind (strip_prefix_ch (CHR ''['') (str_trim raw))
                         (strip_suffix_ch (CHR '']''))) invalid) (\<lambda>inner.
         if str_trim inner = [] then Inr []
         else mapE (\<lambda>part. ok_or (x_f32_parse x (str_trim part)) invalid)
                (split_ch (CHR '','') inner)))"

definition check_vector :: "f32 list \<Rightarrow> nat \<Rightarrow> unit res" where
  "check_vector vs dimensions =
     (if length vs \<noteq> dimensions
      then Inl (EInvalid (''expected a vector with '' @ show_nat dimensions @ '' dimensions, got '' @
             show_nat (length vs)))
      else if list_ex (\<lambda>v. \<not> f32_is_finite v) vs
      then Inl (EInvalid ''vector values must be finite'')
      else Inr ())"

definition format_f32 :: "external \<Rightarrow> f32 \<Rightarrow> string" where
  "format_f32 x v =
     (let text = x_f32_debug x v
      in if str_ends_with text ''.0'' then take (length text - 2) text else text)"

definition format_vector :: "external \<Rightarrow> f32 list \<Rightarrow> string" where
  "format_vector x vs = ''['' @ join_str '','' (map (format_f32 x) vs) @ '']''"

text \<open>\<open>Binary\<close> holds its bytes; its text is base64.\<close>

definition binary_parse :: "external \<Rightarrow> string \<Rightarrow> string res" where
  "binary_parse x raw =
     ok_or (x_base64_decode x raw)
       (EInvalid (''invalid base64 `'' @ raw @ ''`: '' @ x_base64_error x raw))"

definition binary_to_value :: "external \<Rightarrow> string \<Rightarrow> Value" where
  "binary_to_value x bytes = VString (x_base64_encode x bytes)"

definition binary_from_value :: "external \<Rightarrow> Value \<Rightarrow> string res" where
  "binary_from_value x v =
     (case v of VString s \<Rightarrow> binary_parse x s | _ \<Rightarrow> Inl (EInvalid ''expected binary''))"

section \<open>Canonical text, and comparison by type\<close>

definition res_ok :: "'a res \<Rightarrow> 'a option" where
  "res_ok r = (case r of Inl _ \<Rightarrow> None | Inr v \<Rightarrow> Some v)"

lemma res_ok_simps [simp]: "res_ok (Inl e) = None" "res_ok (Inr v) = Some v"
  by (simp_all add: res_ok_def)

fun canonical_text :: "external \<Rightarrow> attr_type \<Rightarrow> string \<Rightarrow> string option" where
  "canonical_text x (TUtcDatetime precision) raw = res_ok (normalize_time x precision raw)"
| "canonical_text x TInet raw = res_ok (inet_parse x raw)"
| "canonical_text x (TVector _) raw = map_option (format_vector x) (res_ok (parse_vector x raw))"
| "canonical_text x TFloat raw = res_ok (float_parse x raw)"
| "canonical_text x _ raw = None"

definition canonical_or_raw :: "external \<Rightarrow> attr_type \<Rightarrow> string \<Rightarrow> string" where
  "canonical_or_raw x ty raw = (case canonical_text x ty raw of Some s \<Rightarrow> s | None \<Rightarrow> raw)"

fun compare_text :: "external \<Rightarrow> attr_type option \<Rightarrow> string \<Rightarrow> string \<Rightarrow> ordering option" where
  "compare_text x (Some TInet) s t =
     Some (str_cmp (canonical_or_raw x TInet s) (canonical_or_raw x TInet t))"
| "compare_text x (Some (TVector n)) s t =
     Some (str_cmp (canonical_or_raw x (TVector n) s) (canonical_or_raw x (TVector n) t))"
| "compare_text x (Some (TUtcDatetime p)) s t =
     Some (str_cmp (canonical_or_raw x (TUtcDatetime p) s) (canonical_or_raw x (TUtcDatetime p) t))"
| "compare_text x (Some TFloat) s t =
     (case (x_f64_parse x s, x_f64_parse x t) of
        (Some a, Some b) \<Rightarrow> f64_partial_cmp a b
      | _ \<Rightarrow> None)"
| "compare_text x (Some TDecimal) s t = compare_decimal s t"
| "compare_text x (Some TCiString) s t = Some (str_cmp (x_lower x s) (x_lower x t))"
| "compare_text x _ s t = None"

text \<open>The comparison of two stored values; where the type has none of its own, the values'.\<close>

definition compare_typed :: "external \<Rightarrow> attr_type option \<Rightarrow> Value \<Rightarrow> Value \<Rightarrow> ordering" where
  "compare_typed x ty a b =
     (case (a, b) of
        (VString s, VString t) \<Rightarrow>
          (case compare_text x ty s t of Some order \<Rightarrow> order | None \<Rightarrow> value_cmp a b)
      | _ \<Rightarrow> value_cmp a b)"

section \<open>Values in and out\<close>

text \<open>\<open>AshType\<close> for the integer types: \<open>to_value\<close> wraps, \<open>from_value\<close> checks the range.\<close>

definition int_to_value :: "int \<Rightarrow> Value" where
  "int_to_value n = VInt (word_of_int n)"

definition int_from_value :: "string \<Rightarrow> int \<Rightarrow> int \<Rightarrow> Value \<Rightarrow> int res" where
  "int_from_value ty lo hi v =
     (case v of
        VInt n \<Rightarrow>
          if lo \<le> sint n \<and> sint n \<le> hi then Inr (sint n)
          else Inl (EInvalid (''integer '' @ show_int (sint n) @ '' does not fit in '' @ ty))
      | _ \<Rightarrow> Inl (EInvalid ''expected integer''))"

definition uuid_from_value :: "external \<Rightarrow> Value \<Rightarrow> uuid res" where
  "uuid_from_value x v =
     (case v of
        VUuid u \<Rightarrow> Inr u
      | VString s \<Rightarrow> ok_or (x_uuid_parse x s) (EInvalid (x_uuid_error x s))
      | _ \<Rightarrow> Inl (EInvalid ''expected uuid''))"

definition string_from_value :: "Value \<Rightarrow> string res" where
  "string_from_value v = ok_or (as_str v) (EInvalid ''expected string'')"

definition bool_from_value :: "Value \<Rightarrow> bool res" where
  "bool_from_value v = ok_or (as_bool v) (EInvalid ''expected boolean'')"

definition float_from_value :: "external \<Rightarrow> Value \<Rightarrow> string res" where
  "float_from_value x v =
     (case v of
        VString s \<Rightarrow> float_parse x s
      | VFloat n \<Rightarrow> float_parse x (x_f64_show x n)
      | VInt n \<Rightarrow> float_parse x (show_int (sint n))
      | _ \<Rightarrow> Inl (EInvalid ''expected float''))"

definition option_to_value :: "('a \<Rightarrow> Value) \<Rightarrow> 'a option \<Rightarrow> Value" where
  "option_to_value f o' = (case o' of Some v \<Rightarrow> f v | None \<Rightarrow> VNull)"

definition option_from_value :: "(Value \<Rightarrow> 'a res) \<Rightarrow> Value \<Rightarrow> 'a option res" where
  "option_from_value f v = (if is_null v then Inr None else bindE (f v) (\<lambda>a. Inr (Some a)))"

definition list_to_value :: "('a \<Rightarrow> Value) \<Rightarrow> 'a list \<Rightarrow> Value" where
  "list_to_value f xs = VArray (map f xs)"

definition list_from_value :: "external \<Rightarrow> (Value \<Rightarrow> 'a res) \<Rightarrow> Value \<Rightarrow> 'a list res" where
  "list_from_value x f v =
     (case v of
        VArray items \<Rightarrow> mapE f items
      | other \<Rightarrow> Inl (EInvalid (''expected a list, got '' @ value_display x other)))"

definition map_from_value :: "external \<Rightarrow> Value \<Rightarrow> fields res" where
  "map_from_value x v =
     (case v of
        VMap m \<Rightarrow> Inr m
      | other \<Rightarrow> Inl (EInvalid (''expected a map, got '' @ value_display x other)))"

end
