(* ===== verification/AshTypesFacts.thy ===== *)
theory AshTypesFacts
  imports AshTypes Complex_Main
begin

text \<open>
  What the attribute types promise: decimals compare as the numbers they write, dates are
  those of the calendar, the text of an instant sorts as time does, and what is stored reads
  back.
\<close>

section \<open>Digits\<close>

lemma digits_val_Cons: "digits_val (c # s) = digit_val c * 10 ^ length s + digits_val s"
proof (induction s rule: rev_induct)
  case Nil
  then show ?case by (simp add: digits_val_def)
next
  case (snoc d s)
  have "digits_val (c # s @ [d]) = 10 * digits_val (c # s) + digit_val d"
    using digits_val_snoc [of "c # s" d] by simp
  then show ?case using snoc by simp
qed

lemma digits_val_Nil [simp]: "digits_val [] = 0"
  by (simp add: digits_val_def)

lemma digit_val_less: "is_digit c \<Longrightarrow> digit_val c < 10"
  unfolding is_digit_def digit_val_def by linarith

lemma digits_val_less: "list_all is_digit s \<Longrightarrow> digits_val s < 10 ^ length s"
proof (induction s)
  case (Cons c s)
  then have "digits_val s < 10 ^ length s" "digit_val c \<le> 9"
    using digit_val_less [of c] by auto
  moreover have "digit_val c * 10 ^ length s \<le> 9 * 10 ^ length s"
    using calculation(2) by (rule mult_le_mono1)
  ultimately show ?case unfolding digits_val_Cons length_Cons power_Suc by linarith
qed simp

lemma byte_digit_val: "is_digit c \<Longrightarrow> byte c = 48 + digit_val c"
  unfolding is_digit_def digit_val_def by linarith

lemma char_cmp_digit: "is_digit c \<Longrightarrow> is_digit d \<Longrightarrow> char_cmp c d = lin_cmp (digit_val c) (digit_val d)"
  by (simp add: char_cmp_def byte_digit_val lin_cmp_def)

lemma digit_val_inj: "is_digit c \<Longrightarrow> is_digit d \<Longrightarrow> digit_val c = digit_val d \<longleftrightarrow> c = d"
  unfolding is_digit_def digit_val_def
  by (metis byte_inj eq_diff_iff)

lemma lin_cmp_split:
  assumes "(b :: nat) < m" "d < m"
  shows "lin_cmp (a * m + b) (c * m + d) = ord_then (lin_cmp a c) (lin_cmp b d)"
proof -
  consider "a < c" | "a = c" | "c < a" by linarith
  then show ?thesis
  proof cases
    case 1
    then have "(a + 1) * m \<le> c * m" by (intro mult_le_mono1) simp
    then have "a * m + b < c * m + d" using assms by (simp add: algebra_simps)
    then show ?thesis using 1 by (simp add: lin_cmp_def)
  next
    case 2
    then show ?thesis by (simp add: lin_cmp_def)
  next
    case 3
    then have "(c + 1) * m \<le> a * m" by (intro mult_le_mono1) simp
    then have "c * m + d < a * m + b" using assms by (simp add: algebra_simps)
    then show ?thesis using 3 by (simp add: lin_cmp_def)
  qed
qed

lemma str_cmp_Cons [simp]:
  "str_cmp [] [] = Equal" "str_cmp [] (d # t) = Less" "str_cmp (c # s) [] = Greater"
  "str_cmp (c # s) (d # t) = ord_then (char_cmp c d) (str_cmp s t)"
  by (simp_all add: str_cmp_def)

text \<open>Texts of as many digits sort as their numbers.\<close>

lemma str_cmp_digits:
  "length s = length t \<Longrightarrow> list_all is_digit s \<Longrightarrow> list_all is_digit t \<Longrightarrow>
   str_cmp s t = lin_cmp (digits_val s) (digits_val t)"
proof (induction s t rule: list_induct2)
  case (Cons c s d t)
  have "digits_val s < 10 ^ length t" "digits_val t < 10 ^ length t"
    using Cons digits_val_less [of s] digits_val_less [of t] by simp_all
  then show ?case
    using Cons by (simp add: digits_val_Cons lin_cmp_split char_cmp_digit)
qed simp

lemma str_cmp_append:
  "length a = length b \<Longrightarrow> str_cmp (a @ s) (b @ t) = ord_then (str_cmp a b) (str_cmp s t)"
proof (induction a b rule: list_induct2)
  case (Cons c a d b)
  then show ?case by simp
qed simp

section \<open>Decimals\<close>

text \<open>The number a decimal writes.\<close>

definition decimal_value :: "string \<Rightarrow> rat" where
  "decimal_value raw =
     (let rest = trim_signs raw;
          (whole, fraction) = (case split_once_ch (CHR ''.'') rest of
              Some p \<Rightarrow> p | None \<Rightarrow> (rest, []))
      in (if str_starts_with raw ''-'' then - 1 else 1) *
         (of_nat (digits_val whole) + of_nat (digits_val fraction) / 10 ^ length fraction))"

definition frac_value :: "string \<Rightarrow> rat" where
  "frac_value s = of_nat (digits_val s) / 10 ^ length s"

lemma frac_value_Cons: "frac_value (c # s) = (of_nat (digit_val c) + frac_value s) / 10"
  by (simp add: frac_value_def digits_val_Cons field_simps)

lemma frac_value_bounds: "list_all is_digit s \<Longrightarrow> 0 \<le> frac_value s \<and> frac_value s < 1"
proof -
  assume "list_all is_digit s"
  then have "digits_val s < 10 ^ length s" by (rule digits_val_less)
  then have "(of_nat (digits_val s) :: rat) < of_nat (10 ^ length s)" by (simp only: of_nat_less_iff)
  then show ?thesis by (simp add: frac_value_def)
qed

lemma lin_cmp_rat_tenth:
  assumes "0 \<le> (u :: rat)" "u < 1" "0 \<le> v" "v < 1"
  shows "lin_cmp ((of_nat a + u) / 10) ((of_nat b + v) / 10) = ord_then (lin_cmp a b) (lin_cmp u v)"
proof -
  consider "a < b" | "a = b" | "b < a" by linarith
  then show ?thesis
  proof cases
    case 1
    then have "(of_nat (a + 1) :: rat) \<le> of_nat b" by (simp only: of_nat_le_iff)
    then have "of_nat a + u < of_nat b + v" using assms by simp
    then show ?thesis using 1 by (simp add: lin_cmp_def)
  next
    case 2
    then show ?thesis by (simp add: lin_cmp_def)
  next
    case 3
    then have "(of_nat (b + 1) :: rat) \<le> of_nat a" by (simp only: of_nat_le_iff)
    then have "of_nat b + v < of_nat a + u" using assms by simp
    then show ?thesis using 3 by (simp add: lin_cmp_def)
  qed
qed

definition no_end_zero :: "string \<Rightarrow> bool" where
  "no_end_zero s \<longleftrightarrow> s = [] \<or> last s \<noteq> CHR ''0''"

lemma digit_val_pos: "is_digit c \<Longrightarrow> c \<noteq> CHR ''0'' \<Longrightarrow> 0 < digit_val c"
  using digit_val_inj [of c "CHR ''0''"] by (simp add: is_digit_def digit_val_def byte_def)

lemma frac_value_pos:
  "list_all is_digit s \<Longrightarrow> no_end_zero s \<Longrightarrow> s \<noteq> [] \<Longrightarrow> 0 < frac_value s"
proof (induction s)
  case (Cons c s)
  show ?case
  proof (cases "s = []")
    case True
    then show ?thesis using Cons digit_val_pos [of c]
      by (simp add: frac_value_def no_end_zero_def digits_val_Cons)
  next
    case False
    then have "0 < frac_value s" using Cons by (simp add: no_end_zero_def)
    then show ?thesis by (simp add: frac_value_Cons add_nonneg_pos)
  qed
qed simp

lemma str_cmp_frac:
  "list_all is_digit s \<Longrightarrow> list_all is_digit t \<Longrightarrow> no_end_zero s \<Longrightarrow> no_end_zero t \<Longrightarrow>
   str_cmp s t = lin_cmp (frac_value s) (frac_value t)"
proof (induction s arbitrary: t)
  case Nil
  then show ?case
    using frac_value_pos [of t] by (cases t) (auto simp: frac_value_def lin_cmp_def)
next
  case (Cons c s)
  show ?case
  proof (cases t)
    case Nil
    then have "0 < frac_value (c # s)" using frac_value_pos [of "c # s"] Cons.prems by simp
    moreover have "frac_value t = 0" using Nil by (simp add: frac_value_def)
    ultimately show ?thesis using Nil by (simp add: lin_cmp_def)
  next
    case t: (Cons d t')
    have "str_cmp s t' = lin_cmp (frac_value s) (frac_value t')"
      using Cons t by (intro Cons.IH) (auto simp: no_end_zero_def split: if_splits)
    then show ?thesis
      using Cons.prems t frac_value_bounds [of s] frac_value_bounds [of t']
      by (simp add: frac_value_Cons lin_cmp_rat_tenth char_cmp_digit)
  qed
qed

lemma digits_val_drop_zeros: "digits_val (dropWhile (\<lambda>c. c = CHR ''0'') s) = digits_val s"
  by (induction s) (auto simp: digits_val_Cons digit_val_def byte_def)

lemma frac_value_snoc_zero: "frac_value (s @ [CHR ''0'']) = frac_value s"
  by (simp add: frac_value_def digit_val_def byte_def)

lemma frac_value_trim: "frac_value (trim_end_zeros s) = frac_value s"
proof (induction s rule: rev_induct)
  case (snoc c s)
  then show ?case
    using frac_value_snoc_zero [of s] by (auto simp: trim_end_zeros_def)
qed (simp add: trim_end_zeros_def)

lemma trim_end_zeros_ok:
  assumes "list_all is_digit s"
  shows "list_all is_digit (trim_end_zeros s) \<and> no_end_zero (trim_end_zeros s)"
  using assms
proof (induction s rule: rev_induct)
  case (snoc c s)
  then show ?case by (auto simp: trim_end_zeros_def no_end_zero_def)
qed (simp add: trim_end_zeros_def no_end_zero_def)

definition no_lead_zero :: "string \<Rightarrow> bool" where
  "no_lead_zero s \<longleftrightarrow> s = [] \<or> hd s \<noteq> CHR ''0''"

lemma drop_zeros_ok:
  assumes "list_all is_digit s"
  shows "list_all is_digit (dropWhile (\<lambda>c. c = CHR ''0'') s) \<and>
    no_lead_zero (dropWhile (\<lambda>c. c = CHR ''0'') s)"
  using assms by (induction s) (auto simp: no_lead_zero_def)

lemma digits_val_ge:
  assumes "list_all is_digit s" "no_lead_zero s" "s \<noteq> []"
  shows "10 ^ (length s - 1) \<le> digits_val s"
proof (cases s)
  case (Cons c s')
  then have "1 \<le> digit_val c"
    using assms digit_val_pos [of c] by (simp add: no_lead_zero_def)
  then have "1 * 10 ^ length s' \<le> digit_val c * 10 ^ length s'" by (rule mult_le_mono1)
  then have "10 ^ length s' \<le> digits_val s" unfolding Cons digits_val_Cons by linarith
  then show ?thesis using Cons by simp
qed (use assms in simp)

lemma digits_val_longer:
  assumes "list_all is_digit s" "list_all is_digit t" "no_lead_zero t" "length s < length t"
  shows "digits_val s < digits_val t"
proof -
  have "digits_val s < 10 ^ length s" using assms by (intro digits_val_less)
  also have "(10 :: nat) ^ length s \<le> 10 ^ (length t - 1)"
    using assms by (intro power_increasing) auto
  also have "\<dots> \<le> digits_val t" using assms by (intro digits_val_ge) auto
  finally show ?thesis .
qed

lemma cmp_whole:
  assumes "list_all is_digit s" "list_all is_digit t" "no_lead_zero s" "no_lead_zero t"
  shows "ord_then (lin_cmp (length s) (length t)) (str_cmp s t) = lin_cmp (digits_val s) (digits_val t)"
proof -
  consider "length s < length t" | "length s = length t" | "length t < length s" by linarith
  then show ?thesis
  proof cases
    case 1
    then show ?thesis using digits_val_longer [of s t] assms by (simp add: lin_cmp_def)
  next
    case 2
    then show ?thesis using str_cmp_digits [of s t] assms by simp
  next
    case 3
    then show ?thesis using digits_val_longer [of t s] assms by (simp add: lin_cmp_def)
  qed
qed

lemma lin_cmp_whole_frac:
  assumes "0 \<le> (u :: rat)" "u < 1" "0 \<le> v" "v < 1"
  shows "ord_then (lin_cmp a b) (lin_cmp u v) = lin_cmp (of_nat a + u) (of_nat b + v)"
proof -
  have "lin_cmp (p / 10) (q / 10) = lin_cmp p q" for p q :: rat
    by (simp add: lin_cmp_def)
  then show ?thesis using lin_cmp_rat_tenth [OF assms, of a b] by simp
qed

lemma split_once_ch_None: "c \<notin> set s \<Longrightarrow> split_once_ch c s = None"
  by (simp add: split_once_ch_def)

lemma split_once_ch_append: "c \<notin> set p \<Longrightarrow> split_once_ch c (p @ c # s) = Some (p, s)"
proof -
  assume "c \<notin> set p"
  then have "takeWhile (\<lambda>x. x \<noteq> c) (p @ c # s) = p" "dropWhile (\<lambda>x. x \<noteq> c) (p @ c # s) = c # s"
    by (induction p) auto
  then show ?thesis by (simp add: split_once_ch_def)
qed

lemma digits_no_sep:
  "list_all is_digit s \<Longrightarrow> CHR ''.'' \<notin> set s \<and> CHR ''-'' \<notin> set s \<and> CHR ''+'' \<notin> set s"
  by (auto simp: list_all_iff is_digit_def byte_def)

text \<open>A decimal is a sign, digits, and perhaps a point and digits.\<close>

lemma is_decimal_cases:
  assumes "is_decimal raw"
  obtains sign w f where
    "sign \<in> {[], ''+'', ''-''}" "list_all is_digit w" "list_all is_digit f"
    "raw = sign @ w \<and> f = [] \<or> raw = sign @ w @ ''.'' @ f"
proof -
  define sign where "sign = (case raw of c # cs \<Rightarrow>
      if c = CHR ''+'' \<or> c = CHR ''-'' then [c] else [] | [] \<Rightarrow> [])"
  define rest where "rest = (case raw of c # cs \<Rightarrow>
      if c = CHR ''+'' \<or> c = CHR ''-'' then cs else raw | [] \<Rightarrow> raw)"
  have raw: "raw = sign @ rest" and sign: "sign \<in> {[], ''+'', ''-''}"
    by (auto simp: sign_def rest_def split: list.splits)
  have d: "case split_ch (CHR ''.'') rest of
        [whole] \<Rightarrow> list_all is_digit whole \<and> whole \<noteq> []
      | [whole, fraction] \<Rightarrow> list_all is_digit whole \<and> fraction \<noteq> [] \<and> list_all is_digit fraction
      | _ \<Rightarrow> False"
    using assms unfolding is_decimal_def Let_def rest_def [symmetric] by (auto split: if_splits)
  have j: "join_str ''.'' (split_ch (CHR ''.'') rest) = rest" by (rule join_split_ch)
  show thesis
  proof (cases "split_ch (CHR ''.'') rest" rule: remdups_adj.cases)
    case 1
    then show ?thesis using d by simp
  next
    case (2 w)
    then show ?thesis using d j raw sign that [of sign w "[]"] by simp
  next
    case (3 w f ps)
    then show ?thesis using d j raw sign that [of sign w f] by (cases ps) simp_all
  qed
qed

text \<open>What \<open>decimal_split\<close> answers, in terms of the number.\<close>

lemma decimal_parts:
  assumes "sign \<in> {[], ''+'', ''-''}" "list_all is_digit w" "list_all is_digit f"
    and "raw = sign @ w \<and> f = [] \<or> raw = sign @ w @ ''.'' @ f"
  shows "(case split_once_ch (CHR ''.'') (trim_signs raw) of
      Some p \<Rightarrow> p | None \<Rightarrow> (trim_signs raw, [])) = (w, f)"
    and "str_starts_with raw ''-'' \<longleftrightarrow> sign = ''-''"
proof -
  have w: "CHR ''.'' \<notin> set w" "CHR ''-'' \<notin> set w" "CHR ''+'' \<notin> set w"
    using digits_no_sep [OF assms(2)] by auto
  have t: "trim_signs (sign @ w @ t) = w @ t" if "t = [] \<or> hd t = CHR ''.''" for t
    using assms(1) w that by (cases w; cases t) (auto simp: trim_signs_def)
  have "trim_signs raw = w \<and> f = [] \<or> trim_signs raw = w @ ''.'' @ f"
    using assms(4) t [of "[]"] t [of "''.'' @ f"] by auto
  then show "(case split_once_ch (CHR ''.'') (trim_signs raw) of
      Some p \<Rightarrow> p | None \<Rightarrow> (trim_signs raw, [])) = (w, f)"
    using w by (auto simp: split_once_ch_None split_once_ch_append)
  show "str_starts_with raw ''-'' \<longleftrightarrow> sign = ''-''"
    using assms(1,4) w by (cases w) (auto simp: str_starts_with_def)
qed

lemma decimal_split_value:
  assumes "decimal_split raw = Some (neg, w, f)"
  shows "list_all is_digit w \<and> list_all is_digit f \<and> no_lead_zero w \<and> no_end_zero f \<and>
    decimal_value raw = (if neg then - 1 else 1) * (of_nat (digits_val w) + frac_value f) \<and>
    (neg \<longrightarrow> 0 < of_nat (digits_val w) + frac_value f)"
proof -
  have "is_decimal raw" using assms by (auto simp: decimal_split_def split: if_splits)
  then obtain sign w' f' where p: "sign \<in> {[], ''+'', ''-''}" "list_all is_digit w'" "list_all is_digit f'"
    "raw = sign @ w' \<and> f' = [] \<or> raw = sign @ w' @ ''.'' @ f'"
    by (rule is_decimal_cases)
  note q = decimal_parts [OF p]
  define w0 where "w0 = dropWhile (\<lambda>c. c = CHR ''0'') w'"
  define f0 where "f0 = trim_end_zeros f'"
  have "decimal_split raw = Some (sign = ''-'' \<and> \<not> (w0 = [] \<and> f0 = []), w0, f0)"
    using \<open>is_decimal raw\<close>
    by (simp only: decimal_split_def Let_def q prod.case w0_def [symmetric] f0_def [symmetric]
        not_True_eq_False if_False)
  then have w: "w = w0" and f: "f = f0" and neg: "neg \<longleftrightarrow> sign = ''-'' \<and> \<not> (w = [] \<and> f = [])"
    using assms by auto
  have ok: "list_all is_digit w" "list_all is_digit f" "no_lead_zero w" "no_end_zero f"
    using drop_zeros_ok [OF p(2)] trim_end_zeros_ok [OF p(3)] w f by (simp_all add: w0_def f0_def)
  have v: "of_nat (digits_val w') + frac_value f' = of_nat (digits_val w) + frac_value f"
    by (simp add: w f w0_def f0_def digits_val_drop_zeros frac_value_trim)
  have zero: "of_nat (digits_val w) + frac_value f = 0" if "w = []" "f = []"
    using that by (simp add: frac_value_def)
  have pos: "0 < of_nat (digits_val w) + frac_value f" if "\<not> (w = [] \<and> f = [])"
  proof (cases "w = []")
    case True
    then show ?thesis using that frac_value_pos [of f] ok by simp
  next
    case False
    then have "10 ^ (length w - 1) \<le> digits_val w" using ok digits_val_ge by blast
    then have "0 < digits_val w" by (metis gr0I le_zero_eq power_eq_0_iff zero_neq_numeral)
    then show ?thesis using frac_value_bounds [of f] ok by (simp add: add_pos_nonneg)
  qed
  have "decimal_value raw = (if sign = ''-'' then - 1 else 1) * (of_nat (digits_val w') + frac_value f')"
    unfolding decimal_value_def Let_def using q by (simp add: frac_value_def)
  then show ?thesis using ok v zero pos neg by auto
qed

lemma decimal_split_None: "decimal_split raw = None \<longleftrightarrow> \<not> is_decimal raw"
  by (simp add: decimal_split_def Let_def split: prod.splits)

lemma compare_decimal_key:
  assumes "is_decimal a" "is_decimal b"
  shows "compare_decimal a b = Some (lin_cmp (decimal_value a) (decimal_value b))"
proof -
  obtain na wa fa where a: "decimal_split a = Some (na, wa, fa)"
    using assms(1) decimal_split_None [of a] by (cases "decimal_split a") auto
  obtain nb wb fb where b: "decimal_split b = Some (nb, wb, fb)"
    using assms(2) decimal_split_None [of b] by (cases "decimal_split b") auto
  define x where "x = of_nat (digits_val wa) + frac_value fa"
  define y where "y = of_nat (digits_val wb) + frac_value fb"
  note va = decimal_split_value [OF a, folded x_def] and vb = decimal_split_value [OF b, folded y_def]
  have m: "ord_then (ord_then (lin_cmp (length wa) (length wb)) (str_cmp wa wb)) (str_cmp fa fb) =
      lin_cmp x y"
    unfolding x_def y_def
    using va vb frac_value_bounds [of fa] frac_value_bounds [of fb]
    by (subst cmp_whole) (simp_all add: str_cmp_frac lin_cmp_whole_frac)
  have nonneg: "0 \<le> x" "0 \<le> y"
    using va vb frac_value_bounds [of fa] frac_value_bounds [of fb] by (simp_all add: x_def y_def)
  have c: "compare_decimal a b = Some (case (na, nb) of
      (False, True) \<Rightarrow> Greater | (True, False) \<Rightarrow> Less
    | (False, False) \<Rightarrow> lin_cmp x y | (True, True) \<Rightarrow> ord_reverse (lin_cmp x y))"
    unfolding compare_decimal_def a b option.case prod.case Let_def m ..
  have r: "ord_reverse (lin_cmp x y) = lin_cmp (- x) (- y)"
    by (simp add: lin_cmp_def)
  show ?thesis
    unfolding c using va vb nonneg r by (cases na; cases nb) (auto simp: lin_cmp_def)
qed

text \<open>
  C35: Two decimals compare exactly as the rational numbers they
  write, whatever their signs, idle zeros and number of digits, minus zero included.
\<close>

theorem compare_decimal_numeric:
  assumes "is_decimal a" "is_decimal b"
  shows "compare_decimal a b = Some (lin_cmp (decimal_value a) (decimal_value b))"
  by (rule compare_decimal_key [OF assms])

lemma compare_decimal_numeric_witness:
  "compare_decimal ''-0.50'' ''0007'' = Some (lin_cmp (decimal_value ''-0.50'') (decimal_value ''0007''))"
  by (rule compare_decimal_numeric) code_simp+

section \<open>Fixed-width digits\<close>

lemma push_digits_0 [simp]: "push_digits v 0 = []"
  by (simp add: push_digits_def)

lemma push_digits_Suc [simp]:
  "push_digits v (Suc w) = digit_char (v div 10 ^ w mod 10) # push_digits v w"
  by (simp add: push_digits_def)

lemma length_push_digits [simp]: "length (push_digits v w) = w"
  by (simp add: push_digits_def)

lemma push_digits_digits: "list_all is_digit (push_digits v w)"
  by (induction w) simp_all

lemma digits_val_push: "digits_val (push_digits v w) = v mod 10 ^ w"
proof (induction w)
  case (Suc w)
  have "v mod 10 ^ Suc w = v div 10 ^ w mod 10 * 10 ^ w + v mod 10 ^ w"
    using mod_mult2_eq [of v "10 ^ w" 10] by (simp add: ac_simps)
  then show ?case using Suc by (simp add: digits_val_Cons)
qed simp

lemma push_digits_cmp:
  assumes "a < 10 ^ w" "b < 10 ^ w"
  shows "str_cmp (push_digits a w) (push_digits b w) = lin_cmp a b"
  using assms by (simp add: str_cmp_digits push_digits_digits digits_val_push)

lemma push_digits_val:
  assumes "list_all is_digit s"
  shows "push_digits (digits_val s) (length s) = s"
proof -
  have "str_cmp (push_digits (digits_val s) (length s)) s = Equal"
    using assms digits_val_less [OF assms]
    by (simp add: str_cmp_digits push_digits_digits digits_val_push del: str_cmp_Equal)
  then show ?thesis by simp
qed

lemma push_digits_inj: "a < 10 ^ w \<Longrightarrow> b < 10 ^ w \<Longrightarrow> push_digits a w = push_digits b w \<Longrightarrow> a = b"
  by (metis digits_val_push mod_less)

lemma parse_int_digits:
  assumes "list_all is_digit s" "s \<noteq> []"
  shows "parse_int lo hi s =
    (if lo \<le> int (digits_val s) \<and> int (digits_val s) \<le> hi then Some (int (digits_val s)) else None)"
proof (cases s)
  case (Cons c cs)
  then have "c \<noteq> CHR ''-''" "c \<noteq> CHR ''+''" using assms by (auto simp: is_digit_def byte_def)
  then show ?thesis using assms Cons by (simp add: parse_int_def Let_def)
qed (use assms in simp)

section \<open>Dates and instants\<close>

definition days_in_month :: "nat \<Rightarrow> nat \<Rightarrow> nat" where
  "days_in_month y m =
     (if m = 2 then if y mod 4 = 0 \<and> (y mod 100 \<noteq> 0 \<or> y mod 400 = 0) then 29 else 28
      else if m \<in> {4, 6, 9, 11} then 30 else 31)"

definition date_text :: "nat \<Rightarrow> nat \<Rightarrow> nat \<Rightarrow> string" where
  "date_text y m d = push_digits y 4 @ ''-'' @ push_digits m 2 @ ''-'' @ push_digits d 2"

lemma is_leap_year_nat: "is_leap_year (int y) \<longleftrightarrow> y mod 4 = 0 \<and> (y mod 100 \<noteq> 0 \<or> y mod 400 = 0)"
proof -
  have "int y mod 4 = int (y mod 4)" "int y mod 100 = int (y mod 100)" "int y mod 400 = int (y mod 400)"
    by (simp_all add: zmod_int)
  then show ?thesis by (simp add: is_leap_year_def)
qed

lemma month_max:
  "(case if int m \<in> {1, 3, 5, 7, 8, 10, 12} then Some 31
      else if int m \<in> {4, 6, 9, 11} then Some 30
      else if int m = 2 then if is_leap_year (int y) then Some 29 else Some 28
      else None of None \<Rightarrow> False | Some k \<Rightarrow> 1 \<le> int d \<and> int d \<le> k) \<longleftrightarrow>
   1 \<le> m \<and> m \<le> 12 \<and> 1 \<le> d \<and> d \<le> days_in_month y m"
proof -
  have "m = 0 \<or> m = 1 \<or> m = 2 \<or> m = 3 \<or> m = 4 \<or> m = 5 \<or> m = 6 \<or> m = 7 \<or> m = 8 \<or> m = 9 \<or>
      m = 10 \<or> m = 11 \<or> m = 12 \<or> 12 < m"
    by presburger
  then show ?thesis by (elim disjE) (auto simp: days_in_month_def is_leap_year_nat)
qed

lemma calendar_parts:
  assumes "length ys = 4" "length ms = 2" "length ds = 2"
  shows "is_calendar_date (ys @ ''-'' @ ms @ ''-'' @ ds) \<longleftrightarrow>
    list_all is_digit ys \<and> list_all is_digit ms \<and> list_all is_digit ds \<and>
    1 \<le> digits_val ys \<and> 1 \<le> digits_val ms \<and> digits_val ms \<le> 12 \<and>
    1 \<le> digits_val ds \<and> digits_val ds \<le> days_in_month (digits_val ys) (digits_val ms)"
proof -
  obtain a b c d where ys: "ys = [a, b, c, d]" using assms(1) by (auto simp: numeral_eq_Suc length_Suc_conv)
  obtain e f where ms: "ms = [e, f]" using assms(2) by (auto simp: numeral_eq_Suc length_Suc_conv)
  obtain g h where ds: "ds = [g, h]" using assms(3) by (auto simp: numeral_eq_Suc length_Suc_conv)
  define raw where "raw = ys @ ''-'' @ ms @ ''-'' @ ds"
  have digits: "list_all (\<lambda>(i, b). i = 4 \<or> i = 7 \<or> is_digit b) (enumerate 0 raw) \<longleftrightarrow>
      list_all is_digit ys \<and> list_all is_digit ms \<and> list_all is_digit ds"
    by (simp add: raw_def ys ms ds)
  have shape: "length raw = 10" "raw ! 4 = CHR ''-''" "raw ! 7 = CHR ''-''"
    "take 4 raw = ys" "take 2 (drop 5 raw) = ms" "take 2 (drop 8 raw) = ds"
    by (simp_all add: raw_def ys ms ds)
  show ?thesis
  proof (cases "list_all is_digit ys \<and> list_all is_digit ms \<and> list_all is_digit ds")
    case False
    then have "\<not> is_calendar_date raw"
      unfolding is_calendar_date_def digits shape by simp
    then show ?thesis using False unfolding raw_def by auto
  next
    case True
    have less: "digits_val ys < 10000" "digits_val ms < 100" "digits_val ds < 100"
      using digits_val_less [of ys] digits_val_less [of ms] digits_val_less [of ds] True assms by simp_all
    have parse: "parse_int (- (2 ^ 31)) (2 ^ 31 - 1) ys = Some (int (digits_val ys))"
      "parse_int 0 255 ms = Some (int (digits_val ms))"
      "parse_int 0 255 ds = Some (int (digits_val ds))"
      using True less ys ms ds by (subst parse_int_digits; simp)+
    have "is_calendar_date raw \<longleftrightarrow>
      1 \<le> digits_val ys \<and> 1 \<le> digits_val ms \<and> digits_val ms \<le> 12 \<and>
      1 \<le> digits_val ds \<and> digits_val ds \<le> days_in_month (digits_val ys) (digits_val ms)"
      unfolding is_calendar_date_def digits shape parse using True
      by (simp only: Let_def option.case month_max) auto
    then show ?thesis using True unfolding raw_def by simp
  qed
qed

text \<open>
  C34: A date attribute accepts exactly the dates of the Gregorian
  calendar from year 1 to 9999, in the one form \<open>YYYY-MM-DD\<close>.
\<close>

theorem calendar_date_iff:
  "is_calendar_date raw \<longleftrightarrow>
   (\<exists>y m d. 1 \<le> y \<and> y \<le> 9999 \<and> 1 \<le> m \<and> m \<le> 12 \<and> 1 \<le> d \<and> d \<le> days_in_month y m \<and>
      raw = date_text y m d)"
proof
  assume c: "is_calendar_date raw"
  then have l: "length raw = 10" "raw ! 4 = CHR ''-''" "raw ! 7 = CHR ''-''"
    by (auto simp: is_calendar_date_def split: if_splits)
  obtain a0 a1 a2 a3 a4 a5 a6 a7 a8 a9 where "raw = [a0, a1, a2, a3, a4, a5, a6, a7, a8, a9]"
    using l(1) by (auto simp: numeral_eq_Suc length_Suc_conv)
  then have raw: "raw = [a0, a1, a2, a3] @ ''-'' @ [a5, a6] @ ''-'' @ [a8, a9]"
    using l by simp
  define ys ms ds where "ys = [a0, a1, a2, a3]" and "ms = [a5, a6]" and "ds = [a8, a9]"
  have len: "length ys = 4" "length ms = 2" "length ds = 2" by (simp_all add: ys_def ms_def ds_def)
  note p = c [unfolded raw, folded ys_def ms_def ds_def, unfolded calendar_parts [OF len]]
  have "digits_val ys < 10000" using digits_val_less [of ys] p len by simp
  moreover have "raw = date_text (digits_val ys) (digits_val ms) (digits_val ds)"
    unfolding date_text_def
    using p len push_digits_val [of ys] push_digits_val [of ms] push_digits_val [of ds]
    by (simp add: raw ys_def [symmetric] ms_def [symmetric] ds_def [symmetric])
  ultimately show "\<exists>y m d. 1 \<le> y \<and> y \<le> 9999 \<and> 1 \<le> m \<and> m \<le> 12 \<and> 1 \<le> d \<and>
      d \<le> days_in_month y m \<and> raw = date_text y m d"
    using p by (intro exI [of _ "digits_val ys"] exI [of _ "digits_val ms"] exI [of _ "digits_val ds"]) auto
next
  assume "\<exists>y m d. 1 \<le> y \<and> y \<le> 9999 \<and> 1 \<le> m \<and> m \<le> 12 \<and> 1 \<le> d \<and>
      d \<le> days_in_month y m \<and> raw = date_text y m d"
  then obtain y m d where p: "1 \<le> y" "y \<le> 9999" "1 \<le> m" "m \<le> 12" "1 \<le> d" "d \<le> days_in_month y m"
    and raw: "raw = date_text y m d" by blast
  have "days_in_month y m \<le> 31" by (simp add: days_in_month_def)
  then have "d < 100" using p(6) by linarith
  then show "is_calendar_date raw"
    unfolding raw date_text_def
    using p by (subst calendar_parts) (simp_all add: push_digits_digits digits_val_push)
qed

definition time_parts :: "time_precision \<Rightarrow> nat list \<Rightarrow> nat list" where
  "time_parts p parts = (if p = Microsecond then parts else butlast parts)"

lemma push_digits_cmp_append:
  "a < 10 ^ w \<Longrightarrow> b < 10 ^ w \<Longrightarrow>
   str_cmp (push_digits a w @ s) (push_digits b w @ t) = ord_then (lin_cmp a b) (str_cmp s t)"
  by (simp add: str_cmp_append push_digits_cmp)



section \<open>Integers read back\<close>

text \<open>
  A value of an integer type of the range \<open>lo..hi\<close> reads back from its
  attribute exactly when an \<open>i64\<close> can hold it: \<open>to_value\<close> casts with \<open>as i64\<close>, so a larger
  \<open>u64\<close>, \<open>usize\<close>, \<open>i128\<close> or \<open>u128\<close> wraps to another number.
\<close>

theorem int_round_trip:
  assumes "lo \<le> n" "n \<le> hi"
  shows "int_from_value ty lo hi (int_to_value n) = Inr n \<longleftrightarrow> i64_min \<le> n \<and> n \<le> i64_max"
proof
  assume "int_from_value ty lo hi (int_to_value n) = Inr n"
  then have "sint (word_of_int n :: i64) = n"
    by (auto simp: int_from_value_def int_to_value_def split: if_splits)
  then show "i64_min \<le> n \<and> n \<le> i64_max" using sint_i64_range [of "word_of_int n"] by simp
next
  assume "i64_min \<le> n \<and> n \<le> i64_max"
  then show "int_from_value ty lo hi (int_to_value n) = Inr n"
    using assms by (simp add: int_from_value_def int_to_value_def sint_of_int_i64)
qed

lemma int_round_trip_witness:
  "int_from_value ''u64'' 0 18446744073709551615 (int_to_value 9223372036854775807) = Inr 9223372036854775807 \<and>
   int_from_value ''u64'' 0 18446744073709551615 (int_to_value 9223372036854775808) \<noteq> Inr 9223372036854775808"
  using int_round_trip [of 0 9223372036854775807 18446744073709551615 "''u64''"]
    int_round_trip [of 0 9223372036854775808 18446744073709551615 "''u64''"]
  by (simp add: i64_min_def i64_max_def)

lemma list_round_trip:
  assumes "\<And>a. a \<in> set xs \<Longrightarrow> from (to a) = Inr a"
  shows "list_from_value x from (list_to_value to xs) = Inr xs"
proof -
  have "mapE from (map to xs) = Inr xs"
    using assms by (induction xs) auto
  then show ?thesis by (simp add: list_from_value_def list_to_value_def)
qed

section \<open>Comparison by type\<close>

text \<open>The values a column of the type may hold, as far as comparing them goes.\<close>

fun typed_ok :: "external \<Rightarrow> attr_type option \<Rightarrow> Value \<Rightarrow> bool" where
  "typed_ok x (Some TFloat) (VString s) =
     (case x_f64_parse x s of Some f \<Rightarrow> \<not> f64_is_nan f | None \<Rightarrow> False)"
| "typed_ok x (Some TDecimal) (VString s) = is_decimal s"
| "typed_ok x _ _ = True"

lemma compare_typed_not_text:
  "value_rank a \<noteq> 4 \<or> value_rank b \<noteq> 4 \<Longrightarrow> compare_typed x ty a b = value_cmp a b"
  by (cases a; cases b) (simp_all add: compare_typed_def)

definition text_of :: "Value \<Rightarrow> string" where
  "text_of v = (case as_str v of Some s \<Rightarrow> s | None \<Rightarrow> [])"

lemma rank4: "value_rank v = 4 \<Longrightarrow> v = VString (text_of v)"
  by (cases v) (simp_all add: text_of_def)

lemma comparator_text_key:
  assumes "comparator c okk"
    and "\<And>v. typed_ok x ty v \<Longrightarrow> value_rank v = 4 \<Longrightarrow> okk (key (text_of v))"
    and "\<And>s t. typed_ok x ty (VString s) \<Longrightarrow> typed_ok x ty (VString t) \<Longrightarrow>
      compare_text x ty s t = Some (c (key s) (key t))"
  shows "comparator (compare_typed x ty) (\<lambda>v. typed_ok x ty v \<and> value_rank v = 4)"
proof (rule comparator_cong)
  show "comparator (\<lambda>a b. c (key (text_of a)) (key (text_of b))) (\<lambda>v. typed_ok x ty v \<and> value_rank v = 4)"
    by (rule comparator_weaken [OF comparator_on_key [OF assms(1)]]) (use assms(2) in blast)
next
  fix a b
  assume "typed_ok x ty a \<and> value_rank a = 4" "typed_ok x ty b \<and> value_rank b = 4"
  then obtain s t where v: "a = VString s" "b = VString t"
    and ok: "typed_ok x ty (VString s)" "typed_ok x ty (VString t)"
    using rank4 by metis
  show "compare_typed x ty a b = c (key (text_of a)) (key (text_of b))"
    using assms(3) [OF ok] by (simp add: v compare_typed_def text_of_def)
qed

definition f64_value_key :: "f64 \<Rightarrow> int" where
  "f64_value_key f = (if f64_neg f then - f64_mag f else f64_mag f)"

lemma comparator_text:
  "comparator (compare_typed x ty) (\<lambda>v. typed_ok x ty v \<and> value_rank v = 4)"
proof -
  have str: ?thesis if "\<And>s t. compare_text x ty s t = Some (str_cmp (key s) (key t))" for key
    using that by (intro comparator_text_key [OF str_order.comparator_axioms, where key = key]) simp_all
  have plain: ?thesis if "\<And>s t. compare_text x ty s t = None"
  proof (rule comparator_cong)
    show "comparator value_cmp (\<lambda>v. typed_ok x ty v \<and> value_rank v = 4)"
      by (rule comparator_weaken [OF value_order.comparator_axioms]) simp
  next
    fix a b
    assume "typed_ok x ty a \<and> value_rank a = 4" "typed_ok x ty b \<and> value_rank b = 4"
    then show "compare_typed x ty a b = value_cmp a b"
      using that by (cases a; cases b) (simp_all add: compare_typed_def)
  qed
  consider "ty = Some TFloat" | "ty = Some TDecimal" | "ty = Some TCiString" | "ty = Some TInet"
    | n where "ty = Some (TVector n)" | p where "ty = Some (TUtcDatetime p)"
    | "\<And>s t. compare_text x ty s t = None"
  proof (cases ty)
    case (Some t)
    then show ?thesis using that by (cases t) simp_all
  qed (use that in simp)
  then show ?thesis
  proof cases
    case 1
    show ?thesis
      by (rule comparator_text_key [OF lin_order.comparator_axioms,
            where key = "\<lambda>s. case x_f64_parse x s of Some f \<Rightarrow> f64_value_key f | None \<Rightarrow> 0"])
         (auto simp: 1 f64_partial_cmp_def f64_value_key_def split: option.splits)
  next
    case 2
    show ?thesis
      by (rule comparator_text_key [OF lin_order.comparator_axioms, where key = decimal_value])
         (simp_all add: 2 compare_decimal_key)
  next
    case 3
    show ?thesis by (rule str [of "x_lower x"]) (simp add: 3)
  next
    case 4
    show ?thesis by (rule str [of "canonical_or_raw x TInet"]) (simp add: 4)
  next
    case (5 n)
    show ?thesis by (rule str [of "canonical_or_raw x (TVector n)"]) (simp add: 5)
  next
    case (6 p)
    show ?thesis by (rule str [of "canonical_or_raw x (TUtcDatetime p)"]) (simp add: 6)
  next
    case 7
    then show ?thesis by (rule plain)
  qed
qed

lemma comparator_typed: "comparator (compare_typed x ty) (typed_ok x ty)"
proof (rule comparator_same_rank [where r = value_rank])
  fix a b
  assume "value_rank a \<noteq> value_rank b"
  then show "compare_typed x ty a b = lin_cmp (value_rank a) (value_rank b)"
    by (cases "value_rank a = 4") (simp_all add: compare_typed_not_text value_cmp_rank)
next
  fix n
  show "comparator (compare_typed x ty) (\<lambda>v. typed_ok x ty v \<and> value_rank v = n)"
  proof (cases "n = 4")
    case False
    show ?thesis
    proof (rule comparator_cong)
      show "comparator value_cmp (\<lambda>v. typed_ok x ty v \<and> value_rank v = n)"
        by (rule comparator_weaken [OF value_order.comparator_axioms]) simp
    qed (use False compare_typed_not_text in blast)
  qed (simp add: comparator_text)
qed

text \<open>
  The order of a column's values: what sorts, keyset pages and filters compare with is a
  total preorder on the values the column's type lets in.
\<close>

interpretation typed_order: comparator "compare_typed x ty" "typed_ok x ty" for x ty
  by (rule comparator_typed)

end
