(* ===== verification/AshFilter.thy ===== *)
theory AshFilter
  imports AshTypesFacts
begin

text \<open>
  \<open>crates/ash-core/src/filter.rs\<close>: filters over a record, evaluated to SQL's three truth
  values (\<open>None\<close> is unknown), the constructors that simplify as they join, and \<open>LIKE\<close>
  patterns with the table the code matches them by.
\<close>

section \<open>Three-valued results\<close>

fun all_of_from :: "bool \<Rightarrow> bool option list \<Rightarrow> bool option" where
  "all_of_from unknown [] = (if unknown then None else Some True)"
| "all_of_from unknown (Some False # rs) = Some False"
| "all_of_from unknown (None # rs) = all_of_from True rs"
| "all_of_from unknown (Some True # rs) = all_of_from unknown rs"

definition all_of :: "bool option list \<Rightarrow> bool option" where
  "all_of rs = all_of_from False rs"

fun any_of_from :: "bool \<Rightarrow> bool option list \<Rightarrow> bool option" where
  "any_of_from unknown [] = (if unknown then None else Some False)"
| "any_of_from unknown (Some True # rs) = Some True"
| "any_of_from unknown (None # rs) = any_of_from True rs"
| "any_of_from unknown (Some False # rs) = any_of_from unknown rs"

definition any_of :: "bool option list \<Rightarrow> bool option" where
  "any_of rs = any_of_from False rs"

text \<open>A null value of a field counts as no value.\<close>

definition present :: "fields \<Rightarrow> string \<Rightarrow> Value option" where
  "present fs field = (case fm_get fs field of Some VNull \<Rightarrow> None | r \<Rightarrow> r)"

definition non_null :: "Value option \<Rightarrow> Value option" where
  "non_null got = (case got of Some VNull \<Rightarrow> None | r \<Rightarrow> r)"

definition filter_in_list :: "Value option \<Rightarrow> Value list \<Rightarrow> (Value \<Rightarrow> Value \<Rightarrow> bool) \<Rightarrow> bool option" where
  "filter_in_list got vs same =
     (case non_null got of
        None \<Rightarrow> None
      | Some g \<Rightarrow>
          if list_ex (\<lambda>v. \<not> is_null v \<and> same g v) vs then Some True
          else if list_ex is_null vs then None
          else Some False)"

definition filter_compare :: "Value option \<Rightarrow> Value \<Rightarrow> ordering \<Rightarrow> bool \<Rightarrow> bool option" where
  "filter_compare got rhs direction equal_ok =
     (case non_null got of
        None \<Rightarrow> None
      | Some g \<Rightarrow>
          if is_null rhs then None
          else Some (case value_cmp g rhs of
                       Equal \<Rightarrow> equal_ok
                     | ord \<Rightarrow> ord = direction))"

section \<open>Patterns\<close>

datatype like_token = LikeAny | LikeOne | LikeChar string

definition backslash :: string where
  "backslash = [CHR 0x5C]"

fun like_tokens :: "string list \<Rightarrow> like_token list" where
  "like_tokens [] = []"
| "like_tokens (ch # cs) =
     (if ch = ''%'' then LikeAny # like_tokens cs
      else if ch = ''_'' then LikeOne # like_tokens cs
      else if ch = backslash then
        (case cs of [] \<Rightarrow> [LikeChar backslash] | c # cs' \<Rightarrow> LikeChar c # like_tokens cs')
      else LikeChar ch # like_tokens cs)"

text \<open>
  The rows of the table: the entry \<open>j\<close> says whether the text so far matches the first \<open>j\<close>
  tokens. The first row is that of the empty text; a character makes the next.
\<close>

fun like_first_row :: "bool \<Rightarrow> like_token list \<Rightarrow> bool list" where
  "like_first_row b [] = [b]"
| "like_first_row b (t # ts) = b # like_first_row (if t = LikeAny then b else False) ts"

fun like_next_row :: "string \<Rightarrow> bool \<Rightarrow> like_token list \<Rightarrow> bool list \<Rightarrow> bool list" where
  "like_next_row ch nxt (t # ts) (m # m' # ms) =
     nxt # like_next_row ch
       (case t of LikeAny \<Rightarrow> nxt \<or> m' | LikeOne \<Rightarrow> m | LikeChar want \<Rightarrow> m \<and> want = ch)
       ts (m' # ms)"
| "like_next_row ch nxt ts ms = [nxt]"

definition like_matches :: "string \<Rightarrow> string \<Rightarrow> bool" where
  "like_matches text pattern =
     (let tokens = like_tokens (chars pattern)
      in last (foldl (\<lambda>row ch. like_next_row ch False tokens row)
                (like_first_row True tokens) (chars text)))"

definition text_matches ::
    "external \<Rightarrow> Value option \<Rightarrow> string \<Rightarrow> bool \<Rightarrow> (string \<Rightarrow> string \<Rightarrow> bool) \<Rightarrow> bool" where
  "text_matches x got needle case_insensitive test =
     (case got of
        Some (VString text) \<Rightarrow>
          if case_insensitive then test (x_lower x text) (x_lower x needle) else test text needle
      | _ \<Rightarrow> False)"

section \<open>Evaluation\<close>

text \<open>The type of a field or calculation, where the resource is known.\<close>

definition field_type :: "resource_def option \<Rightarrow> string \<Rightarrow> attr_type option" where
  "field_type resource field =
     (case resource of
        None \<Rightarrow> None
      | Some r \<Rightarrow>
          (case attribute r field of
             Some a \<Rightarrow> Some (a_ty a)
           | None \<Rightarrow> map_option c_ty (calculation r field)))"

definition eval_text ::
    "external \<Rightarrow> resource_def option \<Rightarrow> fields \<Rightarrow> string \<Rightarrow> string \<Rightarrow> (string \<Rightarrow> string \<Rightarrow> bool) \<Rightarrow> bool option" where
  "eval_text x resource fs field needle test =
     map_option (\<lambda>got. text_matches x (Some got) needle (field_type resource field = Some TCiString) test)
       (present fs field)"

fun filter_eval :: "external \<Rightarrow> registry \<Rightarrow> resource_def option \<Rightarrow> fields \<Rightarrow> Filter \<Rightarrow> bool option" where
  "filter_eval x reg res fs FTrue = Some True"
| "filter_eval x reg res fs FFalse = Some False"
| "filter_eval x reg res fs (FEq field v) =
     (if is_null v then Some (present fs field = None)
      else map_option (\<lambda>got. value_eq got v) (present fs field))"
| "filter_eval x reg res fs (FNe field v) =
     (if is_null v then Some (present fs field \<noteq> None)
      else map_option (\<lambda>got. \<not> value_eq got v) (present fs field))"
| "filter_eval x reg res fs (FGt field v) = filter_compare (fm_get fs field) v Greater False"
| "filter_eval x reg res fs (FGte field v) = filter_compare (fm_get fs field) v Greater True"
| "filter_eval x reg res fs (FLt field v) = filter_compare (fm_get fs field) v Less False"
| "filter_eval x reg res fs (FLte field v) = filter_compare (fm_get fs field) v Less True"
| "filter_eval x reg res fs (FIn field vs) =
     (if vs = [] then Some False else filter_in_list (present fs field) vs value_eq)"
| "filter_eval x reg res fs (FIsNil field) = Some (present fs field = None)"
| "filter_eval x reg res fs (FContains field needle) = eval_text x res fs field needle str_contains"
| "filter_eval x reg res fs (FStartsWith field needle) = eval_text x res fs field needle str_starts_with"
| "filter_eval x reg res fs (FEndsWith field needle) = eval_text x res fs field needle str_ends_with"
| "filter_eval x reg res fs (FLike field pattern) = eval_text x res fs field pattern like_matches"
| "filter_eval x reg res fs (FILike field pattern) =
     map_option (\<lambda>got. text_matches x (Some got) pattern True like_matches) (present fs field)"
| "filter_eval x reg res fs (FHas field v) =
     map_option (\<lambda>got. case got of VArray items \<Rightarrow> list_ex (\<lambda>i. value_eq i v) items | _ \<Rightarrow> False)
       (present fs field)"
| "filter_eval x reg res fs (FAnd parts) = all_of (map (\<lambda>p. filter_eval x reg res fs p) parts)"
| "filter_eval x reg res fs (FOr parts) = any_of (map (\<lambda>p. filter_eval x reg res fs p) parts)"
| "filter_eval x reg res fs (FNot inner) = map_option Not (filter_eval x reg res fs inner)"
| "filter_eval x reg res fs (FRelated rel f) =
     (let dest = Option.bind (Option.bind res (\<lambda>r. relationship r rel)) (destination reg);
          matches = (\<lambda>m. filter_eval x reg dest m f = Some True)
      in Some (case fm_get fs rel of
                 Some (VMap m) \<Rightarrow> matches m
               | Some (VArray arr) \<Rightarrow> list_ex (\<lambda>v. case v of VMap m \<Rightarrow> matches m | _ \<Rightarrow> False) arr
               | _ \<Rightarrow> True))"

definition matches :: "external \<Rightarrow> registry \<Rightarrow> Filter \<Rightarrow> fields \<Rightarrow> bool" where
  "matches x reg f fs \<longleftrightarrow> filter_eval x reg None fs f = Some True"

definition matches_on :: "external \<Rightarrow> registry \<Rightarrow> Filter \<Rightarrow> resource_def \<Rightarrow> fields \<Rightarrow> bool" where
  "matches_on x reg f r fs \<longleftrightarrow> filter_eval x reg (Some r) fs f = Some True"

section \<open>Constructors that simplify\<close>

fun collect_fields :: "Filter \<Rightarrow> string list" where
  "collect_fields FTrue = []"
| "collect_fields FFalse = []"
| "collect_fields (FEq field _) = [field]"
| "collect_fields (FNe field _) = [field]"
| "collect_fields (FGt field _) = [field]"
| "collect_fields (FGte field _) = [field]"
| "collect_fields (FLt field _) = [field]"
| "collect_fields (FLte field _) = [field]"
| "collect_fields (FIn field _) = [field]"
| "collect_fields (FIsNil field) = [field]"
| "collect_fields (FContains field _) = [field]"
| "collect_fields (FStartsWith field _) = [field]"
| "collect_fields (FEndsWith field _) = [field]"
| "collect_fields (FLike field _) = [field]"
| "collect_fields (FILike field _) = [field]"
| "collect_fields (FHas field _) = [field]"
| "collect_fields (FAnd parts) = concat (map collect_fields parts)"
| "collect_fields (FOr parts) = concat (map collect_fields parts)"
| "collect_fields (FNot inner) = collect_fields inner"
| "collect_fields (FRelated _ f) = collect_fields f"

text \<open>The loop of \<open>Filter::and\<close>; \<open>None\<close> is its early return of \<open>False\<close>.\<close>

fun and_parts :: "Filter list \<Rightarrow> Filter list \<Rightarrow> Filter list option" where
  "and_parts [] out = Some out"
| "and_parts (part # parts) out =
     (case part of
        FTrue \<Rightarrow> and_parts parts out
      | FFalse \<Rightarrow> None
      | FAnd nested \<Rightarrow> and_parts parts (out @ nested)
      | other \<Rightarrow> and_parts parts (out @ [other]))"

definition filter_and :: "Filter list \<Rightarrow> Filter" where
  "filter_and parts =
     (case and_parts parts [] of
        None \<Rightarrow> FFalse
      | Some [] \<Rightarrow> FTrue
      | Some [part] \<Rightarrow> part
      | Some out \<Rightarrow> FAnd out)"

fun or_parts :: "Filter list \<Rightarrow> Filter list \<Rightarrow> Filter list option" where
  "or_parts [] out = Some out"
| "or_parts (part # parts) out =
     (case part of
        FFalse \<Rightarrow> or_parts parts out
      | FTrue \<Rightarrow> None
      | FOr nested \<Rightarrow> or_parts parts (out @ nested)
      | other \<Rightarrow> or_parts parts (out @ [other]))"

definition filter_or :: "Filter list \<Rightarrow> Filter" where
  "filter_or parts =
     (case or_parts parts [] of
        None \<Rightarrow> FTrue
      | Some [] \<Rightarrow> FFalse
      | Some [part] \<Rightarrow> part
      | Some out \<Rightarrow> FOr out)"

fun filter_not :: "Filter \<Rightarrow> Filter" where
  "filter_not FTrue = FFalse"
| "filter_not FFalse = FTrue"
| "filter_not f = FNot f"

section \<open>Facts on three-valued results\<close>

lemma all_of_from_eq:
  "all_of_from u rs =
     (if Some False \<in> set rs then Some False else if u \<or> None \<in> set rs then None else Some True)"
proof (induction u rs rule: all_of_from.induct)
  case (2 u rs)
  then show ?case by simp
next
  case (3 u rs)
  then show ?case by auto
next
  case (4 u rs)
  then show ?case by auto
qed simp

lemma any_of_from_eq:
  "any_of_from u rs =
     (if Some True \<in> set rs then Some True else if u \<or> None \<in> set rs then None else Some False)"
proof (induction u rs rule: any_of_from.induct)
  case (2 u rs)
  then show ?case by simp
next
  case (3 u rs)
  then show ?case by auto
next
  case (4 u rs)
  then show ?case by auto
qed simp

lemma all_of_eq:
  "all_of rs = (if Some False \<in> set rs then Some False else if None \<in> set rs then None else Some True)"
  by (simp add: all_of_def all_of_from_eq)

lemma any_of_eq:
  "any_of rs = (if Some True \<in> set rs then Some True else if None \<in> set rs then None else Some False)"
  by (simp add: any_of_def any_of_from_eq)

lemma bool_option_True: "r = Some True \<longleftrightarrow> r \<noteq> Some False \<and> r \<noteq> None"
  by (cases r) auto

lemma bool_option_False: "r = Some False \<longleftrightarrow> r \<noteq> Some True \<and> r \<noteq> None"
  by (cases r) auto

lemma all_of_True: "all_of rs = Some True \<longleftrightarrow> (\<forall>r \<in> set rs. r = Some True)"
proof -
  have "all_of rs = Some True \<longleftrightarrow> Some False \<notin> set rs \<and> None \<notin> set rs" by (simp add: all_of_eq)
  also have "\<dots> \<longleftrightarrow> (\<forall>r \<in> set rs. r \<noteq> Some False \<and> r \<noteq> None)" by metis
  finally show ?thesis by (simp only: bool_option_True)
qed

lemma any_of_True: "any_of rs = Some True \<longleftrightarrow> Some True \<in> set rs"
  by (simp add: any_of_eq)

lemma any_of_False: "any_of rs = Some False \<longleftrightarrow> (\<forall>r \<in> set rs. r = Some False)"
proof -
  have "any_of rs = Some False \<longleftrightarrow> Some True \<notin> set rs \<and> None \<notin> set rs" by (simp add: any_of_eq)
  also have "\<dots> \<longleftrightarrow> (\<forall>r \<in> set rs. r \<noteq> Some True \<and> r \<noteq> None)" by metis
  finally show ?thesis by (simp only: bool_option_False)
qed

lemma all_of_simps [simp]:
  "all_of [] = Some True"
  "all_of (Some True # rs) = all_of rs" "all_of (Some False # rs) = Some False"
  by (simp_all add: all_of_def)

lemma all_of_single [simp]: "all_of [r] = r"
  by (cases r) (auto simp: all_of_eq)

lemma any_of_simps [simp]:
  "any_of [] = Some False"
  "any_of (Some False # rs) = any_of rs" "any_of (Some True # rs) = Some True"
  by (simp_all add: any_of_def)

lemma any_of_single [simp]: "any_of [r] = r"
  by (cases r) (auto simp: any_of_eq)

lemma all_of_append: "all_of (rs @ ss) = all_of [all_of rs, all_of ss]"
  by (auto simp: all_of_eq)

lemma any_of_append: "any_of (rs @ ss) = any_of [any_of rs, any_of ss]"
  by (auto simp: any_of_eq)

lemma present_iff: "present fs f = Some v \<longleftrightarrow> fm_get fs f = Some v \<and> v \<noteq> VNull"
  by (auto simp: present_def split: option.splits Value.splits)

section \<open>The constructors keep the meaning\<close>

lemma and_parts_None: "and_parts parts out = None \<longleftrightarrow> FFalse \<in> set parts"
proof (induction parts arbitrary: out)
  case (Cons part parts)
  then show ?case by (cases part) simp_all
qed simp

lemma or_parts_None: "or_parts parts out = None \<longleftrightarrow> FTrue \<in> set parts"
proof (induction parts arbitrary: out)
  case (Cons part parts)
  then show ?case by (cases part) simp_all
qed simp

text \<open>
  Whatever evaluates filters, a record's fields or a store's tables, reads the connectives
  as SQL does; the simplifying constructors mean the same to every one.
\<close>

locale filter_meaning =
  fixes ev :: "Filter \<Rightarrow> bool option"
  assumes ev_True: "ev FTrue = Some True"
    and ev_False: "ev FFalse = Some False"
    and ev_And: "ev (FAnd parts) = all_of (map ev parts)"
    and ev_Or: "ev (FOr parts) = any_of (map ev parts)"
    and ev_Not: "ev (FNot f) = map_option Not (ev f)"
begin

lemma ev_and_parts: "and_parts parts out = Some o' \<Longrightarrow> all_of (map ev o') = all_of (map ev (out @ parts))"
proof (induction parts arbitrary: out)
  case (Cons part parts)
  then show ?case
    by (cases part) (fastforce simp: all_of_eq ev_True ev_And split: if_splits)+
qed simp

lemma ev_or_parts: "or_parts parts out = Some o' \<Longrightarrow> any_of (map ev o') = any_of (map ev (out @ parts))"
proof (induction parts arbitrary: out)
  case (Cons part parts)
  then show ?case
    by (cases part) (fastforce simp: any_of_eq ev_False ev_Or split: if_splits)+
qed simp

lemma ev_filter_and: "ev (filter_and parts) = all_of (map ev parts)"
proof (cases "and_parts parts []")
  case None
  then have "FFalse \<in> set parts" by (simp add: and_parts_None)
  then have "Some False \<in> set (map ev parts)" using ev_False by force
  then show ?thesis using None by (simp add: filter_and_def all_of_eq ev_False)
next
  case (Some out)
  then have "ev (filter_and parts) = all_of (map ev out)"
    by (auto simp: filter_and_def ev_True ev_And split: list.splits)
  then show ?thesis using ev_and_parts [OF Some] by simp
qed

lemma ev_filter_or: "ev (filter_or parts) = any_of (map ev parts)"
proof (cases "or_parts parts []")
  case None
  then have "FTrue \<in> set parts" by (simp add: or_parts_None)
  then have "Some True \<in> set (map ev parts)" using ev_True by force
  then show ?thesis using None by (simp add: filter_or_def any_of_eq ev_True)
next
  case (Some out)
  then have "ev (filter_or parts) = any_of (map ev out)"
    by (auto simp: filter_or_def ev_False ev_Or split: list.splits)
  then show ?thesis using ev_or_parts [OF Some] by simp
qed

lemma ev_filter_not: "ev (filter_not f) = map_option Not (ev f)"
  by (cases f) (simp_all add: ev_True ev_False ev_Not)

end

interpretation record_meaning: filter_meaning "filter_eval x reg res fs" for x reg res fs
  by unfold_locales simp_all

lemmas eval_filter_and = record_meaning.ev_filter_and
lemmas eval_filter_or = record_meaning.ev_filter_or
lemmas eval_filter_not = record_meaning.ev_filter_not

text \<open>
  C33: \<open>Filter::and\<close>, \<open>Filter::or\<close> and \<open>!\<close> drop, absorb and flatten
  parts, and still evaluate as SQL's three-valued connectives of the parts given, on every
  record: false wins over unknown in a conjunction, true in a disjunction.
\<close>

theorem filter_connectives:
  "filter_eval x reg res fs (filter_and parts) =
     (if Some False \<in> filter_eval x reg res fs ` set parts then Some False
      else if None \<in> filter_eval x reg res fs ` set parts then None else Some True) \<and>
   filter_eval x reg res fs (filter_or parts) =
     (if Some True \<in> filter_eval x reg res fs ` set parts then Some True
      else if None \<in> filter_eval x reg res fs ` set parts then None else Some False) \<and>
   filter_eval x reg res fs (filter_not f) = map_option Not (filter_eval x reg res fs f)"
  by (simp add: eval_filter_and eval_filter_or eval_filter_not all_of_eq any_of_eq)

section \<open>Patterns match as SQL's LIKE\<close>

text \<open>
  What a pattern means: the text splits into one piece per token, any run of characters for
  \<open>%\<close>, one character for \<open>_\<close>, and the very character otherwise.
\<close>

fun token_ok :: "like_token \<Rightarrow> string list \<Rightarrow> bool" where
  "token_ok LikeAny p = True"
| "token_ok LikeOne p = (length p = 1)"
| "token_ok (LikeChar c) p = (p = [c])"

definition like_spec :: "like_token list \<Rightarrow> string list \<Rightarrow> bool" where
  "like_spec ts cs \<longleftrightarrow> (\<exists>ps. concat ps = cs \<and> list_all2 token_ok ts ps)"

lemma like_spec_Nil [simp]: "like_spec [] cs \<longleftrightarrow> cs = []"
  by (auto simp: like_spec_def)

lemma like_spec_snoc:
  "like_spec (ts @ [t]) cs \<longleftrightarrow> (\<exists>a p. cs = a @ p \<and> like_spec ts a \<and> token_ok t p)"
proof
  assume "like_spec (ts @ [t]) cs"
  then obtain ps where ps: "concat ps = cs" "list_all2 token_ok (ts @ [t]) ps"
    by (auto simp: like_spec_def)
  then obtain qs p where "ps = qs @ [p]" "list_all2 token_ok ts qs" "token_ok t p"
    by (auto simp: list_all2_append1 list_all2_Cons1)
  then show "\<exists>a p. cs = a @ p \<and> like_spec ts a \<and> token_ok t p"
    using ps(1) by (auto simp: like_spec_def)
next
  assume "\<exists>a p. cs = a @ p \<and> like_spec ts a \<and> token_ok t p"
  then obtain p ps where "cs = concat ps @ p" "list_all2 token_ok ts ps" "token_ok t p"
    by (auto simp: like_spec_def)
  then show "like_spec (ts @ [t]) cs"
    unfolding like_spec_def by (intro exI [of _ "ps @ [p]"]) (simp add: list_all2_appendI)
qed

lemma like_spec_empty: "like_spec (ts @ [t]) [] \<longleftrightarrow> t = LikeAny \<and> like_spec ts []"
  by (cases t) (auto simp: like_spec_snoc)

lemma like_spec_step:
  "like_spec (ts @ [t]) (cs @ [c]) \<longleftrightarrow>
     (case t of
        LikeAny \<Rightarrow> like_spec ts (cs @ [c]) \<or> like_spec (ts @ [t]) cs
      | LikeOne \<Rightarrow> like_spec ts cs
      | LikeChar w \<Rightarrow> like_spec ts cs \<and> w = c)"
proof (cases t)
  case LikeAny
  have "(\<exists>a p. cs @ [c] = a @ p \<and> like_spec ts a) \<longleftrightarrow>
      like_spec ts (cs @ [c]) \<or> (\<exists>a p. cs = a @ p \<and> like_spec ts a)"
  proof
    assume "\<exists>a p. cs @ [c] = a @ p \<and> like_spec ts a"
    then obtain a p where "cs @ [c] = a @ p" "like_spec ts a" by blast
    then show "like_spec ts (cs @ [c]) \<or> (\<exists>a p. cs = a @ p \<and> like_spec ts a)"
      by (cases p rule: rev_cases) auto
  next
    assume "like_spec ts (cs @ [c]) \<or> (\<exists>a p. cs = a @ p \<and> like_spec ts a)"
    then show "\<exists>a p. cs @ [c] = a @ p \<and> like_spec ts a"
      by (metis append.assoc append.right_neutral)
  qed
  then show ?thesis using LikeAny by (simp add: like_spec_snoc)
next
  case LikeOne
  then show ?thesis by (auto simp: like_spec_snoc length_Suc_conv)
next
  case (LikeChar w)
  then show ?thesis by (auto simp: like_spec_snoc)
qed

definition like_row :: "like_token list \<Rightarrow> like_token list \<Rightarrow> string list \<Rightarrow> bool list" where
  "like_row pre suf cs = map (\<lambda>j. like_spec (pre @ take j suf) cs) [0..<Suc (length suf)]"

lemma like_row_simps:
  "like_row pre [] cs = [like_spec pre cs]"
  "like_row pre (t # suf) cs = like_spec pre cs # like_row (pre @ [t]) suf cs"
proof -
  show "like_row pre [] cs = [like_spec pre cs]" by (simp add: like_row_def)
  have "map f [0..<Suc (Suc n)] = f 0 # map (\<lambda>j. f (Suc j)) [0..<Suc n]" for f :: "nat \<Rightarrow> bool" and n
    by (simp add: map_upt_Suc del: upt_Suc)
  then show "like_row pre (t # suf) cs = like_spec pre cs # like_row (pre @ [t]) suf cs"
    by (simp add: like_row_def del: upt_Suc)
qed

lemma like_first_row_spec: "like_first_row (like_spec pre []) suf = like_row pre suf []"
proof (induction suf arbitrary: pre)
  case (Cons t suf)
  have "(if t = LikeAny then like_spec pre [] else False) = like_spec (pre @ [t]) []"
    by (simp add: like_spec_empty)
  then show ?case using Cons [of "pre @ [t]"] by (simp add: like_row_simps)
qed (simp add: like_row_simps)

lemma like_row_hd: "\<exists>ms. like_row pre suf cs = like_spec pre cs # ms"
  by (cases suf) (simp_all add: like_row_simps)

lemma like_next_row_spec:
  "like_next_row c (like_spec pre (cs @ [c])) suf (like_row pre suf cs) = like_row pre suf (cs @ [c])"
proof (induction suf arbitrary: pre)
  case (Cons t suf)
  obtain ms where ms: "like_row (pre @ [t]) suf cs = like_spec (pre @ [t]) cs # ms"
    using like_row_hd by blast
  have "(case t of LikeAny \<Rightarrow> like_spec pre (cs @ [c]) \<or> like_spec (pre @ [t]) cs
      | LikeOne \<Rightarrow> like_spec pre cs | LikeChar w \<Rightarrow> like_spec pre cs \<and> w = c) =
      like_spec (pre @ [t]) (cs @ [c])"
    by (simp add: like_spec_step)
  then show ?case using Cons [of "pre @ [t]"] ms by (simp add: like_row_simps)
qed (simp add: like_row_simps)

lemma like_rows_spec:
  "foldl (\<lambda>row ch. like_next_row ch False ts row) (like_row [] ts cs) cs' = like_row [] ts (cs @ cs')"
proof (induction cs' arbitrary: cs)
  case (Cons c cs')
  have "like_next_row c False ts (like_row [] ts cs) = like_row [] ts (cs @ [c])"
    using like_next_row_spec [of c "[]" cs ts] by simp
  then show ?case using Cons [of "cs @ [c]"] by simp
qed simp

lemma last_like_row: "last (like_row pre suf cs) = like_spec (pre @ suf) cs"
  by (simp add: like_row_def)

text \<open>
  C23: A text matches a \<open>LIKE\<close> pattern exactly when it splits into the
  pieces the pattern's tokens ask for: the dynamic programming table computes the
  declarative meaning, for every text and every pattern.
\<close>

theorem like_matches_spec:
  "like_matches text pattern \<longleftrightarrow>
   (\<exists>ps. concat ps = chars text \<and> list_all2 token_ok (like_tokens (chars pattern)) ps)"
proof -
  have "like_first_row True (like_tokens (chars pattern)) = like_row [] (like_tokens (chars pattern)) []"
    using like_first_row_spec [of "[]"] by simp
  then show ?thesis
    using like_rows_spec [of "like_tokens (chars pattern)" "[]" "chars text"]
    by (simp add: like_matches_def Let_def last_like_row like_spec_def)
qed

end
