(* ===== verification/AshExpr.thy ===== *)
theory AshExpr
  imports AshFilter
begin

text \<open>
  \<open>crates/ash-core/src/expr.rs\<close>: the expressions of calculations, evaluated over a record's
  fields and a calculation's arguments. Integer arithmetic is Rust's on \<open>i64\<close>: an overflow
  panics where the build checks for it and wraps otherwise, and dividing the least integer
  by -1 panics always.
\<close>

section \<open>Integer arithmetic\<close>

definition i64_fits :: "int \<Rightarrow> bool" where
  "i64_fits n \<longleftrightarrow> i64_min \<le> n \<and> n \<le> i64_max"

definition i64_result :: "external \<Rightarrow> string \<Rightarrow> int \<Rightarrow> i64 res" where
  "i64_result x verb n =
     (if x_overflow_checks x \<and> \<not> i64_fits n
      then Inl (EPanic (''attempt to '' @ verb @ '' with overflow''))
      else Inr (word_of_int n))"

definition i64_add :: "external \<Rightarrow> i64 \<Rightarrow> i64 \<Rightarrow> i64 res" where
  "i64_add x a b = i64_result x ''add'' (sint a + sint b)"

definition i64_sub :: "external \<Rightarrow> i64 \<Rightarrow> i64 \<Rightarrow> i64 res" where
  "i64_sub x a b = i64_result x ''subtract'' (sint a - sint b)"

definition i64_mul :: "external \<Rightarrow> i64 \<Rightarrow> i64 \<Rightarrow> i64 res" where
  "i64_mul x a b = i64_result x ''multiply'' (sint a * sint b)"

text \<open>Division truncates toward zero; the divisor isn't zero.\<close>

definition trunc_div :: "int \<Rightarrow> int \<Rightarrow> int" where
  "trunc_div a b = sgn a * sgn b * (\<bar>a\<bar> div \<bar>b\<bar>)"

definition i64_div :: "i64 \<Rightarrow> i64 \<Rightarrow> i64 res" where
  "i64_div a b =
     (if \<not> i64_fits (trunc_div (sint a) (sint b))
      then Inl (EPanic ''attempt to divide with overflow'')
      else Inr (word_of_int (trunc_div (sint a) (sint b))))"

lemma i64_result_fits [simp]: "i64_fits n \<Longrightarrow> i64_result x verb n = Inr (word_of_int n)"
  by (simp add: i64_result_def)

lemma sint_fits: "i64_fits (sint (a :: i64))"
  using sint_i64_range [of a] by (simp add: i64_fits_def)

lemma sint_i64_result:
  "i64_fits n \<Longrightarrow> i64_result x verb n = Inr r \<Longrightarrow> sint r = n"
  by (auto simp: i64_fits_def sint_of_int_i64)

text \<open>Only the least integer over -1 leaves the range.\<close>

lemma trunc_div_fits:
  assumes "b \<noteq> 0" "i64_fits a" "\<not> (a = i64_min \<and> b = - 1)"
  shows "i64_fits (trunc_div a b)"
proof -
  have n: "\<bar>a\<bar> div \<bar>b\<bar> = int (nat \<bar>a\<bar> div nat \<bar>b\<bar>)"
    by (simp add: zdiv_int)
  have q: "0 \<le> \<bar>a\<bar> div \<bar>b\<bar>" "\<bar>a\<bar> div \<bar>b\<bar> \<le> \<bar>a\<bar>"
    using div_le_dividend [of "nat \<bar>a\<bar>" "nat \<bar>b\<bar>"] unfolding n by linarith+
  have a: "\<bar>a\<bar> \<le> 2 ^ 63" using assms(2) by (auto simp: i64_fits_def i64_min_def i64_max_def)
  show ?thesis
  proof (cases "\<bar>a\<bar> div \<bar>b\<bar> \<le> i64_max")
    case True
    then show ?thesis using q
      by (auto simp: trunc_div_def i64_fits_def i64_min_def i64_max_def sgn_if)
  next
    case False
    then have e: "\<bar>a\<bar> div \<bar>b\<bar> = 2 ^ 63" "\<bar>a\<bar> = 2 ^ 63" using q a by (simp_all add: i64_max_def)
    have m: "a = i64_min" using assms(2) e(2) by (auto simp: i64_fits_def i64_min_def i64_max_def)
    have "\<bar>b\<bar> = 1"
    proof (rule ccontr)
      assume "\<bar>b\<bar> \<noteq> 1"
      then have "1 < \<bar>b\<bar>" using assms(1) by linarith
      then have "\<bar>a\<bar> div \<bar>b\<bar> < \<bar>a\<bar>" using e(2) by (intro int_div_less_self) simp_all
      then show False using e by simp
    qed
    then have "b = 1" using assms(3) m by linarith
    then show ?thesis using m by (simp add: trunc_div_def i64_fits_def i64_min_def i64_max_def sgn_if)
  qed
qed

lemma i64_div_ok:
  "b \<noteq> 0 \<Longrightarrow> \<not> (sint a = i64_min \<and> sint b = - 1) \<Longrightarrow>
   i64_div a b = Inr (word_of_int (trunc_div (sint a) (sint b)))"
  using trunc_div_fits [of "sint b" "sint a"] sint_fits [of a] sint_i64_eq [of b 0]
  by (simp add: i64_div_def)

section \<open>Evaluation\<close>

fun is_custom :: "expr \<Rightarrow> bool" where
  "is_custom (XCustom _) = True"
| "is_custom (XLength e) = is_custom e"
| "is_custom (XLower e) = is_custom e"
| "is_custom (XUpper e) = is_custom e"
| "is_custom (XConcat parts) = list_ex is_custom parts"
| "is_custom (XCoalesce parts) = list_ex is_custom parts"
| "is_custom (XAdd a b) = (is_custom a \<or> is_custom b)"
| "is_custom (XSub a b) = (is_custom a \<or> is_custom b)"
| "is_custom (XMul a b) = (is_custom a \<or> is_custom b)"
| "is_custom (XDiv a b) = (is_custom a \<or> is_custom b)"
| "is_custom (XEq a b) = (is_custom a \<or> is_custom b)"
| "is_custom (XNe a b) = (is_custom a \<or> is_custom b)"
| "is_custom (XGt a b) = (is_custom a \<or> is_custom b)"
| "is_custom (XGte a b) = (is_custom a \<or> is_custom b)"
| "is_custom (XLt a b) = (is_custom a \<or> is_custom b)"
| "is_custom (XLte a b) = (is_custom a \<or> is_custom b)"
| "is_custom (XIfElse c t e) = (is_custom c \<or> is_custom t \<or> is_custom e)"
| "is_custom _ = False"

definition or_null :: "Value option \<Rightarrow> Value" where
  "or_null v = (case v of Some v \<Rightarrow> v | None \<Rightarrow> VNull)"

definition chars_count :: "string \<Rightarrow> Value" where
  "chars_count text = VInt (word_of_nat (length (chars text)))"

text \<open>What \<open>concat\<close> writes of a value.\<close>

fun concat_part :: "external \<Rightarrow> Value \<Rightarrow> string" where
  "concat_part x (VString s) = s"
| "concat_part x (VInt n) = show_int (sint n)"
| "concat_part x (VBool b) = (if b then ''true'' else ''false'')"
| "concat_part x (VUuid u) = x_uuid_show x u"
| "concat_part x _ = []"

definition expr_add :: "external \<Rightarrow> Value \<Rightarrow> Value \<Rightarrow> Value res" where
  "expr_add x a b =
     (case (as_int a, as_int b) of
        (Some m, Some n) \<Rightarrow> bindE (i64_add x m n) (\<lambda>k. Inr (VInt k))
      | _ \<Rightarrow>
          (case (as_str a, as_str b) of
             (Some s, Some t) \<Rightarrow> Inr (VString (s @ t))
           | _ \<Rightarrow>
               if a = VNull \<or> b = VNull then Inr VNull
               else Inl (ETypeMismatch ''add'' ''integer or string'' (type_name a @ '' + '' @ type_name b))))"

definition expr_sub :: "external \<Rightarrow> Value \<Rightarrow> Value \<Rightarrow> Value res" where
  "expr_sub x a b =
     (case (as_int a, as_int b) of
        (Some m, Some n) \<Rightarrow> bindE (i64_sub x m n) (\<lambda>k. Inr (VInt k))
      | _ \<Rightarrow>
          if a = VNull \<or> b = VNull then Inr VNull
          else Inl (ETypeMismatch ''sub'' ''integer'' (type_name a @ '' - '' @ type_name b)))"

definition expr_mul :: "external \<Rightarrow> Value \<Rightarrow> Value \<Rightarrow> Value res" where
  "expr_mul x a b =
     (case (as_int a, as_int b) of
        (Some m, Some n) \<Rightarrow> bindE (i64_mul x m n) (\<lambda>k. Inr (VInt k))
      | _ \<Rightarrow>
          if a = VNull \<or> b = VNull then Inr VNull
          else Inl (ETypeMismatch ''mul'' ''integer'' (type_name a @ '' * '' @ type_name b)))"

definition expr_div :: "Value \<Rightarrow> Value \<Rightarrow> Value res" where
  "expr_div a b =
     (case (as_int a, as_int b) of
        (Some m, Some n) \<Rightarrow> if n = 0 then Inr VNull else bindE (i64_div m n) (\<lambda>k. Inr (VInt k))
      | _ \<Rightarrow>
          if a = VNull \<or> b = VNull then Inr VNull
          else Inl (ETypeMismatch ''div'' ''integer'' (type_name a @ '' / '' @ type_name b)))"

text \<open>\<open>>\<close>, \<open>>=\<close>, \<open><\<close> and \<open><=\<close>: of two integers or two texts, else false.\<close>

definition expr_order :: "(ordering \<Rightarrow> bool) \<Rightarrow> Value \<Rightarrow> Value \<Rightarrow> Value" where
  "expr_order p a b =
     (case (as_int a, as_int b) of
        (Some m, Some n) \<Rightarrow> VBool (p (i64_cmp m n))
      | _ \<Rightarrow>
          (case (as_str a, as_str b) of
             (Some s, Some t) \<Rightarrow> VBool (p (str_cmp s t))
           | _ \<Rightarrow> VBool False))"

fun expr_length :: "string \<Rightarrow> Value \<Rightarrow> Value res" where
  "expr_length field VNull = Inr VNull"
| "expr_length field (VString text) = Inr (chars_count text)"
| "expr_length field other = Inl (ETypeMismatch field ''string'' (type_name other))"

fun expr_case :: "string \<Rightarrow> (string \<Rightarrow> string) \<Rightarrow> Value \<Rightarrow> Value res" where
  "expr_case field f VNull = Inr VNull"
| "expr_case field f (VString s) = Inr (VString (f s))"
| "expr_case field f other = Inl (ETypeMismatch field ''string'' (type_name other))"

definition both :: "Value res \<Rightarrow> Value res \<Rightarrow> (Value \<Rightarrow> Value \<Rightarrow> 'a res) \<Rightarrow> 'a res" where
  "both l r f = bindE l (\<lambda>a. bindE r (\<lambda>b. f a b))"

lemma both_cong [fundef_cong]:
  "l = l' \<Longrightarrow> r = r' \<Longrightarrow> (\<And>a b. l' = Inr a \<Longrightarrow> r' = Inr b \<Longrightarrow> f a b = f' a b) \<Longrightarrow> both l r f = both l' r' f'"
  unfolding both_def by (cases l'; cases r') simp_all

text \<open>\<open>coalesce\<close> stops at the first value that isn't null; what follows isn't evaluated.\<close>

fun coalesceE :: "('a \<Rightarrow> Value res) \<Rightarrow> 'a list \<Rightarrow> Value res" where
  "coalesceE f [] = Inr VNull"
| "coalesceE f (e # es) = bindE (f e) (\<lambda>v. if v \<noteq> VNull then Inr v else coalesceE f es)"

lemma coalesceE_cong [fundef_cong]:
  assumes "es = es'" "\<And>e. e \<in> set es' \<Longrightarrow> f e = f' e"
  shows "coalesceE f es = coalesceE f' es'"
  unfolding assms(1) using assms(2) by (induction es') (auto intro!: bindE_cong)

fun expr_eval :: "external \<Rightarrow> expr \<Rightarrow> fields \<Rightarrow> fields \<Rightarrow> Value res" where
  "expr_eval x (XField name) fs args = Inr (or_null (fm_get fs name))"
| "expr_eval x (XArg name) fs args = Inr (or_null (fm_get args name))"
| "expr_eval x (XLitInt n) fs args = Inr (VInt n)"
| "expr_eval x (XLitString s) fs args = Inr (VString s)"
| "expr_eval x (XLitBool b) fs args = Inr (VBool b)"
| "expr_eval x XNull fs args = Inr VNull"
| "expr_eval x (XStringLength name) fs args = expr_length name (or_null (fm_get fs name))"
| "expr_eval x (XLength e) fs args = bindE (expr_eval x e fs args) (expr_length ''length'')"
| "expr_eval x (XLower e) fs args = bindE (expr_eval x e fs args) (expr_case ''lower'' (x_lower x))"
| "expr_eval x (XUpper e) fs args = bindE (expr_eval x e fs args) (expr_case ''upper'' (x_upper x))"
| "expr_eval x (XConcat parts) fs args =
     bindE (mapE (\<lambda>e. expr_eval x e fs args) parts)
       (\<lambda>vs. Inr (VString (concat (map (concat_part x) vs))))"
| "expr_eval x (XCoalesce parts) fs args = coalesceE (\<lambda>e. expr_eval x e fs args) parts"
| "expr_eval x (XAdd l r) fs args = both (expr_eval x l fs args) (expr_eval x r fs args) (expr_add x)"
| "expr_eval x (XSub l r) fs args = both (expr_eval x l fs args) (expr_eval x r fs args) (expr_sub x)"
| "expr_eval x (XMul l r) fs args = both (expr_eval x l fs args) (expr_eval x r fs args) (expr_mul x)"
| "expr_eval x (XDiv l r) fs args = both (expr_eval x l fs args) (expr_eval x r fs args) expr_div"
| "expr_eval x (XEq l r) fs args =
     both (expr_eval x l fs args) (expr_eval x r fs args) (\<lambda>a b. Inr (VBool (value_eq a b)))"
| "expr_eval x (XNe l r) fs args =
     both (expr_eval x l fs args) (expr_eval x r fs args) (\<lambda>a b. Inr (VBool (\<not> value_eq a b)))"
| "expr_eval x (XGt l r) fs args =
     both (expr_eval x l fs args) (expr_eval x r fs args) (\<lambda>a b. Inr (expr_order (\<lambda>c. c = Greater) a b))"
| "expr_eval x (XGte l r) fs args =
     both (expr_eval x l fs args) (expr_eval x r fs args) (\<lambda>a b. Inr (expr_order (\<lambda>c. c \<noteq> Less) a b))"
| "expr_eval x (XLt l r) fs args =
     both (expr_eval x l fs args) (expr_eval x r fs args) (\<lambda>a b. Inr (expr_order (\<lambda>c. c = Less) a b))"
| "expr_eval x (XLte l r) fs args =
     both (expr_eval x l fs args) (expr_eval x r fs args) (\<lambda>a b. Inr (expr_order (\<lambda>c. c \<noteq> Greater) a b))"
| "expr_eval x (XIfElse cnd t e) fs args =
     bindE (expr_eval x cnd fs args)
       (\<lambda>c. if c = VBool True then expr_eval x t fs args else expr_eval x e fs args)"
| "expr_eval x (XCustom f) fs args = f fs"

definition apply_named :: "external \<Rightarrow> resource_def \<Rightarrow> fields \<Rightarrow> string \<Rightarrow> fields \<Rightarrow> fields res" where
  "apply_named x r row name args =
     (case calculation r name of
        Some calc \<Rightarrow> bindE (expr_eval x (c_expr calc) row args) (\<lambda>v. Inr (fm_insert (c_name calc) v row))
      | None \<Rightarrow> Inr row)"

section \<open>What an expression reads\<close>

fun expr_fields :: "expr \<Rightarrow> string set" where
  "expr_fields (XField n) = {n}"
| "expr_fields (XStringLength n) = {n}"
| "expr_fields (XLength e) = expr_fields e"
| "expr_fields (XLower e) = expr_fields e"
| "expr_fields (XUpper e) = expr_fields e"
| "expr_fields (XConcat es) = \<Union> (set (map expr_fields es))"
| "expr_fields (XCoalesce es) = \<Union> (set (map expr_fields es))"
| "expr_fields (XAdd a b) = expr_fields a \<union> expr_fields b"
| "expr_fields (XSub a b) = expr_fields a \<union> expr_fields b"
| "expr_fields (XMul a b) = expr_fields a \<union> expr_fields b"
| "expr_fields (XDiv a b) = expr_fields a \<union> expr_fields b"
| "expr_fields (XEq a b) = expr_fields a \<union> expr_fields b"
| "expr_fields (XNe a b) = expr_fields a \<union> expr_fields b"
| "expr_fields (XGt a b) = expr_fields a \<union> expr_fields b"
| "expr_fields (XGte a b) = expr_fields a \<union> expr_fields b"
| "expr_fields (XLt a b) = expr_fields a \<union> expr_fields b"
| "expr_fields (XLte a b) = expr_fields a \<union> expr_fields b"
| "expr_fields (XIfElse c t e) = expr_fields c \<union> expr_fields t \<union> expr_fields e"
| "expr_fields _ = {}"

text \<open>
  An expression without a custom function evaluates the same
  on any two records that agree on the fields it names: only a custom one reads whatever of
  the record it likes.
\<close>

theorem expr_reads_its_fields:
  assumes "\<not> is_custom e" "\<And>n. n \<in> expr_fields e \<Longrightarrow> fm_get fs n = fm_get fs' n"
  shows "expr_eval x e fs args = expr_eval x e fs' args"
  using assms
proof (induction e)
  case (XConcat es)
  have "mapE (\<lambda>e. expr_eval x e fs args) es = mapE (\<lambda>e. expr_eval x e fs' args) es"
    using XConcat by (intro mapE_cong refl XConcat.IH) (auto simp: list_ex_iff)
  then show ?case by simp
next
  case (XCoalesce es)
  have "coalesceE (\<lambda>e. expr_eval x e fs args) es = coalesceE (\<lambda>e. expr_eval x e fs' args) es"
    using XCoalesce by (intro coalesceE_cong refl XCoalesce.IH) (auto simp: list_ex_iff)
  then show ?case by simp
qed (simp_all cong: if_cong)

lemma expr_reads_its_fields_witness:
  "expr_eval sample_external (XAdd (XField ''a'') (XLitInt 1)) [(''a'', VInt 2)] [] =
   expr_eval sample_external (XAdd (XField ''a'') (XLitInt 1)) [(''b'', VNull), (''a'', VInt 2)] []"
  by (rule expr_reads_its_fields) auto

end
