(* ===== verification/AshAtomic.thy ===== *)
theory AshAtomic
  imports AshExpr
begin

text \<open>
  \<open>crates/ash-core/src/atomic.rs\<close>: expressions an atomic update computes from the record as
  the data layer holds it, the conditions it fails on, and applying an update to one record;
  with \<open>atomic_from_expr\<close> of \<open>engine/atomic.rs\<close>, which turns a calculation's expression into
  an atomic one. A panic of the arithmetic is a result's error here, as everywhere.
\<close>

section \<open>Atomic expressions\<close>

datatype atomic_expr =
    AtValue Value
  | AtField string
  | AtAdd atomic_expr atomic_expr | AtSub atomic_expr atomic_expr
  | AtMul atomic_expr atomic_expr | AtDiv atomic_expr atomic_expr
  | AtLower atomic_expr | AtUpper atomic_expr
  | AtConcat "atomic_expr list"
  | AtStringLength atomic_expr | AtTrim atomic_expr
  | AtCoalesce "atomic_expr list"
  | AtIf atomic_expr atomic_expr atomic_expr
  | AtIsNil atomic_expr
  | AtEq atomic_expr atomic_expr | AtLt atomic_expr atomic_expr | AtGt atomic_expr atomic_expr
  | AtDistinctFrom atomic_expr atomic_expr
  | AtIn atomic_expr "Value list"
  | AtAnd "atomic_expr list" | AtOr "atomic_expr list"
  | AtNot atomic_expr
  | AtFilter Filter

definition not_true :: "atomic_expr \<Rightarrow> atomic_expr" where
  "not_true allowed = AtNot (AtCoalesce [allowed, AtValue (VBool False)])"

fun known :: "atomic_expr \<Rightarrow> Value option" where
  "known (AtValue v) = Some v"
| "known _ = None"

definition truth :: "Value \<Rightarrow> bool option" where
  "truth v = as_bool v"

definition bool_or_null :: "bool option \<Rightarrow> Value" where
  "bool_or_null b = (case b of Some b \<Rightarrow> VBool b | None \<Rightarrow> VNull)"

text \<open>The attribute type two sides are compared by: that of the first that is a field.\<close>

fun operand_type :: "resource_def \<Rightarrow> atomic_expr list \<Rightarrow> attr_type option" where
  "operand_type r [] = None"
| "operand_type r (AtField name # es) =
     (case attribute r name of Some a \<Rightarrow> Some (a_ty a) | None \<Rightarrow> operand_type r es)"
| "operand_type r (e # es) = operand_type r es"

definition atomic_compare ::
    "external \<Rightarrow> attr_type option \<Rightarrow> Value \<Rightarrow> Value \<Rightarrow> ordering option" where
  "atomic_compare x ty a b = (if is_null a \<or> is_null b then None else Some (compare_typed x ty a b))"

definition atomic_arith :: "(i64 \<Rightarrow> i64 \<Rightarrow> Value res) \<Rightarrow> Value \<Rightarrow> Value \<Rightarrow> Value res" where
  "atomic_arith f a b =
     (case (as_int a, as_int b) of (Some m, Some n) \<Rightarrow> f m n | _ \<Rightarrow> Inr VNull)"

definition atomic_text :: "(string \<Rightarrow> Value) \<Rightarrow> Value \<Rightarrow> Value" where
  "atomic_text f v = (case as_str v of Some s \<Rightarrow> f s | None \<Rightarrow> VNull)"

fun atomic_concat :: "external \<Rightarrow> string \<Rightarrow> Value list \<Rightarrow> Value" where
  "atomic_concat x out [] = VString out"
| "atomic_concat x out (v # vs) =
     (if is_null v then VNull else atomic_concat x (out @ value_display x v) vs)"

text \<open>
  Three-valued \<open>And\<close> and \<open>Or\<close>, every part evaluated first. \<open>Concat\<close> evaluates its parts up to
  the first null, \<open>Coalesce\<close> up to the first that isn't.
\<close>

definition atomic_and :: "bool option list \<Rightarrow> Value" where
  "atomic_and results =
     (if Some False \<in> set results then VBool False
      else if None \<in> set results then VNull else VBool True)"

definition atomic_or :: "bool option list \<Rightarrow> Value" where
  "atomic_or results =
     (if Some True \<in> set results then VBool True
      else if None \<in> set results then VNull else VBool False)"

fun until_null :: "('a \<Rightarrow> Value res) \<Rightarrow> 'a list \<Rightarrow> Value list res" where
  "until_null f [] = Inr []"
| "until_null f (e # es) =
     bindE (f e) (\<lambda>v. if is_null v then Inr [v] else bindE (until_null f es) (\<lambda>vs. Inr (v # vs)))"

lemma until_null_cong [fundef_cong]:
  assumes "es = es'" "\<And>e. e \<in> set es' \<Longrightarrow> f e = f' e"
  shows "until_null f es = until_null f' es'"
  unfolding assms(1) using assms(2) by (induction es') (auto intro!: bindE_cong)

definition distinct_from :: "external \<Rightarrow> attr_type option \<Rightarrow> Value \<Rightarrow> Value \<Rightarrow> bool" where
  "distinct_from x ty a b =
     (case (is_null a, is_null b) of
        (True, True) \<Rightarrow> False
      | (True, False) \<Rightarrow> True
      | (False, True) \<Rightarrow> True
      | (False, False) \<Rightarrow> atomic_compare x ty a b \<noteq> Some Equal)"

fun atomic_eval ::
    "external \<Rightarrow> resource_def \<Rightarrow> (Filter \<Rightarrow> fields \<Rightarrow> bool) \<Rightarrow> fields \<Rightarrow> atomic_expr \<Rightarrow> Value res" where
  "atomic_eval x r flt row (AtValue v) = Inr v"
| "atomic_eval x r flt row (AtField name) = Inr (or_null (fm_get row name))"
| "atomic_eval x r flt row (AtAdd a b) =
     both (atomic_eval x r flt row a) (atomic_eval x r flt row b)
       (atomic_arith (\<lambda>m n. bindE (i64_add x m n) (\<lambda>k. Inr (VInt k))))"
| "atomic_eval x r flt row (AtSub a b) =
     both (atomic_eval x r flt row a) (atomic_eval x r flt row b)
       (atomic_arith (\<lambda>m n. bindE (i64_sub x m n) (\<lambda>k. Inr (VInt k))))"
| "atomic_eval x r flt row (AtMul a b) =
     both (atomic_eval x r flt row a) (atomic_eval x r flt row b)
       (atomic_arith (\<lambda>m n. bindE (i64_mul x m n) (\<lambda>k. Inr (VInt k))))"
| "atomic_eval x r flt row (AtDiv a b) =
     both (atomic_eval x r flt row a) (atomic_eval x r flt row b)
       (atomic_arith (\<lambda>m n. if n = 0 then Inr VNull else bindE (i64_div m n) (\<lambda>k. Inr (VInt k))))"
| "atomic_eval x r flt row (AtLower e) =
     bindE (atomic_eval x r flt row e) (\<lambda>v. Inr (atomic_text (\<lambda>s. VString (x_lower x s)) v))"
| "atomic_eval x r flt row (AtUpper e) =
     bindE (atomic_eval x r flt row e) (\<lambda>v. Inr (atomic_text (\<lambda>s. VString (x_upper x s)) v))"
| "atomic_eval x r flt row (AtConcat parts) =
     bindE (until_null (\<lambda>e. atomic_eval x r flt row e) parts) (\<lambda>vs. Inr (atomic_concat x [] vs))"
| "atomic_eval x r flt row (AtStringLength e) =
     bindE (atomic_eval x r flt row e) (\<lambda>v. Inr (atomic_text chars_count v))"
| "atomic_eval x r flt row (AtTrim e) =
     bindE (atomic_eval x r flt row e) (\<lambda>v. Inr (atomic_text (\<lambda>s. VString (str_trim s)) v))"
| "atomic_eval x r flt row (AtCoalesce items) = coalesceE (\<lambda>e. atomic_eval x r flt row e) items"
| "atomic_eval x r flt row (AtIf c t e) =
     bindE (atomic_eval x r flt row c)
       (\<lambda>v. if truth v = Some True then atomic_eval x r flt row t else atomic_eval x r flt row e)"
| "atomic_eval x r flt row (AtIsNil e) =
     bindE (atomic_eval x r flt row e) (\<lambda>v. Inr (VBool (is_null v)))"
| "atomic_eval x r flt row (AtEq a b) =
     both (atomic_eval x r flt row a) (atomic_eval x r flt row b)
       (\<lambda>u v. Inr (bool_or_null (map_option (\<lambda>o'. o' = Equal) (atomic_compare x (operand_type r [a, b]) u v))))"
| "atomic_eval x r flt row (AtLt a b) =
     both (atomic_eval x r flt row a) (atomic_eval x r flt row b)
       (\<lambda>u v. Inr (bool_or_null (map_option (\<lambda>o'. o' = Less) (atomic_compare x (operand_type r [a, b]) u v))))"
| "atomic_eval x r flt row (AtGt a b) =
     both (atomic_eval x r flt row a) (atomic_eval x r flt row b)
       (\<lambda>u v. Inr (bool_or_null (map_option (\<lambda>o'. o' = Greater) (atomic_compare x (operand_type r [a, b]) u v))))"
| "atomic_eval x r flt row (AtDistinctFrom a b) =
     both (atomic_eval x r flt row a) (atomic_eval x r flt row b)
       (\<lambda>u v. Inr (VBool (distinct_from x (operand_type r [a, b]) u v)))"
| "atomic_eval x r flt row (AtIn e vs) =
     bindE (atomic_eval x r flt row e)
       (\<lambda>v. Inr (if is_null v then VNull
                 else VBool (list_ex (\<lambda>w. compare_typed x (operand_type r [e]) v w = Equal) vs)))"
| "atomic_eval x r flt row (AtAnd items) =
     bindE (mapE (\<lambda>e. atomic_eval x r flt row e) items) (\<lambda>vs. Inr (atomic_and (map truth vs)))"
| "atomic_eval x r flt row (AtOr items) =
     bindE (mapE (\<lambda>e. atomic_eval x r flt row e) items) (\<lambda>vs. Inr (atomic_or (map truth vs)))"
| "atomic_eval x r flt row (AtNot e) =
     bindE (atomic_eval x r flt row e) (\<lambda>v. Inr (bool_or_null (map_option Not (truth v))))"
| "atomic_eval x r flt row (AtFilter f) = Inr (VBool (flt f row))"

section \<open>Atomic updates\<close>

record atomic_condition =
  fails_when :: atomic_expr
  reports :: "string list"
  condition_error :: "fields \<Rightarrow> error"

definition failing_with :: "atomic_expr \<Rightarrow> error \<Rightarrow> atomic_condition" where
  "failing_with e err = \<lparr>fails_when = e, reports = [], condition_error = (\<lambda>_. err)\<rparr>"

record atomic_update =
  au_set :: "(string \<times> atomic_expr) list"
  au_conditions :: "atomic_condition list"

definition empty_update :: atomic_update where
  "empty_update = \<lparr>au_set = [], au_conditions = []\<rparr>"

definition update_value_of :: "atomic_update \<Rightarrow> string \<Rightarrow> atomic_expr" where
  "update_value_of u field =
     (case List.find (\<lambda>(name, _). name = field) (rev (au_set u)) of
        Some (_, e) \<Rightarrow> e | None \<Rightarrow> AtField field)"

definition update_set :: "atomic_update \<Rightarrow> string \<Rightarrow> atomic_expr \<Rightarrow> atomic_update" where
  "update_set u field e =
     u\<lparr>au_set := filter (\<lambda>(name, _). name \<noteq> field) (au_set u) @ [(field, e)]\<rparr>"

text \<open>The first condition that holds fails the update; none may be skipped.\<close>

fun check_conditions ::
    "external \<Rightarrow> resource_def \<Rightarrow> (Filter \<Rightarrow> fields \<Rightarrow> bool) \<Rightarrow> fields \<Rightarrow> atomic_condition list \<Rightarrow> unit res" where
  "check_conditions x r flt row [] = Inr ()"
| "check_conditions x r flt row (c # cs) =
     bindE (atomic_eval x r flt row (fails_when c))
       (\<lambda>v. if v = VBool True then Inl (condition_error c row) else check_conditions x r flt row cs)"

definition update_apply ::
    "external \<Rightarrow> resource_def \<Rightarrow> (Filter \<Rightarrow> fields \<Rightarrow> bool) \<Rightarrow> atomic_update \<Rightarrow> fields \<Rightarrow> fields res" where
  "update_apply x r flt u row =
     bindE (check_conditions x r flt row (au_conditions u)) (\<lambda>_.
     bindE (mapE (\<lambda>(name, e). bindE (atomic_eval x r flt row e) (\<lambda>v. Inr (name, v))) (au_set u))
       (\<lambda>vals. Inr (fm_extend row vals)))"

datatype atomic_part = AtomicPart "(string \<times> atomic_expr) list" "atomic_condition list" | NotAtomic string

record atomic_context =
  atc_resource :: resource_def
  atc_actor :: "actor option"
  atc_tenant :: "string option"
  atc_arguments :: fields
  atc_update :: atomic_update

definition context_value_of :: "atomic_context \<Rightarrow> string \<Rightarrow> atomic_expr" where
  "context_value_of c field =
     (case fm_get (atc_arguments c) field of
        Some v \<Rightarrow> if attribute (atc_resource c) field = None then AtValue v
                  else update_value_of (atc_update c) field
      | None \<Rightarrow> update_value_of (atc_update c) field)"

section \<open>A resource's expression as an atomic one\<close>

fun mapO :: "('a \<Rightarrow> 'b option) \<Rightarrow> 'a list \<Rightarrow> 'b list option" where
  "mapO f [] = Some []"
| "mapO f (x # xs) = (case (f x, mapO f xs) of (Some y, Some ys) \<Rightarrow> Some (y # ys) | _ \<Rightarrow> None)"

lemma mapO_cong [fundef_cong]:
  assumes "xs = xs'" "\<And>x. x \<in> set xs' \<Longrightarrow> f x = f' x"
  shows "mapO f xs = mapO f' xs'"
  unfolding assms(1) using assms(2) by (induction xs') auto

definition map2O :: "('a \<Rightarrow> 'a \<Rightarrow> 'b) \<Rightarrow> 'a option \<Rightarrow> 'a option \<Rightarrow> 'b option" where
  "map2O f a b = Option.bind a (\<lambda>u. map_option (f u) b)"

fun atomic_from_expr :: "fields \<Rightarrow> expr \<Rightarrow> atomic_expr option" where
  "atomic_from_expr args (XField name) = Some (AtField name)"
| "atomic_from_expr args (XArg name) = Some (AtValue (or_null (fm_get args name)))"
| "atomic_from_expr args (XLitInt n) = Some (AtValue (VInt n))"
| "atomic_from_expr args (XLitString s) = Some (AtValue (VString s))"
| "atomic_from_expr args (XLitBool b) = Some (AtValue (VBool b))"
| "atomic_from_expr args XNull = Some (AtValue VNull)"
| "atomic_from_expr args (XStringLength name) = Some (AtStringLength (AtField name))"
| "atomic_from_expr args (XLength e) = map_option AtStringLength (atomic_from_expr args e)"
| "atomic_from_expr args (XLower e) = map_option AtLower (atomic_from_expr args e)"
| "atomic_from_expr args (XUpper e) = map_option AtUpper (atomic_from_expr args e)"
| "atomic_from_expr args (XConcat es) = map_option AtConcat (mapO (\<lambda>e. atomic_from_expr args e) es)"
| "atomic_from_expr args (XCoalesce es) = map_option AtCoalesce (mapO (\<lambda>e. atomic_from_expr args e) es)"
| "atomic_from_expr args (XAdd a b) = map2O AtAdd (atomic_from_expr args a) (atomic_from_expr args b)"
| "atomic_from_expr args (XSub a b) = map2O AtSub (atomic_from_expr args a) (atomic_from_expr args b)"
| "atomic_from_expr args (XMul a b) = map2O AtMul (atomic_from_expr args a) (atomic_from_expr args b)"
| "atomic_from_expr args (XDiv a b) = map2O AtDiv (atomic_from_expr args a) (atomic_from_expr args b)"
| "atomic_from_expr args (XEq a b) = map2O AtEq (atomic_from_expr args a) (atomic_from_expr args b)"
| "atomic_from_expr args (XNe a b) =
     map_option AtNot (map2O AtEq (atomic_from_expr args a) (atomic_from_expr args b))"
| "atomic_from_expr args (XGt a b) = map2O AtGt (atomic_from_expr args a) (atomic_from_expr args b)"
| "atomic_from_expr args (XLt a b) = map2O AtLt (atomic_from_expr args a) (atomic_from_expr args b)"
| "atomic_from_expr args (XGte a b) =
     map_option AtNot (map2O AtLt (atomic_from_expr args a) (atomic_from_expr args b))"
| "atomic_from_expr args (XLte a b) =
     map_option AtNot (map2O AtGt (atomic_from_expr args a) (atomic_from_expr args b))"
| "atomic_from_expr args (XIfElse c t e) =
     Option.bind (atomic_from_expr args c)
       (\<lambda>c'. map2O (AtIf c') (atomic_from_expr args t) (atomic_from_expr args e))"
| "atomic_from_expr args (XCustom _) = None"

section \<open>Where an atomic expression agrees with the one it came from\<close>

text \<open>
  A statement propagates nil through text and comparisons, and adds integers only, where the
  expression computed in Rust skips nil, compares it and joins text. They agree where nothing
  is nil, the operands are of the types the operation is for, and an attribute's type doesn't
  order the two values its own way.
\<close>

fun is_int :: "Value res \<Rightarrow> bool" where
  "is_int (Inr (VInt _)) = True"
| "is_int _ = False"

fun is_text :: "Value res \<Rightarrow> bool" where
  "is_text (Inr (VString _)) = True"
| "is_text _ = False"

fun writes_itself :: "Value res \<Rightarrow> bool" where
  "writes_itself (Inr (VString _)) = True"
| "writes_itself (Inr (VInt _)) = True"
| "writes_itself (Inr (VBool _)) = True"
| "writes_itself (Inr (VUuid _)) = True"
| "writes_itself _ = False"

definition same_order :: "external \<Rightarrow> resource_def \<Rightarrow> fields \<Rightarrow> fields \<Rightarrow> expr \<Rightarrow> expr \<Rightarrow> bool" where
  "same_order x r fs args a b =
     (case (expr_eval x a fs args, expr_eval x b fs args, atomic_from_expr args a, atomic_from_expr args b) of
        (Inr u, Inr v, Some a', Some b') \<Rightarrow>
          u \<noteq> VNull \<and> v \<noteq> VNull \<and> compare_typed x (operand_type r [a', b']) u v = value_cmp u v
      | _ \<Rightarrow> False)"

definition comparable :: "Value res \<Rightarrow> Value res \<Rightarrow> bool" where
  "comparable u v \<longleftrightarrow> is_int u \<and> is_int v \<or> is_text u \<and> is_text v"

fun strict :: "external \<Rightarrow> resource_def \<Rightarrow> fields \<Rightarrow> fields \<Rightarrow> expr \<Rightarrow> bool" where
  "strict x r fs args (XStringLength n) \<longleftrightarrow> is_text (Inr (or_null (fm_get fs n)))"
| "strict x r fs args (XLength e) \<longleftrightarrow> strict x r fs args e \<and> is_text (expr_eval x e fs args)"
| "strict x r fs args (XLower e) \<longleftrightarrow> strict x r fs args e \<and> is_text (expr_eval x e fs args)"
| "strict x r fs args (XUpper e) \<longleftrightarrow> strict x r fs args e \<and> is_text (expr_eval x e fs args)"
| "strict x r fs args (XConcat es) \<longleftrightarrow>
     list_all (\<lambda>e. strict x r fs args e \<and> writes_itself (expr_eval x e fs args)) es"
| "strict x r fs args (XCoalesce es) \<longleftrightarrow> list_all (\<lambda>e. strict x r fs args e) es"
| "strict x r fs args (XAdd a b) \<longleftrightarrow> strict x r fs args a \<and> strict x r fs args b \<and>
     is_int (expr_eval x a fs args) \<and> is_int (expr_eval x b fs args)"
| "strict x r fs args (XSub a b) \<longleftrightarrow> strict x r fs args a \<and> strict x r fs args b \<and>
     is_int (expr_eval x a fs args) \<and> is_int (expr_eval x b fs args)"
| "strict x r fs args (XMul a b) \<longleftrightarrow> strict x r fs args a \<and> strict x r fs args b \<and>
     is_int (expr_eval x a fs args) \<and> is_int (expr_eval x b fs args)"
| "strict x r fs args (XDiv a b) \<longleftrightarrow> strict x r fs args a \<and> strict x r fs args b \<and>
     is_int (expr_eval x a fs args) \<and> is_int (expr_eval x b fs args)"
| "strict x r fs args (XEq a b) \<longleftrightarrow> strict x r fs args a \<and> strict x r fs args b \<and> same_order x r fs args a b"
| "strict x r fs args (XNe a b) \<longleftrightarrow> strict x r fs args a \<and> strict x r fs args b \<and> same_order x r fs args a b"
| "strict x r fs args (XGt a b) \<longleftrightarrow> strict x r fs args a \<and> strict x r fs args b \<and> same_order x r fs args a b \<and>
     comparable (expr_eval x a fs args) (expr_eval x b fs args)"
| "strict x r fs args (XGte a b) \<longleftrightarrow> strict x r fs args a \<and> strict x r fs args b \<and> same_order x r fs args a b \<and>
     comparable (expr_eval x a fs args) (expr_eval x b fs args)"
| "strict x r fs args (XLt a b) \<longleftrightarrow> strict x r fs args a \<and> strict x r fs args b \<and> same_order x r fs args a b \<and>
     comparable (expr_eval x a fs args) (expr_eval x b fs args)"
| "strict x r fs args (XLte a b) \<longleftrightarrow> strict x r fs args a \<and> strict x r fs args b \<and> same_order x r fs args a b \<and>
     comparable (expr_eval x a fs args) (expr_eval x b fs args)"
| "strict x r fs args (XIfElse c t e) \<longleftrightarrow> strict x r fs args c \<and> strict x r fs args t \<and> strict x r fs args e"
| "strict x r fs args _ \<longleftrightarrow> True"

lemma is_int_D: "is_int u \<Longrightarrow> \<exists>n. u = Inr (VInt n)"
  by (cases u rule: is_int.cases) auto

lemma is_text_D: "is_text u \<Longrightarrow> \<exists>s. u = Inr (VString s)"
  by (cases u rule: is_text.cases) auto

lemma writes_itself_D:
  "writes_itself u \<Longrightarrow> \<exists>v. u = Inr v \<and> v \<noteq> VNull \<and> value_display x v = concat_part x v"
  by (cases u rule: writes_itself.cases) auto

lemma same_order_D:
  "same_order x r fs args a b \<Longrightarrow> \<exists>u v a' b'. expr_eval x a fs args = Inr u \<and> expr_eval x b fs args = Inr v \<and>
     atomic_from_expr args a = Some a' \<and> atomic_from_expr args b = Some b' \<and>
     atomic_compare x (operand_type r [a', b']) u v = Some (value_cmp u v)"
  by (auto simp: same_order_def atomic_compare_def is_null_def split: sum.splits option.splits)

lemma comparable_D:
  "comparable (Inr u) (Inr v) \<Longrightarrow> expr_order p u v = VBool (p (value_cmp u v))"
  by (auto simp: comparable_def expr_order_def dest!: is_int_D is_text_D)

lemma mapO_list_all2: "mapO f xs = Some ys \<longleftrightarrow> list_all2 (\<lambda>a b. f a = Some b) xs ys"
proof (induction xs arbitrary: ys)
  case (Cons a xs)
  show ?case by (auto simp: list_all2_Cons1 Cons [symmetric] split: option.splits)
qed auto

lemma coalesceE_list_all2:
  "list_all2 (\<lambda>a b. f a = g b) xs ys \<Longrightarrow> coalesceE f xs = coalesceE g ys"
  by (induction xs ys rule: list_all2_induct) (auto cong: if_cong)

lemma atomic_concat_writes:
  "\<forall>v \<in> set vs. v \<noteq> VNull \<and> value_display x v = concat_part x v \<Longrightarrow>
   atomic_concat x out vs = VString (out @ concat (map (concat_part x) vs))"
  by (induction vs arbitrary: out) (auto simp: is_null_def)

lemma until_null_mapE:
  "list_all2 (\<lambda>a b. g b = f a \<and> (\<exists>v. f a = Inr v \<and> v \<noteq> VNull)) xs ys \<Longrightarrow> until_null g ys = mapE f xs"
  by (induction xs ys rule: list_all2_induct) (auto simp: is_null_def)

lemma truth_VBool [simp]: "truth (VBool b) = Some b"
  by (simp add: truth_def)

lemma truth_iff: "truth v = Some True \<longleftrightarrow> v = VBool True"
  by (cases v) (auto simp: truth_def)

lemma map2O_eq_Some: "map2O f a b = Some c \<longleftrightarrow> (\<exists>u v. a = Some u \<and> b = Some v \<and> c = f u v)"
  by (auto simp: map2O_def bind_eq_Some_conv)

lemma arith_agrees:
  assumes "is_int u" "is_int v"
  shows "both u v (atomic_arith (\<lambda>m n. bindE (i64_add x m n) (\<lambda>k. Inr (VInt k)))) = both u v (expr_add x)"
    and "both u v (atomic_arith (\<lambda>m n. bindE (i64_sub x m n) (\<lambda>k. Inr (VInt k)))) = both u v (expr_sub x)"
    and "both u v (atomic_arith (\<lambda>m n. bindE (i64_mul x m n) (\<lambda>k. Inr (VInt k)))) = both u v (expr_mul x)"
    and "both u v (atomic_arith (\<lambda>m n. if n = 0 then Inr VNull else bindE (i64_div m n) (\<lambda>k. Inr (VInt k)))) =
      both u v expr_div"
  using is_int_D [OF assms(1)] is_int_D [OF assms(2)]
  by (auto simp: both_def atomic_arith_def expr_add_def expr_sub_def expr_mul_def expr_div_def)

lemma order_agrees:
  assumes "same_order x r fs args a b" "atomic_from_expr args a = Some a'" "atomic_from_expr args b = Some b'"
  shows "both (expr_eval x a fs args) (expr_eval x b fs args)
      (\<lambda>u v. Inr (bool_or_null (map_option p (atomic_compare x (operand_type r [a', b']) u v)))) =
    both (expr_eval x a fs args) (expr_eval x b fs args) (\<lambda>u v. Inr (VBool (p (value_cmp u v))))"
  using same_order_D [OF assms(1)] assms(2,3) by (auto simp: both_def bool_or_null_def)

lemma comparable_both:
  "comparable u v \<Longrightarrow> both u v (\<lambda>a b. Inr (expr_order p a b)) = both u v (\<lambda>a b. Inr (VBool (p (value_cmp a b))))"
  by (cases u; cases v) (simp_all add: both_def comparable_D)

lemma both_not:
  "bindE (both u v (\<lambda>a b. Inr (VBool (p a b)))) (\<lambda>w. Inr (bool_or_null (map_option Not (truth w)))) =
   both u v (\<lambda>a b. Inr (VBool (\<not> p a b)))"
  by (cases u; cases v) (simp_all add: both_def bool_or_null_def)

lemma strict_agrees:
  "strict x r fs args e \<Longrightarrow> atomic_from_expr args e = Some a \<Longrightarrow>
   atomic_eval x r flt fs a = expr_eval x e fs args"
proof (induction e arbitrary: a)
  case (XStringLength n)
  then show ?case
    by (cases "or_null (fm_get fs n)") (auto simp: atomic_text_def)
next
  case (XLength e)
  then show ?case by (auto simp: atomic_text_def dest!: is_text_D)
next
  case (XLower e)
  then show ?case by (auto simp: atomic_text_def dest!: is_text_D)
next
  case (XUpper e)
  then show ?case by (auto simp: atomic_text_def dest!: is_text_D)
next
  case (XConcat es)
  then obtain as where a: "a = AtConcat as" and as: "list_all2 (\<lambda>e a. atomic_from_expr args e = Some a) es as"
    by (auto simp: mapO_list_all2)
  have ev: "\<exists>v. expr_eval x e fs args = Inr v \<and> v \<noteq> VNull \<and> value_display x v = concat_part x v"
    if "e \<in> set es" for e
    using XConcat.prems(1) that writes_itself_D by (auto simp: list_all_iff)
  have "list_all2 (\<lambda>e a. atomic_eval x r flt fs a = expr_eval x e fs args \<and>
      (\<exists>v. expr_eval x e fs args = Inr v \<and> v \<noteq> VNull)) es as"
    using as unfolding list_all2_conv_all_nth using XConcat ev [OF nth_mem] by (fastforce simp: list_all_length)
  then have u: "until_null (\<lambda>a. atomic_eval x r flt fs a) as = mapE (\<lambda>e. expr_eval x e fs args) es"
    by (rule until_null_mapE)
  obtain vs where vs: "mapE (\<lambda>e. expr_eval x e fs args) es = Inr vs"
    and vs': "\<forall>v \<in> set vs. v \<noteq> VNull \<and> value_display x v = concat_part x v"
    using ev by (induction es) force+
  show ?case using u vs atomic_concat_writes [OF vs', of "[]"] by (simp add: a)
next
  case (XCoalesce es)
  then obtain as where a: "a = AtCoalesce as" and as: "list_all2 (\<lambda>e a. atomic_from_expr args e = Some a) es as"
    by (auto simp: mapO_list_all2)
  have "list_all2 (\<lambda>a e. atomic_eval x r flt fs a = expr_eval x e fs args) as es"
    using as unfolding list_all2_conv_all_nth using XCoalesce by (auto simp: list_all_length)
  then show ?case by (simp add: a coalesceE_list_all2)
next
  case (XIfElse c t e)
  then show ?case by (auto simp: map2O_eq_Some bind_eq_Some_conv truth_iff cong: if_cong)
qed (auto simp: map2O_eq_Some arith_agrees order_agrees comparable_both both_not value_eq_def)



lemma mapO_None: "mapO f es = None \<longleftrightarrow> (\<exists>e \<in> set es. f e = None)"
  by (induction es) (auto split: option.splits)

lemma atomic_from_expr_None: "atomic_from_expr args e = None \<longleftrightarrow> is_custom e"
  by (induction e) (auto simp: map2O_def bind_eq_None_conv mapO_None list_ex_iff)

text \<open>
  Where something is nil or text is added, they differ: joining with a missing field gives
  the text in Rust and nil in the statement; adding texts joins them or gives nil; nil equals
  nil or is unknown.
\<close>

lemma atomic_from_expr_differs:
  shows "expr_eval x (XConcat [XField ''a'', XLitString ''b'']) [] [] = Inr (VString ''b'')"
    and "Option.bind (atomic_from_expr [] (XConcat [XField ''a'', XLitString ''b'']))
      (\<lambda>a. Some (atomic_eval x r flt [] a)) = Some (Inr VNull)"
    and "expr_eval x (XAdd (XLitString ''a'') (XLitString ''b'')) [] [] = Inr (VString ''ab'')"
    and "Option.bind (atomic_from_expr [] (XAdd (XLitString ''a'') (XLitString ''b'')))
      (\<lambda>a. Some (atomic_eval x r flt [] a)) = Some (Inr VNull)"
    and "expr_eval x (XEq XNull XNull) [] [] = Inr (VBool True)"
    and "Option.bind (atomic_from_expr [] (XEq XNull XNull))
      (\<lambda>a. Some (atomic_eval x r flt [] a)) = Some (Inr VNull)"
  by (simp_all add: or_null_def is_null_def both_def expr_add_def atomic_arith_def map2O_def
      atomic_compare_def bool_or_null_def)

section \<open>Applying an update\<close>

lemma update_value_of_set [simp]:
  "update_value_of (update_set u f e) f' = (if f' = f then e else update_value_of u f')"
proof -
  have "List.find (\<lambda>(name, _). name = f') (rev (filter (\<lambda>(name, _). name \<noteq> f) xs)) =
      List.find (\<lambda>(name, _). name = f') (rev xs)" if "f' \<noteq> f" for xs :: "(string \<times> atomic_expr) list"
    using that by (induction xs rule: rev_induct) auto
  then show ?thesis by (auto simp: update_value_of_def update_set_def)
qed

definition update_ok :: "atomic_update \<Rightarrow> bool" where
  "update_ok u \<longleftrightarrow> distinct (map fst (au_set u))"

lemma update_ok_empty [simp]: "update_ok empty_update"
  by (simp add: update_ok_def empty_update_def)

lemma update_ok_set [simp]: "update_ok u \<Longrightarrow> update_ok (update_set u f e)"
  by (auto simp: update_ok_def update_set_def distinct_map_filter)

lemma update_value_of_in: "update_ok u \<Longrightarrow> (f, e) \<in> set (au_set u) \<Longrightarrow> update_value_of u f = e"
proof -
  assume u: "update_ok u" "(f, e) \<in> set (au_set u)"
  obtain g e' where "List.find (\<lambda>(name, _). name = f) (rev (au_set u)) = Some (g, e')"
    using u(2) by (metis (mono_tags, lifting) case_prod_conv find_None_iff2 not_None_eq set_rev surj_pair)
  moreover from this have "(g, e') \<in> set (au_set u) \<and> g = f" by (auto dest!: find_SomeD)
  ultimately show ?thesis
    using u unfolding update_ok_def update_value_of_def by (auto dest: eq_key_imp_eq_value)
qed

lemma update_value_of_notin: "f \<notin> fst ` set (au_set u) \<Longrightarrow> update_value_of u f = AtField f"
proof -
  assume "f \<notin> fst ` set (au_set u)"
  then have "List.find (\<lambda>(name, _). name = f) (rev (au_set u)) = None"
    by (force simp: find_None_iff)
  then show ?thesis by (simp add: update_value_of_def)
qed

lemma check_conditions_Inr:
  "check_conditions x r flt row cs = Inr u \<longleftrightarrow>
   (\<forall>c \<in> set cs. \<exists>v. atomic_eval x r flt row (fails_when c) = Inr v \<and> v \<noteq> VBool True)"
  by (induction cs) (auto simp: bindE_eq_Inr split: if_splits)

lemma check_conditions_Inl:
  "check_conditions x r flt row cs = Inl e \<Longrightarrow>
   \<exists>c \<in> set cs. atomic_eval x r flt row (fails_when c) = Inl e \<or>
     atomic_eval x r flt row (fails_when c) = Inr (VBool True) \<and> e = condition_error c row"
  by (induction cs) (auto simp: bindE_eq_Inl split: if_splits)

lemma update_apply_conditions:
  "update_apply x r flt u row = Inr row' \<Longrightarrow> c \<in> set (au_conditions u) \<Longrightarrow>
   atomic_eval x r flt row (fails_when c) \<noteq> Inr (VBool True)"
  by (auto simp: update_apply_def bindE_eq_Inr check_conditions_Inr)

lemma update_apply_value:
  assumes "update_apply x r flt u row = Inr row'" "update_ok u"
  shows "atomic_eval x r flt row (update_value_of u f) = Inr (or_null (fm_get row' f))"
    and "f \<notin> fst ` set (au_set u) \<Longrightarrow> fm_get row' f = fm_get row f"
    and "f \<in> fst ` set (au_set u) \<Longrightarrow> fm_get row' f \<noteq> None"
proof -
  from assms(1) obtain vals where
    vals: "mapE (\<lambda>(name, e). bindE (atomic_eval x r flt row e) (\<lambda>v. Inr (name, v))) (au_set u) = Inr vals"
    and row': "row' = fm_extend row vals"
    by (auto simp: update_apply_def bindE_eq_Inr)
  have l: "list_all2 (\<lambda>(name, e) nv. \<exists>v. nv = (name, v) \<and> atomic_eval x r flt row e = Inr v) (au_set u) vals"
    using vals unfolding mapE_eq_Inr
    by (rule list_all2_mono) (auto simp: bindE_eq_Inr split: prod.splits)
  have names: "map fst vals = map fst (au_set u)"
    using l by (induction rule: list_all2_induct) auto
  then have ok: "fm_ok vals" using assms(2) by (simp add: fm_ok_def update_ok_def)
  have set: "\<exists>v. fm_get row' f = Some v \<and> atomic_eval x r flt row (update_value_of u f) = Inr v"
    if f: "f \<in> fst ` set (au_set u)"
  proof -
    obtain e where e: "(f, e) \<in> set (au_set u)" using f by force
    then obtain v where v: "(f, v) \<in> set vals" "atomic_eval x r flt row e = Inr v"
      using l by (fastforce simp: list_all2_conv_all_nth in_set_conv_nth)
    then have "fm_get vals f = Some v" using ok by (simp add: fm_get_in)
    then have "fm_get row' f = Some v" by (simp add: row' fm_get_extend ok)
    then show ?thesis using update_value_of_in [OF assms(2) e] v(2) by simp
  qed
  have unset: "fm_get row' f = fm_get row f" if "f \<notin> fst ` set (au_set u)"
  proof -
    have "f \<notin> fst ` set vals" using names that by (metis list.set_map)
    then show ?thesis by (simp add: row' fm_get_extend_notin)
  qed
  show "atomic_eval x r flt row (update_value_of u f) = Inr (or_null (fm_get row' f))"
  proof (cases "f \<in> fst ` set (au_set u)")
    case True
    then show ?thesis using set by (auto simp: or_null_def)
  next
    case False
    then show ?thesis using unset by (simp add: update_value_of_notin)
  qed
  show "f \<notin> fst ` set (au_set u) \<Longrightarrow> fm_get row' f = fm_get row f" by (rule unset)
  show "f \<in> fst ` set (au_set u) \<Longrightarrow> fm_get row' f \<noteq> None" using set by auto
qed

text \<open>
  C25: What an atomic update leaves in each field is what
  \<open>value_of\<close> said it would, every expression reading the record as it was before the update,
  and no condition holds of that record.
\<close>

theorem update_apply_fields:
  assumes "update_apply x r flt u row = Inr row'" "update_ok u"
  shows "atomic_eval x r flt row (update_value_of u f) = Inr (or_null (fm_get row' f)) \<and>
    (f \<notin> fst ` set (au_set u) \<longrightarrow> fm_get row' f = fm_get row f) \<and>
    (\<forall>c \<in> set (au_conditions u). atomic_eval x r flt row (fails_when c) \<noteq> Inr (VBool True))"
  using update_apply_value [OF assms, of f] update_apply_conditions [OF assms(1)] by blast

lemma update_apply_fields_witness:
  "atomic_eval sample_external sample_resource (\<lambda>_ _. False) [(''a'', VInt 2)]
     (update_value_of \<lparr>au_set = [(''b'', AtField ''a'')], au_conditions = []\<rparr> ''b'') =
   Inr (or_null (fm_get [(''a'', VInt 2), (''b'', VInt 2)] ''b''))"
  using update_apply_fields [of sample_external sample_resource "\<lambda>_ _. False"
      "\<lparr>au_set = [(''b'', AtField ''a'')], au_conditions = []\<rparr>" "[(''a'', VInt 2)]"
      "[(''a'', VInt 2), (''b'', VInt 2)]" "''b''"]
  by (simp add: update_apply_def update_ok_def fm_extend_def or_null_def)

end
