(* ===== verification/AshAction.thy ===== *)
theory AshAction
  imports AshAtomic
begin

text \<open>
  \<open>crates/ash-core/src/action.rs\<close>: what an action is built with, the defaults of its
  arguments, its optimistic locks, how a read pages, and the error each built-in validation
  fails with.
\<close>

section \<open>Building actions\<close>

definition base_action :: "action_kind \<Rightarrow> string \<Rightarrow> action_def" where
  "base_action kind name =
     \<lparr>act_name = name, act_kind = kind, act_accept = [], act_arguments = [], act_primary = False,
      act_changes = [], act_validations = [], act_preparations = [],
      act_persist = PersistDataLayer, act_soft = False, act_cascade_destroy = [],
      act_require_atomic = True, act_atomic_upgrade_with = None, act_pagination = None,
      act_returns = None, act_transaction = False, act_metadata = []\<rparr>"

definition create_action :: "string \<Rightarrow> action_def" where
  "create_action name = base_action Create name"

definition read_action_def :: "string \<Rightarrow> action_def" where
  "read_action_def name = base_action Read name"

definition update_action :: "string \<Rightarrow> action_def" where
  "update_action name = base_action Update name"

definition destroy_action :: "string \<Rightarrow> action_def" where
  "destroy_action name = base_action Destroy name"

definition generic_action :: "string \<Rightarrow> action_def" where
  "generic_action name = base_action Generic name"

fun kind_name :: "action_kind \<Rightarrow> string" where
  "kind_name Create = ''create''"
| "kind_name Read = ''read''"
| "kind_name Update = ''update''"
| "kind_name Destroy = ''destroy''"
| "kind_name Generic = ''generic''"

definition argument :: "action_def \<Rightarrow> string \<Rightarrow> argument_def option" where
  "argument a name = List.find (\<lambda>arg. arg_name arg = name) (act_arguments a)"

definition has_argument :: "action_def \<Rightarrow> string \<Rightarrow> bool" where
  "has_argument a name \<longleftrightarrow> argument a name \<noteq> None"

definition argument_new :: "string \<Rightarrow> attr_type \<Rightarrow> argument_def" where
  "argument_new name ty = \<lparr>arg_name = name, arg_ty = ty, arg_allow_nil = False, arg_default = None\<rparr>"

definition argument_optional :: "string \<Rightarrow> attr_type \<Rightarrow> argument_def" where
  "argument_optional name ty = \<lparr>arg_name = name, arg_ty = ty, arg_allow_nil = True, arg_default = None\<rparr>"

text \<open>A read's pages, with Ash's defaults.\<close>

definition keyset_pagination :: pagination_def where
  "keyset_pagination =
     \<lparr>pg_keyset = True, pg_offset = False, pg_countable = CountNo, pg_default_limit = None,
      pg_max_page_size = Some 250, pg_required = True\<rparr>"

definition offset_pagination :: pagination_def where
  "offset_pagination = keyset_pagination\<lparr>pg_keyset := False, pg_offset := True\<rparr>"

section \<open>Arguments and locks\<close>

definition apply_argument_defaults :: "argument_def list \<Rightarrow> fields \<Rightarrow> fields" where
  "apply_argument_defaults args input =
     fold (\<lambda>arg inp.
             (case arg_default arg of
                Some dflt \<Rightarrow>
                  if \<not> fm_contains inp (arg_name arg) then fm_insert (arg_name arg) (dflt ()) inp else inp
              | None \<Rightarrow> inp))
       args input"

definition optimistic_locks :: "action_def \<Rightarrow> string list" where
  "optimistic_locks a =
     List.map_filter (\<lambda>c. case c of OptimisticLock field \<Rightarrow> Some field | _ \<Rightarrow> None) (act_changes a)"

definition has_optimistic_lock :: "action_def \<Rightarrow> bool" where
  "has_optimistic_lock a \<longleftrightarrow> optimistic_locks a \<noteq> []"

lemma apply_argument_defaults_given:
  "fm_get input k = Some v \<Longrightarrow> fm_get (apply_argument_defaults args input) k = Some v"
  unfolding apply_argument_defaults_def
proof (induction args arbitrary: input)
  case (Cons a args)
  show ?case
    unfolding fold_simps by (rule Cons.IH) (use Cons.prems in \<open>auto simp: fm_contains_def split: option.split\<close>)
qed simp

lemma apply_argument_defaults_ok: "fm_ok input \<Longrightarrow> fm_ok (apply_argument_defaults args input)"
  unfolding apply_argument_defaults_def
  by (induction args arbitrary: input) (auto split: option.splits)

lemma apply_argument_defaults_other:
  "\<forall>a \<in> set args. arg_name a \<noteq> k \<Longrightarrow>
   fm_get (apply_argument_defaults args input) k = fm_get input k"
  unfolding apply_argument_defaults_def
  by (induction args arbitrary: input) (auto split: option.splits)

lemma apply_argument_defaults_default:
  assumes "arg \<in> set args" "arg_default arg = Some d"
  shows "fm_get (apply_argument_defaults args input) (arg_name arg) \<noteq> None"
  using assms
proof (induction args arbitrary: input)
  case (Cons a args)
  have step: "apply_argument_defaults (a # args) input =
      apply_argument_defaults args (apply_argument_defaults [a] input)"
    by (simp add: apply_argument_defaults_def)
  show ?case
  proof (cases "arg = a")
    case True
    then have "fm_get (apply_argument_defaults [a] input) (arg_name arg) \<noteq> None"
      using Cons.prems(2) by (auto simp: apply_argument_defaults_def fm_contains_def)
    then show ?thesis unfolding step using apply_argument_defaults_given by blast
  next
    case False
    then show ?thesis unfolding step using Cons by simp
  qed
qed simp

section \<open>The errors of built-in validations\<close>

definition text_value :: "string \<Rightarrow> Value" where
  "text_value s = VString s"

definition number_value :: "i64 option \<Rightarrow> Value" where
  "number_value n = (case n of Some n \<Rightarrow> VInt n | None \<Rightarrow> VNull)"

fun validation_error :: "validation \<Rightarrow> error option" where
  "validation_error (Present field) =
     Some (EValidation field ''must be present''
       [(''attributes'', VArray [text_value field]), (''exactly'', VInt 1),
        (''fields'', VArray [text_value field]), (''keys'', text_value field)])"
| "validation_error (StringLength field (Some lo) (Some hi)) =
     Some (EValidation field ''must have length of between %{min} and %{max}''
       [(''min'', VInt (word_of_nat lo)), (''max'', VInt (word_of_nat hi))])"
| "validation_error (StringLength field (Some lo) None) =
     Some (EValidation field ''must have length of at least %{min}'' [(''min'', VInt (word_of_nat lo))])"
| "validation_error (StringLength field None (Some hi)) =
     Some (EValidation field ''must have length of no more than %{max}'' [(''max'', VInt (word_of_nat hi))])"
| "validation_error (StringLength field None None) = None"
| "validation_error (OneOf field allowed) =
     Some (EValidation field ''expected one of %{values}''
       [(''values'', text_value (join_str '', '' allowed))])"
| "validation_error (Numericality field lo hi) =
     Some (EValidation field
       (join_str '' and ''
         ((if lo \<noteq> None then [''must be greater than or equal to %{greater_than_or_equal_to}''] else []) @
          (if hi \<noteq> None then [''must be less than or equal to %{less_than_or_equal_to}''] else [])))
       [(''greater_than'', VNull), (''less_than'', VNull),
        (''greater_than_or_equal_to'', number_value lo), (''less_than_or_equal_to'', number_value hi),
        (''is_equal'', VNull), (''is_not_equal'', VNull), (''is_nil'', VNull)])"
| "validation_error (CustomValidation _) = None"
| "validation_error (FuncValidation _) = None"

end
