(* ===== verification/AshResource.thy ===== *)
theory AshResource
  imports AshAction
begin

text \<open>
  \<open>crates/ash-core/src/resource.rs\<close>: a resource's identities and indexes within its tenants,
  the read it is read through, the filters that scope a read, the keys that link its
  relationships, and the constructors of attributes and relationships.
\<close>

section \<open>Domains\<close>

record domain_def =
  d_name :: string
  d_resources :: "resource_def list"

definition domain_resource :: "domain_def \<Rightarrow> string \<Rightarrow> resource_def option" where
  "domain_resource d name = List.find (\<lambda>r. r_name r = name) (d_resources d)"

definition domain_has_resource :: "domain_def \<Rightarrow> string \<Rightarrow> bool" where
  "domain_has_resource d name \<longleftrightarrow> domain_resource d name \<noteq> None"

text \<open>The destination a relationship points to is the one its name finds.\<close>

definition domain_validate :: "registry \<Rightarrow> domain_def \<Rightarrow> unit res" where
  "domain_validate reg d =
     foldE (\<lambda>_ r.
       foldE (\<lambda>_ rel.
         (case destination reg rel of
            Some dest \<Rightarrow>
              if r_name dest = [] then
                Inl (EInvalid (''relationship `'' @ rel_name rel @ ''` on `'' @ r_name r @
                  ''` has empty destination name''))
              else Inr ()
          | None \<Rightarrow> Inr ()))
         () (r_relationships r))
       () (d_resources d)"

section \<open>Identities and indexes\<close>

definition tenant_led :: "string list \<Rightarrow> multitenancy_def option \<Rightarrow> bool \<Rightarrow> string list" where
  "tenant_led keys mt all_tenants =
     (case mt of
        Some m \<Rightarrow>
          (case mt_strategy m of
             AttributeTenancy tenant \<Rightarrow>
               if \<not> all_tenants then tenant # filter (\<lambda>key. key \<noteq> tenant) keys else keys
           | ContextTenancy \<Rightarrow> keys)
      | None \<Rightarrow> keys)"

definition identity_columns :: "identity_def \<Rightarrow> multitenancy_def option \<Rightarrow> string list" where
  "identity_columns i mt = tenant_led (i_keys i) mt (i_all_tenants i)"

definition index_columns :: "index_def \<Rightarrow> multitenancy_def option \<Rightarrow> string list" where
  "index_columns i mt = tenant_led (ix_keys i) mt (ix_all_tenants i)"

definition identity_new :: "string \<Rightarrow> string list \<Rightarrow> identity_def" where
  "identity_new name keys =
     \<lparr>i_name = name, i_keys = keys, i_message = None, i_predicate = None, i_nils_distinct = True,
      i_all_tenants = False\<rparr>"

definition identity_with_message :: "string \<Rightarrow> string list \<Rightarrow> string \<Rightarrow> identity_def" where
  "identity_with_message name keys msg = (identity_new name keys)\<lparr>i_message := Some msg\<rparr>"

definition index_new :: "string \<Rightarrow> string list \<Rightarrow> index_def" where
  "index_new name keys =
     \<lparr>ix_name = name, ix_keys = keys, ix_predicate = None, ix_method = None, ix_include = [],
      ix_all_tenants = False\<rparr>"

definition multitenancy_attribute :: "string \<Rightarrow> multitenancy_def" where
  "multitenancy_attribute a = \<lparr>mt_strategy = AttributeTenancy a, mt_global = False\<rparr>"

definition multitenancy_context :: multitenancy_def where
  "multitenancy_context = \<lparr>mt_strategy = ContextTenancy, mt_global = False\<rparr>"

lemma tenant_led_set: "set keys \<subseteq> set (tenant_led keys mt all)"
  by (auto simp: tenant_led_def split: option.splits multitenancy_strategy.splits)

lemma tenant_led_distinct: "distinct keys \<Longrightarrow> distinct (tenant_led keys mt all)"
  by (auto simp: tenant_led_def split: option.splits multitenancy_strategy.splits)

text \<open>
  An identity of a resource with attribute multitenancy is
  unique within a tenant: its columns are its keys and the tenant attribute, the tenant
  first and each column once, unless it spans every tenant, when they are its keys as
  declared; other resources' identities are their keys.
\<close>

theorem identity_columns_tenant:
  assumes "distinct (i_keys i)"
  shows "distinct (identity_columns i mt) \<and> set (i_keys i) \<subseteq> set (identity_columns i mt) \<and>
    (case map_option mt_strategy mt of
       Some (AttributeTenancy tenant) \<Rightarrow>
         (if i_all_tenants i then identity_columns i mt = i_keys i
          else hd (identity_columns i mt) = tenant \<and>
            set (identity_columns i mt) = insert tenant (set (i_keys i)))
     | _ \<Rightarrow> identity_columns i mt = i_keys i)"
  using tenant_led_set [of "i_keys i" mt "i_all_tenants i"]
    tenant_led_distinct [OF assms, of mt "i_all_tenants i"]
  by (auto simp: identity_columns_def tenant_led_def
      split: option.splits multitenancy_strategy.splits)

lemma identity_columns_tenant_witness:
  "identity_columns (identity_new ''email'' [''email'', ''org'']) (Some (multitenancy_attribute ''org'')) =
     [''org'', ''email''] \<and>
   distinct (identity_columns (identity_new ''email'' [''email'', ''org'']) (Some (multitenancy_attribute ''org'')))"
  using identity_columns_tenant [of "identity_new ''email'' [''email'', ''org'']"
      "Some (multitenancy_attribute ''org'')"]
  by (simp add: identity_new_def multitenancy_attribute_def identity_columns_def tenant_led_def)

section \<open>Resources\<close>

definition table_name :: "resource_def \<Rightarrow> string" where
  "table_name r = (if r_table r = [] then r_name r else r_table r)"

definition is_embedded :: "resource_def \<Rightarrow> bool" where
  "is_embedded r \<longleftrightarrow> r_embedded r \<or> r_data_layer r = DlEmbedded"

definition primary_read :: "resource_def \<Rightarrow> action_def option" where
  "primary_read r =
     (case List.find (\<lambda>a. act_kind a = Read \<and> act_primary a) (r_actions r) of
        Some a \<Rightarrow> Some a
      | None \<Rightarrow> List.find (\<lambda>a. act_kind a = Read) (r_actions r))"

definition implicit_read :: action_def where
  "implicit_read =
     (read_action_def ''read'')\<lparr>act_pagination :=
        Some (keyset_pagination\<lparr>pg_offset := True, pg_countable := CountYes, pg_required := False\<rparr>)\<rparr>"

definition default_read :: "resource_def \<Rightarrow> action_def" where
  "default_read r = (case primary_read r of Some a \<Rightarrow> a | None \<Rightarrow> implicit_read)"

definition read_filter :: "action_def \<Rightarrow> Filter option" where
  "read_filter read =
     (let filters = List.map_filter (\<lambda>prep. case prep of PrepFilter build \<Rightarrow> Some (build ()) | _ \<Rightarrow> None)
                      (act_preparations read)
      in if filters = [] then None else Some (filter_and filters))"

definition primary_read_filter :: "resource_def \<Rightarrow> Filter option" where
  "primary_read_filter r = Option.bind (primary_read r) read_filter"

definition tenant_filter :: "resource_def \<Rightarrow> string option \<Rightarrow> Filter option" where
  "tenant_filter r tenant =
     (case r_multitenancy r of
        None \<Rightarrow> None
      | Some mt \<Rightarrow>
          (case (mt_strategy mt, tenant) of
             (AttributeTenancy a, Some t) \<Rightarrow> Some (FEq a (VString t))
           | _ \<Rightarrow> None))"

lemma default_read_kind: "act_kind (default_read r) = Read"
proof (cases "primary_read r")
  case None
  then show ?thesis by (simp add: default_read_def implicit_read_def read_action_def_def base_action_def)
next
  case (Some a)
  then show ?thesis
    by (auto simp: default_read_def primary_read_def split: option.splits dest: find_SomeD)
qed

section \<open>Attributes\<close>

definition attr_base :: "string \<Rightarrow> attr_type \<Rightarrow> attribute_def" where
  "attr_base name ty =
     \<lparr>a_name = name, a_ty = ty, a_primary_key = False, a_allow_nil = False, a_generated = False,
      a_default_fn = None\<rparr>"

definition uuid_pk :: "string \<Rightarrow> attribute_def" where
  "uuid_pk name = (attr_base name TUuid)\<lparr>a_primary_key := True, a_generated := True\<rparr>"

definition integer_pk :: "string \<Rightarrow> attribute_def" where
  "integer_pk name = (attr_base name TInteger)\<lparr>a_primary_key := True, a_generated := True\<rparr>"

definition assigned_on_insert :: "attribute_def \<Rightarrow> bool" where
  "assigned_on_insert a \<longleftrightarrow> a_primary_key a \<and> a_generated a \<and> a_ty a \<noteq> TUuid"

definition attr_pk :: "string \<Rightarrow> attr_type \<Rightarrow> attribute_def" where
  "attr_pk name ty = (attr_base name ty)\<lparr>a_primary_key := True\<rparr>"

definition attr_required :: "string \<Rightarrow> attr_type \<Rightarrow> attribute_def" where
  "attr_required name ty = attr_base name ty"

definition attr_optional :: "string \<Rightarrow> attr_type \<Rightarrow> attribute_def" where
  "attr_optional name ty = (attr_base name ty)\<lparr>a_allow_nil := True\<rparr>"

definition attr_generated :: "string \<Rightarrow> attr_type \<Rightarrow> attribute_def" where
  "attr_generated name ty = (attr_base name ty)\<lparr>a_generated := True\<rparr>"

definition attr_with_default :: "string \<Rightarrow> attr_type \<Rightarrow> (unit \<Rightarrow> Value) \<Rightarrow> attribute_def" where
  "attr_with_default name ty f = (attr_base name ty)\<lparr>a_default_fn := Some f\<rparr>"

definition type_fields :: "registry \<Rightarrow> attr_type \<Rightarrow> (string \<times> attr_type \<times> bool) list option" where
  "type_fields reg ty =
     (case ty of
        TEmbedded name \<Rightarrow>
          map_option (\<lambda>r. map (\<lambda>a. (a_name a, a_ty a, a_allow_nil a)) (r_attributes r))
            (resource_named reg name)
      | TTypedMap _ fs \<Rightarrow> Some fs
      | _ \<Rightarrow> None)"

section \<open>Relationships\<close>

definition key_values :: "fields \<Rightarrow> string list \<Rightarrow> Value list option" where
  "key_values fs columns = mapO (present fs) columns"

definition source_columns :: "relationship_def \<Rightarrow> string list" where
  "source_columns rel =
     (if rel_source_attributes rel = [] then [rel_source_attribute rel] else rel_source_attributes rel)"

definition destination_columns :: "relationship_def \<Rightarrow> string list" where
  "destination_columns rel =
     (if rel_destination_attributes rel = [] then [rel_destination_attribute rel]
      else rel_destination_attributes rel)"

definition key_pairs :: "relationship_def \<Rightarrow> (string \<times> string) list" where
  "key_pairs rel = zip (source_columns rel) (destination_columns rel)"

definition source_key :: "relationship_def \<Rightarrow> fields \<Rightarrow> Value list option" where
  "source_key rel source = key_values source (source_columns rel)"

definition destination_key :: "relationship_def \<Rightarrow> fields \<Rightarrow> Value list option" where
  "destination_key rel dest = key_values dest (destination_columns rel)"

definition destination_filter :: "relationship_def \<Rightarrow> fields \<Rightarrow> Filter option" where
  "destination_filter rel source =
     map_option (\<lambda>key. filter_and (map (\<lambda>(column, v). FEq column v) (zip (destination_columns rel) key)))
       (source_key rel source)"

definition with_keys :: "relationship_def \<Rightarrow> string list \<Rightarrow> string list \<Rightarrow> relationship_def" where
  "with_keys rel source dest =
     rel\<lparr>rel_source_attribute := (case source of s # _ \<Rightarrow> s | [] \<Rightarrow> rel_source_attribute rel),
         rel_destination_attribute := (case dest of d # _ \<Rightarrow> d | [] \<Rightarrow> rel_destination_attribute rel),
         rel_source_attributes := source,
         rel_destination_attributes := dest\<rparr>"

definition rel_base :: "rel_kind \<Rightarrow> string \<Rightarrow> string \<Rightarrow> string \<Rightarrow> string \<Rightarrow> relationship_def" where
  "rel_base kind name dest source_attribute destination_attribute =
     \<lparr>rel_name = name, rel_kind_of = kind, rel_destination = dest,
      rel_source_attribute = source_attribute, rel_destination_attribute = destination_attribute,
      rel_source_attributes = [], rel_destination_attributes = [], rel_through = None,
      rel_source_attribute_on_join = None, rel_destination_attribute_on_join = None,
      rel_on_delete = OnDeleteNothing, rel_on_update = OnUpdateNothing\<rparr>"

definition belongs_to :: "string \<Rightarrow> string \<Rightarrow> string \<Rightarrow> relationship_def" where
  "belongs_to name dest source_attribute = rel_base BelongsTo name dest source_attribute ''id''"

definition has_many :: "string \<Rightarrow> string \<Rightarrow> string \<Rightarrow> relationship_def" where
  "has_many name dest destination_attribute = rel_base HasMany name dest ''id'' destination_attribute"

definition has_one :: "string \<Rightarrow> string \<Rightarrow> string \<Rightarrow> relationship_def" where
  "has_one name dest destination_attribute = rel_base HasOne name dest ''id'' destination_attribute"

definition many_to_many :: "string \<Rightarrow> string \<Rightarrow> string \<Rightarrow> string \<Rightarrow> string \<Rightarrow> relationship_def" where
  "many_to_many name dest through source_on_join destination_on_join =
     (rel_base ManyToMany name dest ''id'' ''id'')
       \<lparr>rel_through := Some through, rel_source_attribute_on_join := Some source_on_join,
        rel_destination_attribute_on_join := Some destination_on_join\<rparr>"

lemma key_values_Some:
  "key_values fs cols = Some key \<longleftrightarrow> list_all2 (\<lambda>c v. fm_get fs c = Some v \<and> v \<noteq> VNull) cols key"
  by (simp add: key_values_def mapO_list_all2 present_iff)

lemma eq_filter_eval:
  "v \<noteq> VNull \<Longrightarrow> filter_eval x reg res fs (FEq c v) = Some True \<longleftrightarrow>
   (\<exists>w. fm_get fs c = Some w \<and> w \<noteq> VNull \<and> value_eq w v)"
  by (auto simp: is_null_def present_iff)



section \<open>The calendar date of a day\<close>

text \<open>
  \<open>utc_now_iso8601\<close> from the seconds since the epoch: the algorithm that turns a number of
  days into a date of the Gregorian calendar. The seconds are those of an unsigned clock, so
  every quotient is that of numbers that aren't negative.
\<close>

definition civil_from_days :: "nat \<Rightarrow> nat \<times> nat \<times> nat" where
  "civil_from_days total_days =
     (let z = total_days + 719468;
          era = z div 146097;
          doe = z - era * 146097;
          yoe = (doe - doe div 1460 + doe div 36524 - doe div 146096) div 365;
          y = yoe + era * 400;
          doy = doe - (365 * yoe + yoe div 4 - yoe div 100);
          mp = (5 * doy + 2) div 153;
          d = doy - (153 * mp + 2) div 5 + 1;
          m = (if mp < 10 then mp + 3 else mp - 9);
          y = (if m \<le> 2 then y + 1 else y)
      in (y, m, d))"

definition iso8601_of_seconds :: "nat \<Rightarrow> string" where
  "iso8601_of_seconds total_secs =
     (let sec = total_secs mod 60;
          total_mins = total_secs div 60;
          minute = total_mins mod 60;
          total_hours = total_mins div 60;
          hour = total_hours mod 24;
          total_days = total_hours div 24;
          (y, m, d) = civil_from_days total_days
      in pad_nat 4 y @ ''-'' @ pad_nat 2 m @ ''-'' @ pad_nat 2 d @ ''T'' @ pad_nat 2 hour @ '':'' @
         pad_nat 2 minute @ '':'' @ pad_nat 2 sec @ ''Z'')"

end
