(* ===== verification/AshPolicy.thy ===== *)
theory AshPolicy
  imports AshResource
begin

text \<open>
  \<open>crates/ash-core/src/policy.rs\<close>: what an actor may do. A policy's checks become a filter on
  records (for reads, and writes run as one statement) or are decided on one record (for
  writes that read it first, and for redaction); a client's filters and sorts are guarded so
  that a hidden field reads as null.

  \<open>check_to_filter\<close> and what is built on it never fail, so their results are given as they
  are; \<open>compile_read_filter\<close> and \<open>authorize_write\<close> fail with \<open>Forbidden\<close>.
\<close>

section \<open>Checks and effects\<close>

fun when_matches :: "policy_when \<Rightarrow> action_def \<Rightarrow> bool" where
  "when_matches WhenAlways a = True"
| "when_matches (WhenActionType kind) a = (act_kind a = kind)"
| "when_matches (WhenActionName name) a = (act_name a = name)"

definition policy_applies :: "policy_def \<Rightarrow> action_def \<Rightarrow> bool" where
  "policy_applies p a = when_matches (p_when p) a"

definition filter_of_bool :: "bool \<Rightarrow> Filter" where
  "filter_of_bool b = (if b then FTrue else FFalse)"

fun check_to_filter :: "actor option \<Rightarrow> check \<Rightarrow> Filter" where
  "check_to_filter actor CkAlways = FTrue"
| "check_to_filter actor CkActorPresent = filter_of_bool (actor \<noteq> None)"
| "check_to_filter actor (CkRelatesToActor field) =
     (case actor of Some a \<Rightarrow> FEq field (VUuid (actor_id a)) | None \<Rightarrow> FFalse)"
| "check_to_filter actor (CkActorAttributeEquals attr v) =
     filter_of_bool (case actor of Some a \<Rightarrow> attr_eq a attr v | None \<Rightarrow> False)"
| "check_to_filter actor (CkIsNil field) = FIsNil field"
| "check_to_filter actor (CkEq field v) = FEq field (value_from_const v)"
| "check_to_filter actor (CkAnd checks) = filter_and (map (\<lambda>c. check_to_filter actor c) checks)"
| "check_to_filter actor (CkOr checks) = filter_or (map (\<lambda>c. check_to_filter actor c) checks)"

definition eval_check :: "external \<Rightarrow> registry \<Rightarrow> actor option \<Rightarrow> fields option \<Rightarrow> check \<Rightarrow> bool" where
  "eval_check x reg actor record check =
     (let f = check_to_filter actor check
      in case record of Some fs \<Rightarrow> matches x reg f fs | None \<Rightarrow> f = FTrue)"

fun effect_check :: "policy_effect \<Rightarrow> check" where
  "effect_check (AuthorizeIf c) = c"
| "effect_check (AuthorizeUnless c) = c"
| "effect_check (ForbidIf c) = c"
| "effect_check (ForbidUnless c) = c"

text \<open>The filters of the effects that forbid and of those that authorize, in order.\<close>

fun effect_filters :: "actor option \<Rightarrow> policy_effect list \<Rightarrow> Filter list \<times> Filter list" where
  "effect_filters actor [] = ([], [])"
| "effect_filters actor (e # es) =
     (let (forbids, authorizes) = effect_filters actor es;
          f = check_to_filter actor (effect_check e)
      in case e of
           ForbidIf _ \<Rightarrow> (filter_not f # forbids, authorizes)
         | ForbidUnless _ \<Rightarrow> (f # forbids, authorizes)
         | AuthorizeIf _ \<Rightarrow> (forbids, f # authorizes)
         | AuthorizeUnless _ \<Rightarrow> (forbids, filter_not f # authorizes))"

definition effects_to_filter :: "actor option \<Rightarrow> policy_effect list \<Rightarrow> Filter" where
  "effects_to_filter actor effects =
     (let (forbids, authorizes) = effect_filters actor effects;
          auth_filter = (if authorizes = [] then FTrue else filter_or authorizes)
      in if forbids = [] then auth_filter else filter_and (forbids @ [auth_filter]))"

definition eval_policy_effects ::
    "external \<Rightarrow> registry \<Rightarrow> actor option \<Rightarrow> fields option \<Rightarrow> policy_effect list \<Rightarrow> bool" where
  "eval_policy_effects x reg actor record effects =
     (let holds = eval_check x reg actor record;
          forbidden = list_ex (\<lambda>e. case e of
              ForbidIf c \<Rightarrow> holds c | ForbidUnless c \<Rightarrow> \<not> holds c | _ \<Rightarrow> False) effects;
          authorized = list_ex (\<lambda>e. case e of
              AuthorizeIf c \<Rightarrow> holds c | AuthorizeUnless c \<Rightarrow> \<not> holds c | _ \<Rightarrow> False) effects;
          has_authorizes = list_ex (\<lambda>e. case e of
              AuthorizeIf _ \<Rightarrow> True | AuthorizeUnless _ \<Rightarrow> True | _ \<Rightarrow> False) effects
      in if forbidden then False else if authorized then True else \<not> has_authorizes)"

definition eval_policy :: "external \<Rightarrow> registry \<Rightarrow> actor option \<Rightarrow> fields option \<Rightarrow> policy_def \<Rightarrow> bool" where
  "eval_policy x reg actor record p = eval_policy_effects x reg actor record (p_checks p)"

definition policy_to_filter :: "actor option \<Rightarrow> policy_def \<Rightarrow> Filter" where
  "policy_to_filter actor p = effects_to_filter actor (p_checks p)"

section \<open>Reads and writes\<close>

definition applicable :: "resource_def \<Rightarrow> action_def \<Rightarrow> policy_def list" where
  "applicable r a = filter (\<lambda>p. policy_applies p a) (r_policies r)"

definition compile_read_filter :: "resource_def \<Rightarrow> action_def \<Rightarrow> actor option \<Rightarrow> Filter option res" where
  "compile_read_filter r a actor =
     (if r_policies r = [] then Inr None
      else if applicable r a = [] then Inl EForbidden
      else let bypass = filter p_bypass (applicable r a);
               normal = filter (\<lambda>p. \<not> p_bypass p) (applicable r a);
               bypass_filters = map (policy_to_filter actor) bypass
           in if FTrue \<in> set bypass_filters then Inr None
              else if normal = [] then
                (if bypass_filters = [] then Inl EForbidden else Inr (Some (filter_or bypass_filters)))
              else let normal_filter = filter_and (map (policy_to_filter actor) normal)
                   in if bypass_filters = [] then Inr (Some normal_filter)
                      else Inr (Some (filter_or [filter_or bypass_filters, normal_filter])))"

definition authorize_write ::
    "external \<Rightarrow> registry \<Rightarrow> resource_def \<Rightarrow> action_def \<Rightarrow> actor option \<Rightarrow> fields option \<Rightarrow> unit res" where
  "authorize_write x reg r a actor record =
     (if r_policies r = [] then Inr ()
      else if applicable r a = [] then Inl EForbidden
      else let bypass = filter p_bypass (applicable r a);
               normal = filter (\<lambda>p. \<not> p_bypass p) (applicable r a)
           in if list_ex (eval_policy x reg actor record) bypass then Inr ()
              else if normal = [] then Inl EForbidden
              else if list_all (eval_policy x reg actor record) normal then Inr ()
              else Inl EForbidden)"

definition write_filter :: "resource_def \<Rightarrow> action_def \<Rightarrow> actor option \<Rightarrow> Filter" where
  "write_filter r a actor =
     (if r_policies r = [] then FTrue
      else if applicable r a = [] then FFalse
      else let bypass = map (policy_to_filter actor) (filter p_bypass (applicable r a));
               normal_policies = filter (\<lambda>p. \<not> p_bypass p) (applicable r a);
               normal = (if normal_policies = [] then FFalse
                         else filter_and (map (policy_to_filter actor) normal_policies))
           in if bypass = [] then normal else filter_or (bypass @ [normal]))"

section \<open>Fields\<close>

fun check_fields :: "check \<Rightarrow> string list" where
  "check_fields (CkRelatesToActor field) = [field]"
| "check_fields (CkIsNil field) = [field]"
| "check_fields (CkEq field _) = [field]"
| "check_fields (CkAnd checks) = concat (map check_fields checks)"
| "check_fields (CkOr checks) = concat (map check_fields checks)"
| "check_fields _ = []"

definition field_policy_fields :: "resource_def \<Rightarrow> string list" where
  "field_policy_fields r =
     concat (map (\<lambda>p. concat (map (\<lambda>e. check_fields (effect_check e)) (fp_checks p))) (r_field_policies r))"

definition hidden_fields :: "external \<Rightarrow> registry \<Rightarrow> resource_def \<Rightarrow> actor option \<Rightarrow> fields \<Rightarrow> string list" where
  "hidden_fields x reg r actor record =
     map fp_field (filter (\<lambda>fp. \<not> eval_policy_effects x reg actor (Some record) (fp_checks fp))
       (r_field_policies r))"

definition redact_fields :: "external \<Rightarrow> registry \<Rightarrow> resource_def \<Rightarrow> actor option \<Rightarrow> fields \<Rightarrow> fields" where
  "redact_fields x reg r actor fs =
     fold (\<lambda>field acc. fm_insert field VNull acc) (hidden_fields x reg r actor fs) fs"

definition field_condition :: "resource_def \<Rightarrow> string \<Rightarrow> actor option \<Rightarrow> Filter option" where
  "field_condition r field actor =
     (if (case primary_key r of Some pk \<Rightarrow> a_name pk = field | None \<Rightarrow> False) then None
      else let conditions = map (\<lambda>p. effects_to_filter actor (fp_checks p))
                              (filter (\<lambda>p. fp_field p = field) (r_field_policies r))
           in case filter_and conditions of FTrue \<Rightarrow> None | condition \<Rightarrow> Some condition)"

definition readable_condition :: "resource_def \<Rightarrow> string list \<Rightarrow> actor option \<Rightarrow> Filter option" where
  "readable_condition r fields' actor =
     (case filter_and (List.map_filter (\<lambda>f. field_condition r f actor) fields') of
        FTrue \<Rightarrow> None | condition \<Rightarrow> Some condition)"

text \<open>The guard of a filter that compares one field.\<close>

definition is_nil_filter :: "Filter \<Rightarrow> bool" where
  "is_nil_filter f = (case f of FIsNil _ \<Rightarrow> True | _ \<Rightarrow> False)"

definition guard_leaf :: "resource_def \<Rightarrow> actor option \<Rightarrow> bool \<Rightarrow> Filter \<Rightarrow> Filter" where
  "guard_leaf r actor positive leaf =
     (case (case collect_fields leaf of field # _ \<Rightarrow> field_condition r field actor | [] \<Rightarrow> None) of
        None \<Rightarrow> leaf
      | Some condition \<Rightarrow>
          if is_nil_filter leaf then filter_or [filter_not condition, leaf]
          else if positive then filter_and [condition, leaf]
          else filter_or [filter_not condition, leaf])"

fun guard_filter :: "registry \<Rightarrow> actor option \<Rightarrow> resource_def \<Rightarrow> Filter \<Rightarrow> bool \<Rightarrow> Filter res" where
  "guard_filter reg actor r FTrue positive = Inr FTrue"
| "guard_filter reg actor r FFalse positive = Inr FFalse"
| "guard_filter reg actor r (FAnd parts) positive =
     bindE (mapE (\<lambda>p. guard_filter reg actor r p positive) parts) (\<lambda>ps. Inr (filter_and ps))"
| "guard_filter reg actor r (FOr parts) positive =
     bindE (mapE (\<lambda>p. guard_filter reg actor r p positive) parts) (\<lambda>ps. Inr (filter_or ps))"
| "guard_filter reg actor r (FNot inner) positive =
     bindE (guard_filter reg actor r inner (\<not> positive)) (\<lambda>f. Inr (filter_not f))"
| "guard_filter reg actor r (FRelated rel f) positive =
     (case relationship r rel of
        None \<Rightarrow> Inr (FRelated rel f)
      | Some rl \<Rightarrow>
          (case destination reg rl of
             None \<Rightarrow> Inl (EPanic ''unresolved relationship'')
           | Some dest \<Rightarrow>
               bindE (guard_filter reg actor dest f positive) (\<lambda>inner.
                 case compile_read_filter dest (default_read dest) actor of
                   Inr None \<Rightarrow> Inr (FRelated rel inner)
                 | Inr (Some policy) \<Rightarrow> Inr (FRelated rel (filter_and [inner, policy]))
                 | Inl EForbidden \<Rightarrow> Inr (FRelated rel FFalse)
                 | Inl err \<Rightarrow> Inl err)))"
| "guard_filter reg actor r leaf positive = Inr (guard_leaf r actor positive leaf)"

definition guard_input_filter :: "registry \<Rightarrow> resource_def \<Rightarrow> actor option \<Rightarrow> Filter \<Rightarrow> Filter res" where
  "guard_input_filter reg r actor f = guard_filter reg actor r f True"

definition guard_input_sort :: "resource_def \<Rightarrow> actor option \<Rightarrow> sort_def list \<Rightarrow> sort_def list" where
  "guard_input_sort r actor sorts =
     map (\<lambda>s. s\<lparr>s_guard := field_condition r (s_field s) actor\<rparr>) sorts"

end
