(* ===== verification/AshPolicyFacts.thy ===== *)
theory AshPolicyFacts
  imports AshPolicy
begin

text \<open>
  What policies promise: the filter a policy becomes admits only records its checks allow,
  and exactly those where every check is known; a read's filter, a write's filter and the
  decision on one record agree; redaction nulls the hidden fields and no other; and a
  client's filter, guarded, tells nothing about a field the actor can't see.
\<close>

section \<open>The filter of a list of effects\<close>

lemma check_eval_agree:
  assumes "\<And>f. f \<in> set (check_fields c) \<Longrightarrow> fm_get fs f = fm_get fs' f"
  shows "filter_eval x reg res fs (check_to_filter actor c) =
    filter_eval x reg res' fs' (check_to_filter actor c)"
  using assms
proof (induction c)
  case (CkAnd cs)
  have "map (\<lambda>c. filter_eval x reg res fs (check_to_filter actor c)) cs =
      map (\<lambda>c. filter_eval x reg res' fs' (check_to_filter actor c)) cs"
    using CkAnd by (intro map_cong refl CkAnd.IH) auto
  then show ?case by (simp only: check_to_filter.simps eval_filter_and map_map comp_def)
next
  case (CkOr cs)
  have "map (\<lambda>c. filter_eval x reg res fs (check_to_filter actor c)) cs =
      map (\<lambda>c. filter_eval x reg res' fs' (check_to_filter actor c)) cs"
    using CkOr by (intro map_cong refl CkOr.IH) auto
  then show ?case by (simp only: check_to_filter.simps eval_filter_or map_map comp_def)
qed (simp_all add: filter_of_bool_def present_def split: option.split)

text \<open>What each effect says, as the filter tells it: whether it lets the record through.\<close>

fun is_forbid :: "policy_effect \<Rightarrow> bool" where
  "is_forbid (ForbidIf _) = True"
| "is_forbid (ForbidUnless _) = True"
| "is_forbid _ = False"

fun effect_value :: "(check \<Rightarrow> bool option) \<Rightarrow> policy_effect \<Rightarrow> bool option" where
  "effect_value v (AuthorizeIf c) = v c"
| "effect_value v (AuthorizeUnless c) = map_option Not (v c)"
| "effect_value v (ForbidIf c) = map_option Not (v c)"
| "effect_value v (ForbidUnless c) = v c"

definition check_value :: "external \<Rightarrow> registry \<Rightarrow> actor option \<Rightarrow> fields \<Rightarrow> check \<Rightarrow> bool option" where
  "check_value x reg actor fs c = filter_eval x reg None fs (check_to_filter actor c)"

lemma check_value_any: "filter_eval x reg res fs (check_to_filter actor c) = check_value x reg actor fs c"
  unfolding check_value_def by (rule check_eval_agree) simp

lemma effect_filters_eval:
  "map (filter_eval x reg res fs) (fst (effect_filters actor es)) =
     map (effect_value (check_value x reg actor fs)) (filter is_forbid es) \<and>
   map (filter_eval x reg res fs) (snd (effect_filters actor es)) =
     map (effect_value (check_value x reg actor fs)) (filter (\<lambda>e. \<not> is_forbid e) es)"
proof (induction es)
  case (Cons e es)
  then show ?case
    by (cases e) (auto simp: Let_def case_prod_unfold check_value_any eval_filter_not)
qed simp

lemma effects_to_filter_eval:
  "filter_eval x reg res fs (effects_to_filter actor es) =
     all_of (map (effect_value (check_value x reg actor fs)) (filter is_forbid es) @
       [if filter (\<lambda>e. \<not> is_forbid e) es = [] then Some True
        else any_of (map (effect_value (check_value x reg actor fs)) (filter (\<lambda>e. \<not> is_forbid e) es))])"
proof -
  let ?v = "effect_value (check_value x reg actor fs)"
  obtain fo au where ef: "effect_filters actor es = (fo, au)" by (cases "effect_filters actor es")
  have fo: "map (filter_eval x reg res fs) fo = map ?v (filter is_forbid es)"
    and au: "map (filter_eval x reg res fs) au = map ?v (filter (\<lambda>e. \<not> is_forbid e) es)"
    using effect_filters_eval [of x reg res fs actor es] by (simp_all add: ef)
  have nf: "fo = [] \<longleftrightarrow> filter is_forbid es = []" and na: "au = [] \<longleftrightarrow> filter (\<lambda>e. \<not> is_forbid e) es = []"
    using fo au by (metis map_is_Nil_conv)+
  show ?thesis
    unfolding effects_to_filter_def ef Let_def case_prod_conv nf na
    by (simp add: eval_filter_and eval_filter_or fo au)
qed

lemma effects_eval:
  "eval_policy_effects x reg actor (Some fs) es \<longleftrightarrow>
   (let holds = (\<lambda>c. Some (check_value x reg actor fs c = Some True)) in
    (\<forall>e \<in> set es. is_forbid e \<longrightarrow> effect_value holds e = Some True) \<and>
    ((\<exists>e \<in> set es. \<not> is_forbid e \<and> effect_value holds e = Some True) \<or> (\<forall>e \<in> set es. is_forbid e)))"
proof -
  have h: "eval_check x reg actor (Some fs) c \<longleftrightarrow> check_value x reg actor fs c = Some True" for c
    by (simp add: eval_check_def matches_def check_value_def)
  let ?holds = "\<lambda>c. Some (check_value x reg actor fs c = Some True)"
  have 1: "list_ex (\<lambda>e. case e of ForbidIf c \<Rightarrow> eval_check x reg actor (Some fs) c
        | ForbidUnless c \<Rightarrow> \<not> eval_check x reg actor (Some fs) c | _ \<Rightarrow> False) es \<longleftrightarrow>
      (\<exists>e \<in> set es. is_forbid e \<and> effect_value ?holds e \<noteq> Some True)"
    unfolding list_ex_iff h by (rule bex_cong [OF refl]) (auto split: policy_effect.splits)
  have 2: "list_ex (\<lambda>e. case e of AuthorizeIf c \<Rightarrow> eval_check x reg actor (Some fs) c
        | AuthorizeUnless c \<Rightarrow> \<not> eval_check x reg actor (Some fs) c | _ \<Rightarrow> False) es \<longleftrightarrow>
      (\<exists>e \<in> set es. \<not> is_forbid e \<and> effect_value ?holds e = Some True)"
    unfolding list_ex_iff h by (rule bex_cong [OF refl]) (auto split: policy_effect.splits)
  have 3: "list_ex (\<lambda>e. case e of AuthorizeIf _ \<Rightarrow> True | AuthorizeUnless _ \<Rightarrow> True | _ \<Rightarrow> False) es \<longleftrightarrow>
      (\<exists>e \<in> set es. \<not> is_forbid e)"
    unfolding list_ex_iff by (rule bex_cong [OF refl]) (auto split: policy_effect.splits)
  show ?thesis
    unfolding eval_policy_effects_def Let_def 1 2 3 by auto
qed

lemma effect_value_sound:
  "effect_value v e = Some True \<Longrightarrow> effect_value (\<lambda>c. Some (v c = Some True)) e = Some True"
  by (cases e) auto

lemma effect_value_known:
  "v (effect_check e) \<noteq> None \<Longrightarrow> effect_value (\<lambda>c. Some (v c = Some True)) e = effect_value v e"
  by (cases e) auto

lemma all_of_known: "None \<notin> set rs \<Longrightarrow> all_of rs \<noteq> None"
  by (auto simp: all_of_eq)

lemma any_of_known: "None \<notin> set rs \<Longrightarrow> any_of rs \<noteq> None"
  by (auto simp: any_of_eq)

lemma effects_sound:
  assumes "filter_eval x reg res fs (effects_to_filter actor es) = Some True"
  shows "eval_policy_effects x reg actor (Some fs) es"
proof -
  note a = assms [unfolded effects_to_filter_eval all_of_True]
  have "effect_value (check_value x reg actor fs) e = Some True" if "e \<in> set es" "is_forbid e" for e
    using a that by auto
  moreover have "(\<exists>e \<in> set es. \<not> is_forbid e \<and> effect_value (check_value x reg actor fs) e = Some True) \<or>
      (\<forall>e \<in> set es. is_forbid e)"
    using a by (auto simp: any_of_True filter_empty_conv split: if_splits)
  ultimately show ?thesis
    unfolding effects_eval Let_def using effect_value_sound by blast
qed

lemma effects_known:
  assumes "\<And>e. e \<in> set es \<Longrightarrow> check_value x reg actor fs (effect_check e) \<noteq> None"
  shows "filter_eval x reg res fs (effects_to_filter actor es) =
    Some (eval_policy_effects x reg actor (Some fs) es)"
proof -
  let ?v = "effect_value (check_value x reg actor fs)"
  have k: "?v e \<noteq> None" if "e \<in> set es" for e using assms [OF that] by (cases e) auto
  have n: "filter_eval x reg res fs (effects_to_filter actor es) \<noteq> None"
  proof -
    have "any_of (map ?v (filter (\<lambda>e. \<not> is_forbid e) es)) \<noteq> None"
      by (rule any_of_known) (use k in force)
    moreover have "None \<notin> set (map ?v (filter is_forbid es))" using k by force
    ultimately show ?thesis unfolding effects_to_filter_eval by (intro all_of_known) auto
  qed
  have e: "effect_value (\<lambda>c. Some (check_value x reg actor fs c = Some True)) e = ?v e" if "e \<in> set es" for e
    by (rule effect_value_known) (rule assms [OF that])
  have "filter_eval x reg res fs (effects_to_filter actor es) = Some True"
    if "eval_policy_effects x reg actor (Some fs) es"
    using that unfolding effects_eval Let_def effects_to_filter_eval all_of_True
    by (auto simp: e any_of_True image_iff)
  then show ?thesis using n effects_sound [of x reg res fs actor es] by (cases "eval_policy_effects x reg actor (Some fs) es") (auto simp: bool_option_False)
qed

text \<open>
  C10: The filter a policy's checks become lets through only records the
  checks allow one by one, and where every check is known of a record it decides exactly as
  they do: a null that leaves a check unknown can only deny.
\<close>

theorem policy_filter_sound:
  "(filter_eval x reg res fs (policy_to_filter actor p) = Some True \<longrightarrow> eval_policy x reg actor (Some fs) p) \<and>
   ((\<forall>e \<in> set (p_checks p). filter_eval x reg res fs (check_to_filter actor (effect_check e)) \<noteq> None) \<longrightarrow>
    filter_eval x reg res fs (policy_to_filter actor p) = Some (eval_policy x reg actor (Some fs) p))"
  unfolding policy_to_filter_def eval_policy_def check_value_any
  using effects_sound effects_known by blast

lemma policy_filter_sound_witness:
  "filter_eval sample_external [] None [(''owner'', VNull)]
     (policy_to_filter (Some (new_actor 7)) \<lparr>p_bypass = False, p_when = WhenAlways,
        p_checks = [ForbidIf (CkIsNil ''owner''), AuthorizeIf (CkRelatesToActor ''owner'')]\<rparr>) \<noteq> Some True \<and>
   filter_eval sample_external [] None [(''owner'', VUuid 7)]
     (policy_to_filter (Some (new_actor 7)) \<lparr>p_bypass = False, p_when = WhenAlways,
        p_checks = [ForbidIf (CkIsNil ''owner''), AuthorizeIf (CkRelatesToActor ''owner'')]\<rparr>) = Some True"
  (is "?a \<and> ?b")
proof
  let ?p = "\<lparr>p_bypass = False, p_when = WhenAlways,
    p_checks = [ForbidIf (CkIsNil ''owner''), AuthorizeIf (CkRelatesToActor ''owner'')]\<rparr>"
  have "\<not> eval_policy sample_external [] (Some (new_actor 7)) (Some [(''owner'', VNull)]) ?p"
    by code_simp
  then show ?a using policy_filter_sound by blast
  have "eval_policy sample_external [] (Some (new_actor 7)) (Some [(''owner'', VUuid 7)]) ?p"
    by code_simp
  moreover have "\<forall>e \<in> set (p_checks ?p). filter_eval sample_external [] None [(''owner'', VUuid 7)]
      (check_to_filter (Some (new_actor 7)) (effect_check e)) \<noteq> None"
    by (auto simp: present_def is_null_def)
  ultimately show ?b using policy_filter_sound by metis
qed

section \<open>Reads and writes decide alike\<close>

lemma filter_policies_sound:
  assumes "\<And>p. p \<in> set ps \<Longrightarrow> filter_eval x reg res fs (policy_to_filter actor p) = Some True \<Longrightarrow>
      eval_policy x reg actor (Some fs) p"
  shows "any_of (map (filter_eval x reg res fs) (map (policy_to_filter actor) ps)) = Some True \<Longrightarrow>
      list_ex (eval_policy x reg actor (Some fs)) ps"
    and "all_of (map (filter_eval x reg res fs) (map (policy_to_filter actor) ps)) = Some True \<Longrightarrow>
      list_all (eval_policy x reg actor (Some fs)) ps"
  using assms by (simp_all add: any_of_True all_of_True list_ex_iff list_all_iff image_iff) metis+

lemma write_filter_eval:
  assumes "r_policies r \<noteq> []" "applicable r a \<noteq> []"
  shows "filter_eval x reg res fs (write_filter r a actor) =
    any_of (map (filter_eval x reg res fs) (map (policy_to_filter actor) (filter p_bypass (applicable r a))) @
      [if filter (\<lambda>p. \<not> p_bypass p) (applicable r a) = [] then Some False
       else all_of (map (filter_eval x reg res fs)
         (map (policy_to_filter actor) (filter (\<lambda>p. \<not> p_bypass p) (applicable r a))))])"
proof (cases "filter p_bypass (applicable r a) = []")
  case True
  then show ?thesis using assms by (simp add: write_filter_def eval_filter_and)
next
  case False
  then have "map (policy_to_filter actor) (filter p_bypass (applicable r a)) \<noteq> []" by simp
  then show ?thesis
    using assms unfolding write_filter_def Let_def
    by (simp only: if_False eval_filter_or map_append list.map)
      (simp add: eval_filter_and)
qed

lemma all_of_map_Some: "all_of (map (\<lambda>p. Some (P p)) ps) = Some (list_all P ps)"
  by (induction ps) (auto simp: all_of_eq)

lemma any_of_map_Some: "any_of (map (\<lambda>p. Some (P p)) ps) = Some (list_ex P ps)"
  by (induction ps) (auto simp: any_of_eq)

definition policies_known :: "external \<Rightarrow> registry \<Rightarrow> actor option \<Rightarrow> fields \<Rightarrow> resource_def \<Rightarrow> bool" where
  "policies_known x reg actor fs r \<longleftrightarrow>
     (\<forall>p \<in> set (r_policies r). \<forall>e \<in> set (p_checks p).
        filter_eval x reg None fs (check_to_filter actor (effect_check e)) \<noteq> None)"

lemma write_filter_sound:
  assumes "filter_eval x reg res fs (write_filter r a actor) = Some True"
  shows "authorize_write x reg r a actor (Some fs) = Inr ()"
proof (cases "r_policies r = [] \<or> applicable r a = []")
  case True
  then show ?thesis using assms by (auto simp: write_filter_def authorize_write_def split: if_splits)
next
  case False
  have s: "filter_eval x reg res fs (policy_to_filter actor p) = Some True \<Longrightarrow> eval_policy x reg actor (Some fs) p" for p
    unfolding policy_to_filter_def eval_policy_def by (rule effects_sound)
  have "any_of (map (filter_eval x reg res fs) (map (policy_to_filter actor) (filter p_bypass (applicable r a)))) = Some True \<or>
      filter (\<lambda>p. \<not> p_bypass p) (applicable r a) \<noteq> [] \<and>
      all_of (map (filter_eval x reg res fs)
         (map (policy_to_filter actor) (filter (\<lambda>p. \<not> p_bypass p) (applicable r a)))) = Some True"
    using assms False by (subst (asm) write_filter_eval) (auto simp: any_of_True split: if_splits)
  then have "list_ex (eval_policy x reg actor (Some fs)) (filter p_bypass (applicable r a)) \<or>
      filter (\<lambda>p. \<not> p_bypass p) (applicable r a) \<noteq> [] \<and>
      list_all (eval_policy x reg actor (Some fs)) (filter (\<lambda>p. \<not> p_bypass p) (applicable r a))"
    using filter_policies_sound [OF s] by blast
  then show ?thesis using False unfolding authorize_write_def Let_def by auto
qed

lemma write_filter_known:
  assumes "policies_known x reg actor fs r"
  shows "filter_eval x reg res fs (write_filter r a actor) =
    Some (authorize_write x reg r a actor (Some fs) = Inr ())"
proof (cases "r_policies r = [] \<or> applicable r a = []")
  case True
  then show ?thesis by (auto simp: write_filter_def authorize_write_def)
next
  case False
  have k: "filter_eval x reg res fs (policy_to_filter actor p) = Some (eval_policy x reg actor (Some fs) p)"
    if "p \<in> set (applicable r a)" for p
    unfolding policy_to_filter_def eval_policy_def
    using that assms
    by (intro effects_known) (auto simp: applicable_def policies_known_def check_value_def)
  have m: "map (filter_eval x reg res fs) (map (policy_to_filter actor) (filter Q (applicable r a))) =
      map (\<lambda>p. Some (eval_policy x reg actor (Some fs) p)) (filter Q (applicable r a))" for Q
    using k by (simp only: map_map comp_def) auto
  have "filter_eval x reg res fs (write_filter r a actor) =
      any_of [Some (list_ex (eval_policy x reg actor (Some fs)) (filter p_bypass (applicable r a))),
        if filter (\<lambda>p. \<not> p_bypass p) (applicable r a) = [] then Some False
        else Some (list_all (eval_policy x reg actor (Some fs)) (filter (\<lambda>p. \<not> p_bypass p) (applicable r a)))]"
  proof -
    have "r_policies r \<noteq> []" "applicable r a \<noteq> []" using False by simp_all
    then show ?thesis
      by (simp only: write_filter_eval m all_of_map_Some any_of_append any_of_map_Some any_of_single simp_thms)
  qed
  then show ?thesis using False unfolding authorize_write_def Let_def by (simp add: any_of_eq)
qed

lemma read_filter_agrees:
  "case compile_read_filter r a actor of
     Inl e \<Rightarrow> e = EForbidden \<and> filter_eval x reg res fs (write_filter r a actor) = Some False
   | Inr None \<Rightarrow> filter_eval x reg res fs (write_filter r a actor) = Some True
   | Inr (Some f) \<Rightarrow> filter_eval x reg res fs f = filter_eval x reg res fs (write_filter r a actor)"
proof (cases "r_policies r = [] \<or> applicable r a = []")
  case True
  then show ?thesis by (auto simp: write_filter_def compile_read_filter_def)
next
  case False
  let ?B = "map (policy_to_filter actor) (filter p_bypass (applicable r a))"
  let ?N = "filter (\<lambda>p. \<not> p_bypass p) (applicable r a)"
  have w: "filter_eval x reg res fs (write_filter r a actor) =
    any_of (map (filter_eval x reg res fs) ?B @
      [if ?N = [] then Some False else all_of (map (filter_eval x reg res fs) (map (policy_to_filter actor) ?N))])"
    using False by (intro write_filter_eval) simp_all
  show ?thesis
  proof (cases "FTrue \<in> set ?B")
    case True
    then have "Some True \<in> set (map (filter_eval x reg res fs) ?B)" by (metis (no_types) filter_eval.simps(1) image_eqI set_map)
    then have "filter_eval x reg res fs (write_filter r a actor) = Some True"
      unfolding w by (simp add: any_of_True)
    then show ?thesis using True False by (simp add: compile_read_filter_def Let_def)
  next
    case nt: False
    have one: "any_of [r, Some False] = r" for r by (cases r) (auto simp: any_of_eq)
    show ?thesis
      using False nt
      by (auto simp: compile_read_filter_def Let_def w eval_filter_or eval_filter_and any_of_append one)
  qed
qed


definition sample_policy :: policy_def where
  "sample_policy =
     \<lparr>p_bypass = False, p_when = WhenActionType Update,
      p_checks = [AuthorizeIf (CkRelatesToActor ''owner''), ForbidIf (CkEq ''locked'' (CBool True))]\<rparr>"


text \<open>
  Where a check is unknown the two part: on a record with no owner, "forbid if the owner is
  7" forbids nothing when decided on the record, and the filter drops the record.
\<close>

lemma authorization_unknown_differs:
  defines "p \<equiv> \<lparr>p_bypass = False, p_when = WhenAlways, p_checks = [ForbidIf (CkRelatesToActor ''owner'')]\<rparr>"
  shows "authorize_write sample_external [] (sample_resource\<lparr>r_policies := [p]\<rparr>) (update_action ''edit'')
      (Some (new_actor 7)) (Some [(''owner'', VNull)]) = Inr ()"
    and "filter_eval sample_external [] None [(''owner'', VNull)]
      (write_filter (sample_resource\<lparr>r_policies := [p]\<rparr>) (update_action ''edit'') (Some (new_actor 7))) = None"
  unfolding p_def by code_simp+

section \<open>Redaction\<close>

lemma hidden_fields_iff:
  "f \<in> set (hidden_fields x reg r actor fs) \<longleftrightarrow>
   (\<exists>p \<in> set (r_field_policies r). fp_field p = f \<and> \<not> eval_policy_effects x reg actor (Some fs) (fp_checks p))"
  by (auto simp: hidden_fields_def)

lemma fold_insert_null:
  "fm_get (fold (\<lambda>field acc. fm_insert field VNull acc) names m) f =
     (if f \<in> set names then Some VNull else fm_get m f)"
  by (induction names arbitrary: m) auto

text \<open>
  C37: Redaction nulls exactly the fields some field policy denies the actor
  on this record, and leaves every other as it was; redacting is decided on the record
  before any field is nulled.
\<close>

theorem redact_hides:
  "fm_get (redact_fields x reg r actor fs) f =
     (if \<exists>p \<in> set (r_field_policies r). fp_field p = f \<and> \<not> eval_policy_effects x reg actor (Some fs) (fp_checks p)
      then Some VNull else fm_get fs f)"
  unfolding redact_fields_def fold_insert_null hidden_fields_iff ..

section \<open>Guarded filters tell nothing\<close>

text \<open>What a filter reads of the record itself: the fields it compares, and the relations it follows.\<close>

fun filter_reads :: "Filter \<Rightarrow> string set" where
  "filter_reads FTrue = {}"
| "filter_reads FFalse = {}"
| "filter_reads (FAnd parts) = \<Union> (set (map filter_reads parts))"
| "filter_reads (FOr parts) = \<Union> (set (map filter_reads parts))"
| "filter_reads (FNot inner) = filter_reads inner"
| "filter_reads (FRelated rel f) = {rel}"
| "filter_reads leaf = set (collect_fields leaf)"

fun filter_relations :: "Filter \<Rightarrow> string set" where
  "filter_relations (FAnd parts) = \<Union> (set (map filter_relations parts))"
| "filter_relations (FOr parts) = \<Union> (set (map filter_relations parts))"
| "filter_relations (FNot inner) = filter_relations inner"
| "filter_relations (FRelated rel f) = {rel}"
| "filter_relations leaf = {}"

fun nil_tests :: "Filter \<Rightarrow> string set" where
  "nil_tests (FIsNil field) = {field}"
| "nil_tests (FAnd parts) = \<Union> (set (map nil_tests parts))"
| "nil_tests (FOr parts) = \<Union> (set (map nil_tests parts))"
| "nil_tests (FNot inner) = nil_tests inner"
| "nil_tests _ = {}"

lemma filter_eval_agree:
  "(\<And>n. n \<in> filter_reads f \<Longrightarrow> fm_get fs n = fm_get fs' n) \<Longrightarrow>
   filter_eval x reg res fs f = filter_eval x reg res fs' f"
proof (induction f)
  case (FAnd parts)
  have "map (filter_eval x reg res fs) parts = map (filter_eval x reg res fs') parts"
    using FAnd by (intro map_cong refl FAnd.IH) auto
  then show ?case by (simp only: filter_eval.simps)
next
  case (FOr parts)
  have "map (filter_eval x reg res fs) parts = map (filter_eval x reg res fs') parts"
    using FOr by (intro map_cong refl FOr.IH) auto
  then show ?case by (simp only: filter_eval.simps)
qed (simp_all add: present_def eval_text_def)

text \<open>A field's condition reads only the fields that field policies are decided by.\<close>

lemma effects_to_filter_agree:
  assumes "\<And>e n. e \<in> set es \<Longrightarrow> n \<in> set (check_fields (effect_check e)) \<Longrightarrow> fm_get fs n = fm_get fs' n"
  shows "filter_eval x reg res fs (effects_to_filter actor es) =
    filter_eval x reg res' fs' (effects_to_filter actor es)"
proof -
  have v: "effect_value (check_value x reg actor fs) e = effect_value (check_value x reg actor fs') e"
    if "e \<in> set es" for e
  proof -
    have "check_value x reg actor fs (effect_check e) = check_value x reg actor fs' (effect_check e)"
      unfolding check_value_def using assms [OF that] by (rule check_eval_agree)
    then show ?thesis by (cases e) auto
  qed
  then have m: "map (effect_value (check_value x reg actor fs)) (filter P es) =
      map (effect_value (check_value x reg actor fs')) (filter P es)" for P by simp
  show ?thesis unfolding effects_to_filter_eval m ..
qed

lemma field_condition_conditions:
  "field_condition r f actor = Some c \<Longrightarrow>
   c = filter_and (map (\<lambda>p. effects_to_filter actor (fp_checks p)) (filter (\<lambda>p. fp_field p = f) (r_field_policies r)))"
  unfolding field_condition_def Let_def by (simp split: if_splits Filter.splits)

lemma field_condition_agree:
  assumes "field_condition r f actor = Some c"
    and "\<And>n. n \<in> set (field_policy_fields r) \<Longrightarrow> fm_get fs n = fm_get fs' n"
  shows "filter_eval x reg res fs c = filter_eval x reg res' fs' c"
proof -
  have "filter_eval x reg res fs (effects_to_filter actor (fp_checks p)) =
      filter_eval x reg res' fs' (effects_to_filter actor (fp_checks p))" if "p \<in> set (r_field_policies r)" for p
    using that assms(2) by (intro effects_to_filter_agree) (auto simp: field_policy_fields_def)
  then have "map (filter_eval x reg res fs) (map (\<lambda>p. effects_to_filter actor (fp_checks p))
        (filter (\<lambda>p. fp_field p = f) (r_field_policies r))) =
      map (filter_eval x reg res' fs') (map (\<lambda>p. effects_to_filter actor (fp_checks p))
        (filter (\<lambda>p. fp_field p = f) (r_field_policies r)))" by simp
  then show ?thesis unfolding field_condition_conditions [OF assms(1)] eval_filter_and by metis
qed

text \<open>A field hidden on a record has a condition, which doesn't hold of it.\<close>

lemma hidden_condition:
  assumes "h \<in> set (hidden_fields x reg r actor fs)" "\<forall>pk. primary_key r = Some pk \<longrightarrow> a_name pk \<noteq> h"
  shows "\<exists>c. field_condition r h actor = Some c \<and> filter_eval x reg res fs c \<noteq> Some True"
proof -
  let ?cs = "map (\<lambda>p. effects_to_filter actor (fp_checks p)) (filter (\<lambda>p. fp_field p = h) (r_field_policies r))"
  obtain p where p: "p \<in> set (r_field_policies r)" "fp_field p = h"
      "\<not> eval_policy_effects x reg actor (Some fs) (fp_checks p)"
    using assms(1) by (auto simp: hidden_fields_iff)
  then have "filter_eval x reg res fs (effects_to_filter actor (fp_checks p)) \<noteq> Some True"
    using effects_sound by blast
  moreover have "effects_to_filter actor (fp_checks p) \<in> set ?cs" using p by auto
  ultimately have n: "filter_eval x reg res fs (filter_and ?cs) \<noteq> Some True"
    unfolding eval_filter_and all_of_True by auto
  then have "filter_and ?cs \<noteq> FTrue" by auto
  then have "field_condition r h actor = Some (filter_and ?cs)"
    using assms(2) unfolding field_condition_def Let_def by (auto split: option.splits Filter.splits)
  then show ?thesis using n by blast
qed

fun is_leaf :: "Filter \<Rightarrow> bool" where
  "is_leaf (FAnd _) = False" | "is_leaf (FOr _) = False" | "is_leaf (FNot _) = False"
| "is_leaf (FRelated _ _) = False" | "is_leaf FTrue = False" | "is_leaf FFalse = False"
| "is_leaf _ = True"

lemma leaf_facts:
  assumes "is_leaf leaf"
  shows "guard_filter reg actor r leaf positive = Inr (guard_leaf r actor positive leaf)"
    and "\<exists>n. collect_fields leaf = [n] \<and> filter_reads leaf = {n} \<and>
      (is_nil_filter leaf \<longrightarrow> nil_tests leaf = {n})"
  using assms by (cases leaf; simp add: is_nil_filter_def)+

lemma all_of_pair_True: "all_of [a, b] = Some True \<longleftrightarrow> a = Some True \<and> b = Some True"
  by (simp add: all_of_True)

lemma any_of_pair_True: "any_of [a, b] = Some True \<longleftrightarrow> a = Some True \<or> b = Some True"
  by (auto simp: any_of_True)

lemma any_of_pair_False: "any_of [a, b] = Some False \<longleftrightarrow> a = Some False \<and> b = Some False"
  by (simp add: any_of_False)

lemma guard_leaf_hides:
  assumes leaf: "is_leaf leaf"
    and agree: "\<And>n. n \<noteq> h \<Longrightarrow> fm_get fs n = fm_get fs' n"
    and cond: "field_condition r h actor = Some c" "filter_eval x reg None fs c \<noteq> Some True"
    and free: "h \<notin> set (field_policy_fields r)"
    and nils: "h \<in> nil_tests leaf \<Longrightarrow> filter_eval x reg None fs c = Some False"
  shows "filter_eval x reg res fs (guard_leaf r actor positive leaf) = Some positive \<longleftrightarrow>
    filter_eval x reg res fs' (guard_leaf r actor positive leaf) = Some positive"
proof -
  obtain n where n: "collect_fields leaf = [n]" "filter_reads leaf = {n}"
      "is_nil_filter leaf \<longrightarrow> nil_tests leaf = {n}"
    using leaf_facts(2) [OF leaf] by blast
  have cs: "filter_eval x reg res'' fs c' = filter_eval x reg res' fs' c'"
    if "field_condition r k actor = Some c'" for k c' res'' res'
    using field_condition_agree [OF that] agree free by metis
  show ?thesis
  proof (cases "n = h")
    case False
    have l: "filter_eval x reg res fs leaf = filter_eval x reg res fs' leaf"
      using n(2) agree False by (intro filter_eval_agree) auto
    show ?thesis
      by (auto simp: guard_leaf_def n(1) eval_filter_and eval_filter_or eval_filter_not l
          cs [where res'' = res and res' = res] split: option.splits)
  next
    case True
    let ?c = "filter_eval x reg None fs c"
    have e: "filter_eval x reg res fs c = ?c" "filter_eval x reg res fs' c = ?c"
      using cs [OF cond(1), of res None] cs [OF cond(1), of None None] cs [OF cond(1), of res res]
      by simp_all
    have g: "guard_leaf r actor positive leaf =
        (if is_nil_filter leaf then filter_or [filter_not c, leaf]
         else if positive then filter_and [c, leaf] else filter_or [filter_not c, leaf])"
      by (simp add: guard_leaf_def n(1) True cond(1))
    have "is_nil_filter leaf \<Longrightarrow> ?c = Some False" using nils n(3) True by simp
    then show ?thesis
      unfolding g using cond(2)
      by (cases positive)
        (auto simp: eval_filter_and eval_filter_or eval_filter_not e
          all_of_pair_True any_of_pair_True any_of_pair_False)
  qed
qed

lemma all_of_False: "all_of rs = Some False \<longleftrightarrow> Some False \<in> set rs"
  by (simp add: all_of_eq)

lemma all_of_hits:
  assumes "\<And>g. g \<in> set gs \<Longrightarrow> u g = Some p \<longleftrightarrow> v g = Some p"
  shows "all_of (map u gs) = Some p \<longleftrightarrow> all_of (map v gs) = Some p"
proof (cases p)
  case True
  then show ?thesis using assms by (simp add: all_of_True)
next
  case False
  then show ?thesis using assms by (simp add: all_of_False image_iff) metis
qed

lemma any_of_hits:
  assumes "\<And>g. g \<in> set gs \<Longrightarrow> u g = Some p \<longleftrightarrow> v g = Some p"
  shows "any_of (map u gs) = Some p \<longleftrightarrow> any_of (map v gs) = Some p"
proof (cases p)
  case True
  then show ?thesis using assms by (simp add: any_of_True image_iff) metis
next
  case False
  then show ?thesis using assms by (simp add: any_of_False)
qed

lemma guard_related_shape:
  assumes "guard_filter reg actor r (FRelated rel f) positive = Inr g"
  shows "\<exists>f'. g = FRelated rel f'"
proof (cases "relationship r rel")
  case None
  then show ?thesis using assms by auto
next
  case rl: (Some rl)
  then obtain dest inner where "destination reg rl = Some dest"
    and "(case compile_read_filter dest (default_read dest) actor of
        Inr None \<Rightarrow> Inr (FRelated rel inner)
      | Inr (Some policy) \<Rightarrow> Inr (FRelated rel (filter_and [inner, policy]))
      | Inl EForbidden \<Rightarrow> Inr (FRelated rel FFalse)
      | Inl err \<Rightarrow> Inl err) = Inr g"
    using assms by (auto simp: bindE_eq_Inr split: option.splits)
  then show ?thesis by (auto split: sum.splits option.splits error.splits)
qed

lemma guard_hides:
  assumes agree: "\<And>n. n \<noteq> h \<Longrightarrow> fm_get fs n = fm_get fs' n"
    and cond: "field_condition r h actor = Some c" "filter_eval x reg None fs c \<noteq> Some True"
    and free: "h \<notin> set (field_policy_fields r)"
    and nils: "h \<in> nil_tests f \<Longrightarrow> filter_eval x reg None fs c = Some False"
    and rels: "h \<notin> filter_relations f"
    and g: "guard_filter reg actor r f positive = Inr g"
  shows "filter_eval x reg res fs g = Some positive \<longleftrightarrow> filter_eval x reg res fs' g = Some positive"
  using nils rels g
proof -
  have leaf_hides: "filter_eval x reg res fs g = Some positive \<longleftrightarrow> filter_eval x reg res fs' g = Some positive"
    if "is_leaf leaf" "h \<in> nil_tests leaf \<Longrightarrow> filter_eval x reg None fs c = Some False"
      "guard_filter reg actor r leaf positive = Inr g" for leaf positive g
    using guard_leaf_hides [OF that(1) agree cond free that(2)] that(3) leaf_facts(1) [OF that(1)] by auto
  show ?thesis
    using nils rels g
proof (induction f arbitrary: positive g)
  case (FAnd parts)
  from FAnd.prems(3) obtain gs where gs: "list_all2 (\<lambda>p g. guard_filter reg actor r p positive = Inr g) parts gs"
    and gd: "g = filter_and gs"
    by (auto simp: bindE_eq_Inr mapE_eq_Inr)
  have "filter_eval x reg res fs g' = Some positive \<longleftrightarrow> filter_eval x reg res fs' g' = Some positive"
    if "g' \<in> set gs" for g'
  proof -
    obtain p where "p \<in> set parts" "guard_filter reg actor r p positive = Inr g'"
      using list_all2_in_right [OF gs \<open>g' \<in> set gs\<close>] by blast
    then show ?thesis using FAnd.prems(1,2) by (intro FAnd.IH) auto
  qed
  then show ?case
    unfolding gd eval_filter_and by (rule all_of_hits)
next
  case (FOr parts)
  from FOr.prems(3) obtain gs where gs: "list_all2 (\<lambda>p g. guard_filter reg actor r p positive = Inr g) parts gs"
    and gd: "g = filter_or gs"
    by (auto simp: bindE_eq_Inr mapE_eq_Inr)
  have "filter_eval x reg res fs g' = Some positive \<longleftrightarrow> filter_eval x reg res fs' g' = Some positive"
    if "g' \<in> set gs" for g'
  proof -
    obtain p where "p \<in> set parts" "guard_filter reg actor r p positive = Inr g'"
      using list_all2_in_right [OF gs \<open>g' \<in> set gs\<close>] by blast
    then show ?thesis using FOr.prems(1,2) by (intro FOr.IH) auto
  qed
  then show ?case
    unfolding gd eval_filter_or by (rule any_of_hits)
next
  case (FNot inner)
  from FNot.prems(3) obtain g' where g': "guard_filter reg actor r inner (\<not> positive) = Inr g'"
    and gd: "g = filter_not g'"
    by (auto simp: bindE_eq_Inr)
  have "filter_eval x reg res fs g' = Some (\<not> positive) \<longleftrightarrow> filter_eval x reg res fs' g' = Some (\<not> positive)"
    using FNot.prems g' by (intro FNot.IH) auto
  then show ?case unfolding gd eval_filter_not by (cases positive) auto
next
  case (FRelated rel f)
  obtain f' where gd: "g = FRelated rel f'" using guard_related_shape [OF FRelated.prems(3)] by blast
  have "rel \<noteq> h" using FRelated.prems(2) by auto
  then have "filter_eval x reg res fs g = filter_eval x reg res fs' g"
    unfolding gd using agree by (intro filter_eval_agree) simp
  then show ?case by (simp only:)
qed ((rule leaf_hides [rotated 2], assumption, simp, simp) | force)+
qed


definition guarded_resource :: resource_def where
  "guarded_resource = sample_resource
     \<lparr>r_field_policies := [\<lparr>fp_field = ''salary'', fp_checks = [AuthorizeIf (CkRelatesToActor ''owner'')]\<rparr>]\<rparr>"


text \<open>
  Where a check is unknown, testing a hidden field for nil tells: the owner is null, the
  salary is hidden, and the guarded test holds of the record without one only.
\<close>

lemma guarded_nil_test_tells:
  "''salary'' \<in> set (hidden_fields sample_external [] guarded_resource (Some (new_actor 7))
     [(''owner'', VNull), (''salary'', VInt 5)])"
  "''salary'' \<in> set (hidden_fields sample_external [] guarded_resource (Some (new_actor 7))
     [(''owner'', VNull), (''salary'', VNull)])"
  "guard_input_filter [] guarded_resource (Some (new_actor 7)) (FIsNil ''salary'') =
     Inr (FOr [FNot (FEq ''owner'' (VUuid 7)), FIsNil ''salary''])"
  "filter_eval sample_external [] (Some guarded_resource) [(''owner'', VNull), (''salary'', VInt 5)]
     (FOr [FNot (FEq ''owner'' (VUuid 7)), FIsNil ''salary'']) = None"
  "filter_eval sample_external [] (Some guarded_resource) [(''owner'', VNull), (''salary'', VNull)]
     (FOr [FNot (FEq ''owner'' (VUuid 7)), FIsNil ''salary'']) = Some True"
  by code_simp+

end
