(* ===== verification/AshPipeline.thy ===== *)
theory AshPipeline
  imports AshPolicyFacts
begin

text \<open>
  \<open>crates/ash-core/src/pipeline.rs\<close>: the steps every action is made of. Input is split into
  attributes and arguments and cast, the action's changes run over the fields and register
  hooks, its validations are all checked, the fields are checked against their types and
  rewritten to canonical text, and a tenant scopes what is read and written.

  A new UUID and the present time are arguments of the steps that take one.
\<close>

section \<open>Finding the action\<close>

definition action_named :: "resource_def \<Rightarrow> string \<Rightarrow> action_def res" where
  "action_named r name = ok_or (action_of r name) (EUnknownAction (r_name r) name)"

definition expect_kind :: "action_def \<Rightarrow> action_kind \<Rightarrow> unit res" where
  "expect_kind a expected =
     (if act_kind a = expected then Inr ()
      else Inl (EWrongActionKind (act_name a) (kind_name expected) (kind_name (act_kind a))))"

definition read_action :: "resource_def \<Rightarrow> string option \<Rightarrow> action_def res" where
  "read_action r name =
     bindE (case name of Some n \<Rightarrow> action_named r n | None \<Rightarrow> Inr (default_read r)) (\<lambda>a.
     bindE (expect_kind a Read) (\<lambda>_. Inr a))"

definition expect_persist :: "action_def \<Rightarrow> persist_kind \<Rightarrow> unit res" where
  "expect_persist a expected =
     (if act_persist a = expected then Inr ()
      else if expected = PersistManual then Inl (ENotManual (act_name a))
      else Inl (EManualRequired (act_name a)))"

definition pk_name :: "resource_def \<Rightarrow> string res" where
  "pk_name r = ok_or (map_option a_name (primary_key r)) (ENoPrimaryKey (r_name r))"

section \<open>Input\<close>

text \<open>\<open>cast_text\<close>: text is trimmed, and nil when that leaves nothing.\<close>

definition cast_text :: "attr_type \<Rightarrow> Value \<Rightarrow> Value" where
  "cast_text ty v =
     (if ty \<noteq> TString \<and> ty \<noteq> TCiString then v
      else (case v of
              VString text \<Rightarrow>
                let trimmed = str_trim text
                in if trimmed = [] then VNull
                   else if length trimmed \<noteq> length text then VString trimmed else v
            | _ \<Rightarrow> v))"

definition split_entry ::
    "resource_def \<Rightarrow> action_def \<Rightarrow> fields \<times> fields \<Rightarrow> string \<times> Value \<Rightarrow> (fields \<times> fields) res" where
  "split_entry r a = (\<lambda>(fs, args) (field, v).
     if field \<in> set (act_accept a) then
       Inr (fm_insert field (case attribute r field of Some t \<Rightarrow> cast_text (a_ty t) v | None \<Rightarrow> v) fs, args)
     else (case argument a field of
             Some arg \<Rightarrow> Inr (fs, fm_insert field (cast_text (arg_ty arg) v) args)
           | None \<Rightarrow> Inl (ENotAccepted field (act_name a))))"

definition is_nil_or_missing :: "Value option \<Rightarrow> bool" where
  "is_nil_or_missing v \<longleftrightarrow> v = None \<or> v = Some VNull"

definition check_arguments :: "action_def \<Rightarrow> fields \<Rightarrow> unit res" where
  "check_arguments a args =
     foldE (\<lambda>_ arg. if \<not> arg_allow_nil arg \<and> is_nil_or_missing (fm_get args (arg_name arg))
                    then Inl (EMissing (arg_name arg)) else Inr ())
       () (act_arguments a)"

definition split_input :: "resource_def \<Rightarrow> action_def \<Rightarrow> fields \<Rightarrow> (fields \<times> fields) res" where
  "split_input r a input =
     bindE (foldE (split_entry r a) ([], []) input) (\<lambda>(fs, args).
       let args' = apply_argument_defaults (act_arguments a) args
       in bindE (check_arguments a args') (\<lambda>_. Inr (fs, args')))"

section \<open>Primary keys\<close>

definition generate_pk :: "uuid \<Rightarrow> resource_def \<Rightarrow> fields \<Rightarrow> fields" where
  "generate_pk new_v4 r fs =
     (case primary_key r of
        Some pk \<Rightarrow>
          if a_generated pk \<and> a_ty pk = TUuid \<and> \<not> fm_contains fs (a_name pk)
          then fm_insert (a_name pk) (VUuid new_v4) fs else fs
      | None \<Rightarrow> fs)"

definition new_pk :: "resource_def \<Rightarrow> fields \<Rightarrow> Value res" where
  "new_pk r fs = bindE (pk_name r) (\<lambda>pk. Inr (or_null (fm_get fs pk)))"

section \<open>Changes\<close>

definition set_if_missing :: "string \<Rightarrow> Value \<Rightarrow> fields \<Rightarrow> fields" where
  "set_if_missing field v fs = (if is_nil_or_missing (fm_get fs field) then fm_insert field v fs else fs)"

definition on_fields :: "(fields \<Rightarrow> fields) \<Rightarrow> change_context \<Rightarrow> change_context" where
  "on_fields f cx = cx\<lparr>cx_fields := f (cx_fields cx)\<rparr>"

fun apply_change :: "external \<Rightarrow> action_context \<Rightarrow> change_context \<Rightarrow> change \<Rightarrow> change_context res" where
  "apply_change x ac cx (SetAttribute field v) = Inr (on_fields (fm_insert field (value_from_const v)) cx)"
| "apply_change x ac cx (SetNewAttribute field v) =
     Inr (on_fields (set_if_missing field (value_from_const v)) cx)"
| "apply_change x ac cx (RelateActor field) =
     bindE (ok_or (ac_actor ac) EForbidden) (\<lambda>actor.
       Inr (on_fields (fm_insert field (VUuid (actor_id actor))) cx))"
| "apply_change x ac cx (SetFromArgument field arg) =
     (case fm_get (ac_arguments ac) arg of
        Some v \<Rightarrow> Inr (on_fields (fm_insert field v) cx)
      | None \<Rightarrow> Inr cx)"
| "apply_change x ac cx (SetAttributeFn field f) = Inr (on_fields (fm_insert field (f ())) cx)"
| "apply_change x ac cx (SetNewAttributeFn field f) = Inr (on_fields (set_if_missing field (f ())) cx)"
| "apply_change x ac cx (BeforeAction hook) = Inr (cx\<lparr>cx_before_actions := cx_before_actions cx @ [hook]\<rparr>)"
| "apply_change x ac cx (AfterAction hook) = Inr (cx\<lparr>cx_after_actions := cx_after_actions cx @ [hook]\<rparr>)"
| "apply_change x ac cx (AfterTransaction hook) =
     Inr (cx\<lparr>cx_after_transactions := cx_after_transactions cx @ [hook]\<rparr>)"
| "apply_change x ac cx (CustomChange c) = c ac cx"
| "apply_change x ac cx (ManageRelationship _ _) = Inr cx"
| "apply_change x ac cx (OptimisticLock _) = Inr cx"
| "apply_change x ac cx (AtomicUpdateChange field e) =
     bindE (expr_eval x e (cx_fields cx) (ac_arguments ac)) (\<lambda>v. Inr (on_fields (fm_insert field v) cx))"
| "apply_change x ac cx (FuncChange f) = f ac cx"

definition apply_changes_with_context ::
    "external \<Rightarrow> action_def \<Rightarrow> action_context \<Rightarrow> change_context \<Rightarrow> change_context res" where
  "apply_changes_with_context x a ac cx = foldE (apply_change x ac) cx (act_changes a)"

definition apply_changes :: "external \<Rightarrow> fields \<Rightarrow> action_def \<Rightarrow> actor option \<Rightarrow> fields \<Rightarrow> fields res" where
  "apply_changes x fs a actor args =
     bindE (apply_changes_with_context x a
       \<lparr>ac_actor = actor, ac_tenant = None, ac_metadata = [], ac_arguments = args\<rparr>
       \<lparr>cx_fields = fs, cx_before_actions = [], cx_after_actions = [], cx_after_transactions = []\<rparr>)
       (\<lambda>cx. Inr (cx_fields cx))"

section \<open>Validations\<close>

definition not_a_number :: "string \<Rightarrow> error" where
  "not_a_number field = EValidation field ''must be a number'' []"

definition number_of :: "external \<Rightarrow> string \<Rightarrow> Value option \<Rightarrow> f64 option res" where
  "number_of x field v =
     (case v of
        None \<Rightarrow> Inr None
      | Some VNull \<Rightarrow> Inr None
      | Some (VInt n) \<Rightarrow> Inr (Some (f64_of_i64 n))
      | Some (VString text) \<Rightarrow>
          (case x_f64_parse x text of
             Some n \<Rightarrow> if f64_is_finite n then Inr (Some n) else Inl (not_a_number field)
           | None \<Rightarrow> Inl (not_a_number field))
      | Some _ \<Rightarrow> Inl (not_a_number field))"

definition is_some_and :: "'a option \<Rightarrow> ('a \<Rightarrow> bool) \<Rightarrow> bool" where
  "is_some_and v p = (case v of Some a \<Rightarrow> p a | None \<Rightarrow> False)"

fun validation_fails :: "external \<Rightarrow> validation \<Rightarrow> Value option \<Rightarrow> bool res" where
  "validation_fails x (Present _) v =
     Inr (case v of None \<Rightarrow> True | Some VNull \<Rightarrow> True | Some (VString s) \<Rightarrow> str_trim s = [] | _ \<Rightarrow> False)"
| "validation_fails x (StringLength _ lo hi) v =
     Inr (case v of
            Some (VString s) \<Rightarrow>
              is_some_and lo (\<lambda>m. length (chars s) < m) \<or> is_some_and hi (\<lambda>m. m < length (chars s))
          | _ \<Rightarrow> False)"
| "validation_fails x (OneOf _ allowed) v =
     Inr (case v of Some (VString s) \<Rightarrow> s \<notin> set allowed | _ \<Rightarrow> False)"
| "validation_fails x (Numericality field lo hi) v =
     bindE (number_of x field v) (\<lambda>number.
       Inr (is_some_and number (\<lambda>n.
              is_some_and lo (\<lambda>m. f64_less n (f64_of_i64 m)) \<or> is_some_and hi (\<lambda>m. f64_less (f64_of_i64 m) n))))"
| "validation_fails x (CustomValidation _) v = Inr False"
| "validation_fails x (FuncValidation _) v = Inr False"

definition check_builtin_validation :: "external \<Rightarrow> validation \<Rightarrow> Value option \<Rightarrow> unit res" where
  "check_builtin_validation x vl v =
     bindE (validation_fails x vl v) (\<lambda>fails.
       (case validation_error vl of
          Some e \<Rightarrow> if fails then Inl e else Inr ()
        | None \<Rightarrow> Inr ()))"

fun validation_result ::
    "external \<Rightarrow> (string \<Rightarrow> Value option) \<Rightarrow> validation_context \<Rightarrow> validation \<Rightarrow> unit res" where
  "validation_result x get_val ctx (Present field) = check_builtin_validation x (Present field) (get_val field)"
| "validation_result x get_val ctx (StringLength field lo hi) =
     check_builtin_validation x (StringLength field lo hi) (get_val field)"
| "validation_result x get_val ctx (OneOf field allowed) =
     check_builtin_validation x (OneOf field allowed) (get_val field)"
| "validation_result x get_val ctx (Numericality field lo hi) =
     check_builtin_validation x (Numericality field lo hi) (get_val field)"
| "validation_result x get_val ctx (CustomValidation c) = c ctx"
| "validation_result x get_val ctx (FuncValidation f) = f ctx"

definition run_validations_with_context ::
    "external \<Rightarrow> action_def \<Rightarrow> fields option \<Rightarrow> fields \<Rightarrow> action_context \<Rightarrow> unit res" where
  "run_validations_with_context x a record fs ac =
     (let get_val = (\<lambda>f. case fm_get fs f of Some v \<Rightarrow> Some v | None \<Rightarrow> fm_get (ac_arguments ac) f);
          ctx = \<lparr>vx_record = record, vx_fields = fs, vx_action = ac\<rparr>
      in collect_errors (List.map_filter
           (\<lambda>v. case validation_result x get_val ctx v of Inl e \<Rightarrow> Some e | Inr _ \<Rightarrow> None)
           (act_validations a)))"

definition run_validations ::
    "external \<Rightarrow> action_def \<Rightarrow> fields option \<Rightarrow> fields \<Rightarrow> fields \<Rightarrow> unit res" where
  "run_validations x a record fs args =
     run_validations_with_context x a record fs
       \<lparr>ac_actor = None, ac_tenant = None, ac_metadata = [], ac_arguments = args\<rparr>"

section \<open>Tenants\<close>

fun and_filters :: "Filter option \<Rightarrow> Filter option \<Rightarrow> Filter option" where
  "and_filters None None = None"
| "and_filters (Some f) None = Some f"
| "and_filters None (Some f) = Some f"
| "and_filters (Some l) (Some r) = Some (filter_and [l, r])"

definition apply_tenant_scope ::
    "resource_def \<Rightarrow> Filter option \<Rightarrow> string option \<Rightarrow> (Filter option \<times> string option) res" where
  "apply_tenant_scope r f tenant =
     (if (case r_multitenancy r of Some mt \<Rightarrow> tenant = None \<and> \<not> mt_global mt | None \<Rightarrow> False)
      then Inl (ETenantRequired (r_name r))
      else Inr (and_filters f (tenant_filter r tenant), tenant))"

definition visible_scope ::
    "resource_def \<Rightarrow> Filter option \<Rightarrow> string option \<Rightarrow> (Filter option \<times> string option) res" where
  "visible_scope r f tenant =
     bindE (apply_tenant_scope r f tenant) (\<lambda>(f', tenant').
       Inr (and_filters f' (primary_read_filter r), tenant'))"

definition apply_tenant_to_fields ::
    "resource_def \<Rightarrow> fields \<Rightarrow> string option \<Rightarrow> bool \<Rightarrow> fields res" where
  "apply_tenant_to_fields r fs tenant for_create =
     (case r_multitenancy r of
        None \<Rightarrow> Inr fs
      | Some mt \<Rightarrow>
          (case mt_strategy mt of
             AttributeTenancy attr \<Rightarrow>
               (case tenant of
                  Some t \<Rightarrow> Inr (if for_create then fm_insert attr (VString t) fs else fs)
                | None \<Rightarrow> if \<not> mt_global mt then Inl (ETenantRequired (r_name r)) else Inr fs)
           | ContextTenancy \<Rightarrow>
               if tenant = None \<and> \<not> mt_global mt then Inl (ETenantRequired (r_name r)) else Inr fs))"

section \<open>Types\<close>

definition constraint_if :: "'a res \<Rightarrow> string \<Rightarrow> string \<Rightarrow> unit res" where
  "constraint_if parsed field msg =
     (case parsed of Inr _ \<Rightarrow> Inr () | Inl _ \<Rightarrow> Inl (EConstraint field msg))"

definition check_type :: "external \<Rightarrow> attribute_def \<Rightarrow> Value \<Rightarrow> unit res" where
  "check_type x a v =
     (let mismatch = Inl (ETypeMismatch (a_name a) (attr_type_name (a_ty a)) (type_name v))
      in case (a_ty a, v) of
           (TUuid, VUuid _) \<Rightarrow> Inr ()
         | (TString, VString _) \<Rightarrow> Inr ()
         | (TInteger, VInt _) \<Rightarrow> Inr ()
         | (TBoolean, VBool _) \<Rightarrow> Inr ()
         | (TMap, VMap _) \<Rightarrow> Inr ()
         | (TEmbedded _, VMap _) \<Rightarrow> Inr ()
         | (TTypedMap _ _, VMap _) \<Rightarrow> Inr ()
         | (TUnion _ _, VMap _) \<Rightarrow> Inr ()
         | (TArray _, VArray _) \<Rightarrow> Inr ()
         | (TUtcDatetime precision, VString got) \<Rightarrow>
             constraint_if (normalize_time x precision got) (a_name a) (''must be an RFC3339 timestamp, got '' @ got)
         | (TDecimal, VString got) \<Rightarrow>
             constraint_if (decimal_parse got) (a_name a) (''must be a decimal number, got '' @ got)
         | (TBinary, VString got) \<Rightarrow>
             constraint_if (binary_parse x got) (a_name a) (''must be base64, got '' @ got)
         | (TDate, VString got) \<Rightarrow>
             constraint_if (date_parse got) (a_name a) (''must be a calendar date, got '' @ got)
         | (TInet, VString got) \<Rightarrow>
             constraint_if (inet_parse x got) (a_name a) (''must be an IP address, got '' @ got)
         | (TVector dimensions, VString got) \<Rightarrow>
             (case bindE (parse_vector x got) (\<lambda>vs. check_vector vs dimensions) of
                Inr _ \<Rightarrow> Inr ()
              | Inl err \<Rightarrow> Inl (EConstraint (a_name a) (error_display x err)))
         | (TCiString, VString got) \<Rightarrow> Inr ()
         | (TFloat, VString got) \<Rightarrow>
             constraint_if (float_parse x got) (a_name a) (''must be a finite float, got '' @ got)
         | (TAtom one_of _, VString got) \<Rightarrow>
             if got \<in> set one_of then Inr ()
             else Inl (EConstraint (a_name a) (''must be one of '' @ x_debug x one_of))
         | _ \<Rightarrow> mismatch)"

text \<open>The value rewritten in place to its canonical text.\<close>

definition canonical_value :: "external \<Rightarrow> attr_type \<Rightarrow> Value \<Rightarrow> Value" where
  "canonical_value x ty v =
     (case v of
        VString raw \<Rightarrow> (case canonical_text x ty raw of Some s \<Rightarrow> VString s | None \<Rightarrow> v)
      | _ \<Rightarrow> v)"

definition validate_attribute :: "external \<Rightarrow> fields \<Rightarrow> attribute_def \<Rightarrow> fields res" where
  "validate_attribute x fs a =
     (case non_null (fm_get fs (a_name a)) of
        None \<Rightarrow> if a_allow_nil a \<or> assigned_on_insert a then Inr fs else Inl (EMissing (a_name a))
      | Some v \<Rightarrow>
          bindE (check_type x a v) (\<lambda>_. Inr (fm_insert (a_name a) (canonical_value x (a_ty a) v) fs)))"

definition validate :: "external \<Rightarrow> resource_def \<Rightarrow> fields \<Rightarrow> fields res" where
  "validate x r fs = foldE (validate_attribute x) fs (r_attributes r)"

definition validate_given_attribute :: "external \<Rightarrow> fields \<Rightarrow> attribute_def \<Rightarrow> fields res" where
  "validate_given_attribute x fs a =
     (case fm_get fs (a_name a) of
        None \<Rightarrow> Inr fs
      | Some VNull \<Rightarrow> if a_allow_nil a then Inr fs else Inl (EMissing (a_name a))
      | Some v \<Rightarrow>
          bindE (check_type x a v) (\<lambda>_. Inr (fm_insert (a_name a) (canonical_value x (a_ty a) v) fs)))"

definition validate_given :: "external \<Rightarrow> resource_def \<Rightarrow> fields \<Rightarrow> fields res" where
  "validate_given x r fs = foldE (validate_given_attribute x) fs (r_attributes r)"

section \<open>Before the changes\<close>

definition prepare_create_fields :: "uuid \<Rightarrow> string \<Rightarrow> resource_def \<Rightarrow> fields \<Rightarrow> fields" where
  "prepare_create_fields new_v4 now r fs =
     (let fs = generate_pk new_v4 r fs;
          fs = fold (\<lambda>attr fs. case a_default_fn attr of
                 Some dflt \<Rightarrow> set_if_missing (a_name attr) (dflt ()) fs | None \<Rightarrow> fs) (r_attributes r) fs
      in case r_timestamps r of
           Some (created_at, updated_at) \<Rightarrow>
             set_if_missing updated_at (VString now) (set_if_missing created_at (VString now) fs)
         | None \<Rightarrow> fs)"

text \<open>\<open>next_version\<close> of \<open>engine/lock.rs\<close>: one more, or 1 from none.\<close>

definition next_version :: "external \<Rightarrow> Value option \<Rightarrow> Value res" where
  "next_version x current =
     (case current of
        Some (VInt n) \<Rightarrow> bindE (i64_add x n 1) (\<lambda>m. Inr (VInt m))
      | _ \<Rightarrow> Inr (VInt 1))"

definition prepare_update_fields ::
    "external \<Rightarrow> string \<Rightarrow> resource_def \<Rightarrow> action_def \<Rightarrow> fields \<Rightarrow> fields \<Rightarrow> fields res" where
  "prepare_update_fields x now r a existing fs =
     bindE (foldE (\<lambda>fs version.
              bindE (next_version x (fm_get existing version)) (\<lambda>v. Inr (fm_insert version v fs)))
            fs (optimistic_locks a)) (\<lambda>fs.
       Inr (case r_timestamps r of
              Some (_, updated_at) \<Rightarrow> fm_insert updated_at (VString now) fs
            | None \<Rightarrow> fs))"

end
