(* ===== verification/AshPipelineFacts.thy ===== *)
theory AshPipelineFacts
  imports AshPipeline
begin

text \<open>
  What the steps of an action promise: input splits with nothing lost and nothing let in,
  fields that validate are of their types and canonical, every failed validation is
  reported, and a tenant's scope admits the tenant's records only.
\<close>

section \<open>Input\<close>

definition cast_field :: "resource_def \<Rightarrow> string \<Rightarrow> Value \<Rightarrow> Value" where
  "cast_field r k v = (case attribute r k of Some t \<Rightarrow> cast_text (a_ty t) v | None \<Rightarrow> v)"

definition cast_argument :: "action_def \<Rightarrow> string \<Rightarrow> Value \<Rightarrow> Value" where
  "cast_argument a k v = (case argument a k of Some arg \<Rightarrow> cast_text (arg_ty arg) v | None \<Rightarrow> v)"

lemma split_entries:
  assumes "foldE (split_entry r a) (f0, a0) input = Inr (f1, a1)" "fm_ok input"
  shows "fm_get f1 k = (if k \<in> set (act_accept a) \<and> fm_get input k \<noteq> None
        then map_option (cast_field r k) (fm_get input k) else fm_get f0 k) \<and>
    fm_get a1 k = (if k \<notin> set (act_accept a) \<and> fm_get input k \<noteq> None
        then map_option (cast_argument a k) (fm_get input k) else fm_get a0 k) \<and>
    (fm_get input k \<noteq> None \<longrightarrow> k \<in> set (act_accept a) \<or> has_argument a k)"
  using assms
proof (induction input arbitrary: f0 a0)
  case Nil
  then show ?case by simp
next
  case (Cons e input)
  obtain field v where e: "e = (field, v)" by (cases e)
  have ok: "fm_ok input" and none: "fm_get input field = None"
    using Cons.prems(2) by (auto simp: fm_ok_def e fm_get_None_iff)
  from Cons.prems(1) obtain f' a' where step: "split_entry r a (f0, a0) (field, v) = Inr (f', a')"
    and rest: "foldE (split_entry r a) (f', a') input = Inr (f1, a1)"
    by (auto simp: bindE_eq_Inr e)
  note IH = Cons.IH [OF rest ok]
  show ?case
  proof (cases "field \<in> set (act_accept a)")
    case True
    then have "f' = fm_insert field (cast_field r field v) f0" "a' = a0"
      using step by (simp_all add: split_entry_def cast_field_def)
    then show ?thesis using IH none True by (auto simp: e)
  next
    case False
    then obtain arg where arg: "argument a field = Some arg" and "f' = f0"
        "a' = fm_insert field (cast_argument a field v) a0"
      using step by (auto simp: split_entry_def cast_argument_def split: option.splits)
    then show ?thesis using IH none False by (auto simp: e has_argument_def)
  qed
qed

lemma foldE_unit_Inr:
  "foldE (\<lambda>_ x. if P x then Inl (E x) else Inr ()) () xs = Inr u \<longleftrightarrow> (\<forall>x \<in> set xs. \<not> P x)"
  by (induction xs) (auto simp: bindE_eq_Inr)


definition sample_create :: action_def where
  "sample_create = (create_action ''open'')
     \<lparr>act_accept := [''title''], act_arguments := [argument_new ''reason'' TString]\<rparr>"

definition sample_titled :: resource_def where
  "sample_titled = sample_resource
     \<lparr>r_attributes := [uuid_pk ''id'', attr_required ''title'' TString, attr_optional ''due'' TDate]\<rparr>"


section \<open>Types\<close>

definition accepts :: "external \<Rightarrow> attribute_def \<Rightarrow> Value option \<Rightarrow> bool" where
  "accepts x a v \<longleftrightarrow>
     (case non_null v of
        None \<Rightarrow> a_allow_nil a \<or> assigned_on_insert a
      | Some u \<Rightarrow> check_type x a u = Inr ())"

lemma check_type_unit: "check_type x a v = Inr u \<longleftrightarrow> check_type x a v = Inr ()"
  by simp

lemma validate_attribute_Inr:
  "validate_attribute x fs a = Inr fs' \<longleftrightarrow>
   accepts x a (fm_get fs (a_name a)) \<and>
   fs' = (case non_null (fm_get fs (a_name a)) of None \<Rightarrow> fs
          | Some v \<Rightarrow> fm_insert (a_name a) (canonical_value x (a_ty a) v) fs)"
  by (auto simp: validate_attribute_def accepts_def bindE_eq_Inr split: option.splits)

lemma non_null_get: "non_null (fm_get fs k) = present fs k"
  by (simp add: non_null_def present_def)

lemma validate_fold:
  assumes "distinct (map a_name as)"
  shows "((\<exists>fs'. foldE (validate_attribute x) fs as = Inr fs') \<longleftrightarrow> (\<forall>a \<in> set as. accepts x a (fm_get fs (a_name a)))) \<and>
    (\<forall>fs'. foldE (validate_attribute x) fs as = Inr fs' \<longrightarrow>
      (\<forall>k. k \<notin> a_name ` set as \<longrightarrow> fm_get fs' k = fm_get fs k) \<and>
      (\<forall>a \<in> set as. fm_get fs' (a_name a) =
         (case present fs (a_name a) of None \<Rightarrow> fm_get fs (a_name a)
          | Some v \<Rightarrow> Some (canonical_value x (a_ty a) v))))"
  using assms
proof (induction as arbitrary: fs)
  case (Cons b as)
  define g where "g = (case present fs (a_name b) of None \<Rightarrow> fs
      | Some v \<Rightarrow> fm_insert (a_name b) (canonical_value x (a_ty b) v) fs)"
  have g: "fm_get g k = (if k = a_name b then (case present fs (a_name b) of None \<Rightarrow> fm_get fs k
      | Some v \<Rightarrow> Some (canonical_value x (a_ty b) v)) else fm_get fs k)" for k
    by (simp add: g_def split: option.splits)
  have step: "foldE (validate_attribute x) fs (b # as) = Inr fs' \<longleftrightarrow>
      accepts x b (fm_get fs (a_name b)) \<and> foldE (validate_attribute x) g as = Inr fs'" for fs'
    by (auto simp: bindE_eq_Inr validate_attribute_Inr g_def non_null_get)
  have d: "distinct (map a_name as)" and n: "a_name a \<noteq> a_name b" if "a \<in> set as" for a
    using Cons.prems that by (auto simp: image_iff)
  have same: "fm_get g (a_name a) = fm_get fs (a_name a)" "present g (a_name a) = present fs (a_name a)"
    if "a \<in> set as" for a
    using n [OF that] by (simp_all add: present_def g)
  have nb: "a_name b \<notin> a_name ` set as" using Cons.prems by auto
  have IH: "((\<exists>fs'. foldE (validate_attribute x) g as = Inr fs') \<longleftrightarrow> (\<forall>a \<in> set as. accepts x a (fm_get g (a_name a)))) \<and>
    (\<forall>fs'. foldE (validate_attribute x) g as = Inr fs' \<longrightarrow>
      (\<forall>k. k \<notin> a_name ` set as \<longrightarrow> fm_get fs' k = fm_get g k) \<and>
      (\<forall>a \<in> set as. fm_get fs' (a_name a) =
         (case present g (a_name a) of None \<Rightarrow> fm_get g (a_name a)
          | Some v \<Rightarrow> Some (canonical_value x (a_ty a) v))))"
    using Cons.IH [of g] Cons.prems by simp
  show ?case
  proof (intro conjI allI impI)
    show "(\<exists>fs'. foldE (validate_attribute x) fs (b # as) = Inr fs') \<longleftrightarrow>
        (\<forall>a \<in> set (b # as). accepts x a (fm_get fs (a_name a)))"
      unfolding step using IH same(1) by simp
  next
    fix fs' k assume "foldE (validate_attribute x) fs (b # as) = Inr fs'" "k \<notin> a_name ` set (b # as)"
    then show "fm_get fs' k = fm_get fs k" unfolding step using IH by (simp add: g)
  next
    fix fs' assume v: "foldE (validate_attribute x) fs (b # as) = Inr fs'"
    show "\<forall>a \<in> set (b # as). fm_get fs' (a_name a) =
        (case present fs (a_name a) of None \<Rightarrow> fm_get fs (a_name a)
         | Some v \<Rightarrow> Some (canonical_value x (a_ty a) v))"
    proof
      fix a assume a: "a \<in> set (b # as)"
      show "fm_get fs' (a_name a) =
        (case present fs (a_name a) of None \<Rightarrow> fm_get fs (a_name a)
         | Some v \<Rightarrow> Some (canonical_value x (a_ty a) v))"
      proof (cases "a = b")
        case True
        show ?thesis unfolding True using v [unfolded step] IH nb by (simp add: g)
      next
        case False
        then have "a \<in> set as" using a by simp
        then show ?thesis using v [unfolded step] IH same by (simp only:)
      qed
    qed
  qed
qed simp



section \<open>Validations\<close>

definition validation_errors ::
    "external \<Rightarrow> action_def \<Rightarrow> fields option \<Rightarrow> fields \<Rightarrow> action_context \<Rightarrow> error list" where
  "validation_errors x a record fs ac =
     concat (map (\<lambda>v. case validation_result x
         (\<lambda>f. case fm_get fs f of Some v \<Rightarrow> Some v | None \<Rightarrow> fm_get (ac_arguments ac) f)
         \<lparr>vx_record = record, vx_fields = fs, vx_action = ac\<rparr> v of
       Inl e \<Rightarrow> [e] | Inr _ \<Rightarrow> []) (act_validations a))"

lemma map_filter_concat:
  "List.map_filter f xs = concat (map (\<lambda>x. case f x of Some y \<Rightarrow> [y] | None \<Rightarrow> []) xs)"
  by (induction xs) (auto simp: List.map_filter_def split: option.splits)

lemma run_validations_errors: "run_validations_with_context x a record fs ac = collect_errors (validation_errors x a record fs ac)"
proof -
  have "(case (case r of Inl e \<Rightarrow> Some e | Inr (_ :: unit) \<Rightarrow> None) of Some y \<Rightarrow> [y] | None \<Rightarrow> []) =
      (case r of Inl e \<Rightarrow> [e] | Inr _ \<Rightarrow> [])" for r :: "unit res"
    by (cases r) simp_all
  then show ?thesis
    by (simp add: run_validations_with_context_def validation_errors_def Let_def map_filter_concat)
qed

text \<open>
  C39: An action's validations all run and all their failures are
  reported: the action is valid exactly when each validation passes, and otherwise the one
  error it fails with flattens to the failures of all of them, in the order declared.
\<close>

theorem validations_all_reported:
  "(run_validations_with_context x a record fs ac = Inr () \<longleftrightarrow> validation_errors x a record fs ac = []) \<and>
   (\<forall>e. run_validations_with_context x a record fs ac = Inl e \<longrightarrow>
      into_each e = concat (map into_each (validation_errors x a record fs ac)))"
  unfolding run_validations_errors using collect_errors_each by simp

lemma validations_all_reported_witness:
  "map (message sample_external) (into_each (EMultiple
     [EValidation ''title'' ''expected one of %{values}'' [(''values'', VString ''a, b'')],
      EValidation ''n'' ''must be a number'' []])) = [''expected one of a, b'', ''must be a number'']"
proof -
  let ?a = "(create_action ''open'')\<lparr>act_validations :=
    [OneOf ''title'' [''a'', ''b''], Present ''title'', Numericality ''n'' (Some 1) None]\<rparr>"
  let ?ac = "\<lparr>ac_actor = None, ac_tenant = None, ac_metadata = [], ac_arguments = [(''n'', VString ''x'')]\<rparr>"
  have "run_validations_with_context sample_external ?a None [(''title'', VString ''c'')] ?ac =
      Inl (EMultiple [EValidation ''title'' ''expected one of %{values}'' [(''values'', VString ''a, b'')],
        EValidation ''n'' ''must be a number'' []])"
    by code_simp
  then have "into_each (EMultiple [EValidation ''title'' ''expected one of %{values}'' [(''values'', VString ''a, b'')],
        EValidation ''n'' ''must be a number'' []]) =
      concat (map into_each (validation_errors sample_external ?a None [(''title'', VString ''c'')] ?ac))"
    using validations_all_reported by blast
  moreover have "map (message sample_external) (concat (map into_each
      (validation_errors sample_external ?a None [(''title'', VString ''c'')] ?ac))) =
      [''expected one of a, b'', ''must be a number'']"
    by code_simp
  ultimately show ?thesis by (simp only:)
qed

text \<open>
  A number is compared as the float nearest it, so a bound past \<open>2 ^ 53\<close> lets its neighbour
  in.
\<close>

lemma numericality_rounds:
  "check_builtin_validation x (Numericality f (Some 9007199254740993) None) (Some (VInt 9007199254740992)) = Inr ()"
  "check_builtin_validation x (Numericality f (Some 9007199254740994) None) (Some (VInt 9007199254740992)) \<noteq> Inr ()"
proof -
  have log2: "log2_nat 9007199254740992 = 53" "log2_nat 9007199254740993 = 53" "log2_nat 9007199254740994 = 53"
    by (intro log2_nat_eq; simp)+
  have "f64_less (f64_of_i64 9007199254740992) (f64_of_i64 9007199254740993) = False"
    "f64_less (f64_of_i64 9007199254740992) (f64_of_i64 9007199254740994) = True"
    using log2 by (simp_all add: f64_of_i64_def f64_nat_bits_def f64_significand_def round_div_def
        f64_less_def f64_partial_cmp_def f64_is_nan_def f64_mag_def f64_key_def f64_neg_def f64_inf_mag_def)
  then show "check_builtin_validation x (Numericality f (Some 9007199254740993) None) (Some (VInt 9007199254740992)) = Inr ()"
    "check_builtin_validation x (Numericality f (Some 9007199254740994) None) (Some (VInt 9007199254740992)) \<noteq> Inr ()"
    by (simp_all add: check_builtin_validation_def number_of_def is_some_and_def)
qed

section \<open>Tenants\<close>

lemma and_filters_eval:
  "(\<forall>f. and_filters l r = Some f \<longrightarrow> filter_eval x reg res fs f = Some True) \<longleftrightarrow>
   (\<forall>f. l = Some f \<longrightarrow> filter_eval x reg res fs f = Some True) \<and>
   (\<forall>f. r = Some f \<longrightarrow> filter_eval x reg res fs f = Some True)"
  by (cases l; cases r) (auto simp: eval_filter_and all_of_True)

definition admitted :: "external \<Rightarrow> registry \<Rightarrow> resource_def option \<Rightarrow> Filter option \<Rightarrow> fields \<Rightarrow> bool" where
  "admitted x reg res f fs \<longleftrightarrow> (case f of None \<Rightarrow> True | Some g \<Rightarrow> filter_eval x reg res fs g = Some True)"

lemma admitted_and: "admitted x reg res (and_filters l r) fs \<longleftrightarrow> admitted x reg res l fs \<and> admitted x reg res r fs"
  by (cases l; cases r) (auto simp: admitted_def eval_filter_and all_of_True)

lemma admitted_tenant:
  "admitted x reg res (tenant_filter r tenant) fs \<longleftrightarrow>
   (\<forall>mt attr t. r_multitenancy r = Some mt \<longrightarrow> mt_strategy mt = AttributeTenancy attr \<longrightarrow> tenant = Some t \<longrightarrow>
      fm_get fs attr = Some (VString t))"
  by (auto simp: admitted_def tenant_filter_def is_null_def present_iff
      split: option.splits multitenancy_strategy.splits)

lemma visible_scope_admits:
  assumes "visible_scope r f tenant = Inr (f', tenant')"
  shows "admitted x reg res f' fs \<longleftrightarrow>
    admitted x reg res f fs \<and> admitted x reg res (tenant_filter r tenant) fs \<and>
    admitted x reg res (primary_read_filter r) fs"
  using assms
  by (auto simp: visible_scope_def apply_tenant_scope_def bindE_eq_Inr admitted_and split: if_splits)



section \<open>Lock versions\<close>

lemma next_version_step:
  "sint n \<noteq> i64_max \<Longrightarrow> \<exists>m. next_version x (Some (VInt n)) = Inr (VInt m) \<and> sint m = sint n + 1"
proof -
  assume n: "sint n \<noteq> i64_max"
  have "i64_fits (sint n + 1)" using n sint_i64_range [of n] by (simp add: i64_fits_def)
  moreover from this have "sint (word_of_int (sint n + 1) :: i64) = sint n + 1"
    by (intro sint_of_int_i64) (simp_all add: i64_fits_def)
  ultimately show ?thesis by (auto simp: next_version_def i64_add_def)
qed

lemma next_version_overflow:
  "x_overflow_checks x \<Longrightarrow> next_version x (Some (VInt (word_of_int i64_max))) = Inl (EPanic ''attempt to add with overflow'')"
  by (simp add: next_version_def i64_add_def i64_result_def i64_fits_def sint_of_int_i64 i64_min_def i64_max_def)

end
