(* ===== verification/AshDataLayer.thy ===== *)
theory AshDataLayer
  imports AshPipelineFacts
begin

text \<open>
  \<open>crates/ash-core/src/data_layer.rs\<close> and \<open>aggregate.rs\<close>: what a data layer is asked for, and
  what it does by default. The \<open>DataLayer\<close> trait is a record of operations on a state \<open>'d\<close>;
  one that writes gives its result and the state after it, kept also where it fails. The
  record of a layer that overrides a method holds that method, and \<open>default_layer\<close> fills in
  the trait's own.

  \<open>in_transaction\<close> and \<open>transaction\<close> take a closure over a data layer and are given where they
  are used. A page and its count, read concurrently, are read one after the other: neither
  changes the state.
\<close>

section \<open>Sorts and queries\<close>

definition sort_on :: "string \<Rightarrow> bool \<Rightarrow> sort_def" where
  "sort_on field descending =
     \<lparr>s_field = field, s_descending = descending, s_guard = None, s_nulls_first = None\<rparr>"

definition nulls_first :: "sort_def \<Rightarrow> bool" where
  "nulls_first s = (case s_nulls_first s of Some b \<Rightarrow> b | None \<Rightarrow> s_descending s)"

definition sort_reversed :: "sort_def \<Rightarrow> sort_def" where
  "sort_reversed s =
     s\<lparr>s_descending := \<not> s_descending s, s_nulls_first := map_option Not (s_nulls_first s)\<rparr>"

record compiled_query =
  q_filter :: "Filter option"
  q_sort :: "sort_def list"
  q_select :: "string list option"
  q_actor :: "actor option"
  q_calculations :: "string list"
  q_calculation_args :: "(string, fields) hmap"
  q_aggregates :: "string list"
  q_limit :: "nat option"
  q_offset :: "nat option"
  q_tenant :: "string option"

definition default_query :: compiled_query where
  "default_query =
     \<lparr>q_filter = None, q_sort = [], q_select = None, q_actor = None, q_calculations = [],
      q_calculation_args = [], q_aggregates = [], q_limit = None, q_offset = None, q_tenant = None\<rparr>"

datatype per_key =
    PerAttribute string
  | PerThrough resource_def "Filter option" string string string

definition custom_calculations :: "compiled_query \<Rightarrow> resource_def \<Rightarrow> calculation_def list" where
  "custom_calculations q r =
     filter (\<lambda>calc. is_custom (c_expr calc)) (List.map_filter (calculation r) (q_calculations q))"

definition query_reads :: "compiled_query \<Rightarrow> resource_def \<Rightarrow> attribute_def \<Rightarrow> bool" where
  "query_reads q r a \<longleftrightarrow>
     a_primary_key a \<or>
     (case q_select q of None \<Rightarrow> True | Some select \<Rightarrow> a_name a \<in> set select) \<or>
     custom_calculations q r \<noteq> []"

lemma nulls_first_reversed [simp]: "nulls_first (sort_reversed s) = (\<not> nulls_first s)"
  by (cases "s_nulls_first s") (simp_all add: nulls_first_def sort_reversed_def)

lemma sort_reversed_twice [simp]: "sort_reversed (sort_reversed s) = s"
  by (cases "s_nulls_first s") (simp_all add: sort_reversed_def)

section \<open>The operations\<close>

record 'd data_layer =
  dl_create :: "'d \<Rightarrow> resource_def \<Rightarrow> string option \<Rightarrow> Value \<Rightarrow> fields \<Rightarrow> fields res \<times> 'd"
  dl_update :: "'d \<Rightarrow> resource_def \<Rightarrow> string option \<Rightarrow> Value \<Rightarrow> fields \<Rightarrow> fields res \<times> 'd"
  dl_destroy :: "'d \<Rightarrow> resource_def \<Rightarrow> string option \<Rightarrow> Value \<Rightarrow> unit res \<times> 'd"
  dl_run_query :: "'d \<Rightarrow> resource_def \<Rightarrow> compiled_query \<Rightarrow> fields list res"
  dl_can_update_atomically :: "resource_def \<Rightarrow> bool"
  dl_can_raise_atomically :: "resource_def \<Rightarrow> bool"
  dl_update_atomic :: "'d \<Rightarrow> resource_def \<Rightarrow> compiled_query \<Rightarrow> atomic_update \<Rightarrow> fields list res \<times> 'd"
  dl_can_destroy_atomically :: "resource_def \<Rightarrow> bool"
  dl_destroy_atomic :: "'d \<Rightarrow> resource_def \<Rightarrow> compiled_query \<Rightarrow> atomic_condition list \<Rightarrow> fields list res \<times> 'd"
  dl_can_run_query_per_key :: "resource_def \<Rightarrow> per_key \<Rightarrow> bool"
  dl_run_query_per_key :: "'d \<Rightarrow> resource_def \<Rightarrow> compiled_query \<Rightarrow> per_key \<Rightarrow> Value list \<Rightarrow> fields list list res"
  dl_count :: "'d \<Rightarrow> resource_def \<Rightarrow> compiled_query \<Rightarrow> nat res"
  dl_upsert :: "'d \<Rightarrow> resource_def \<Rightarrow> string option \<Rightarrow> Value \<Rightarrow> fields \<Rightarrow> identity_def \<Rightarrow> string list \<Rightarrow>
    fields res \<times> 'd"
  dl_bulk_create :: "'d \<Rightarrow> resource_def \<Rightarrow> string option \<Rightarrow> (Value \<times> fields) list \<Rightarrow> fields list res \<times> 'd"
  dl_bulk_destroy :: "'d \<Rightarrow> resource_def \<Rightarrow> string option \<Rightarrow> Value list \<Rightarrow> unit res \<times> 'd"
  dl_bulk_update :: "'d \<Rightarrow> resource_def \<Rightarrow> string option \<Rightarrow> (Value \<times> fields) list \<Rightarrow> fields res list res \<times> 'd"

section \<open>The defaults\<close>

definition cannot_update :: "'d \<Rightarrow> resource_def \<Rightarrow> compiled_query \<Rightarrow> atomic_update \<Rightarrow> fields list res \<times> 'd" where
  "cannot_update d r q u =
     (Inl (EInvalid (''this data layer can'' @ [CHR 0x27] @ ''t update '' @ r_name r @ '' atomically'')), d)"

definition cannot_destroy ::
    "'d \<Rightarrow> resource_def \<Rightarrow> compiled_query \<Rightarrow> atomic_condition list \<Rightarrow> fields list res \<times> 'd" where
  "cannot_destroy d r q cs =
     (Inl (EInvalid (''this data layer can'' @ [CHR 0x27] @ ''t destroy '' @ r_name r @ '' atomically'')), d)"

definition cannot_read_per_key ::
    "'d \<Rightarrow> resource_def \<Rightarrow> compiled_query \<Rightarrow> per_key \<Rightarrow> Value list \<Rightarrow> fields list list res" where
  "cannot_read_per_key d r q by' keys =
     Inl (EInvalid (''this data layer can'' @ [CHR 0x27] @ ''t read '' @ r_name r @ '' once per key''))"

definition cannot_upsert ::
    "'d \<Rightarrow> resource_def \<Rightarrow> string option \<Rightarrow> Value \<Rightarrow> fields \<Rightarrow> identity_def \<Rightarrow> string list \<Rightarrow> fields res \<times> 'd" where
  "cannot_upsert d r tenant pk fs ident update_fields =
     (Inl (EInvalid (''upsert is not supported for resource `'' @ r_name r @ ''` by this data layer'')), d)"

definition default_count ::
    "('d \<Rightarrow> resource_def \<Rightarrow> compiled_query \<Rightarrow> fields list res) \<Rightarrow> 'd \<Rightarrow> resource_def \<Rightarrow> compiled_query \<Rightarrow> nat res" where
  "default_count run_query d r q = bindE (run_query d r q) (\<lambda>rows. Inr (length rows))"

fun default_bulk_create ::
    "('d \<Rightarrow> resource_def \<Rightarrow> string option \<Rightarrow> Value \<Rightarrow> fields \<Rightarrow> fields res \<times> 'd) \<Rightarrow>
     'd \<Rightarrow> resource_def \<Rightarrow> string option \<Rightarrow> (Value \<times> fields) list \<Rightarrow> fields list res \<times> 'd" where
  "default_bulk_create create d r tenant [] = (Inr [], d)"
| "default_bulk_create create d r tenant ((pk, fs) # rows) =
     (case create d r tenant pk fs of
        (Inl e, d') \<Rightarrow> (Inl e, d')
      | (Inr stored, d') \<Rightarrow>
          (case default_bulk_create create d' r tenant rows of
             (Inl e, d'') \<Rightarrow> (Inl e, d'')
           | (Inr results, d'') \<Rightarrow> (Inr (stored # results), d'')))"

fun default_bulk_destroy ::
    "('d \<Rightarrow> resource_def \<Rightarrow> string option \<Rightarrow> Value \<Rightarrow> unit res \<times> 'd) \<Rightarrow>
     'd \<Rightarrow> resource_def \<Rightarrow> string option \<Rightarrow> Value list \<Rightarrow> unit res \<times> 'd" where
  "default_bulk_destroy destroy d r tenant [] = (Inr (), d)"
| "default_bulk_destroy destroy d r tenant (pk # pks) =
     (case destroy d r tenant pk of
        (Inl e, d') \<Rightarrow> (Inl e, d')
      | (Inr _, d') \<Rightarrow> default_bulk_destroy destroy d' r tenant pks)"

text \<open>Each row has its own result: one that fails doesn't stop the rest.\<close>

fun update_each ::
    "('d \<Rightarrow> resource_def \<Rightarrow> string option \<Rightarrow> Value \<Rightarrow> fields \<Rightarrow> fields res \<times> 'd) \<Rightarrow>
     'd \<Rightarrow> resource_def \<Rightarrow> string option \<Rightarrow> (Value \<times> fields) list \<Rightarrow> fields res list \<times> 'd" where
  "update_each update d r tenant [] = ([], d)"
| "update_each update d r tenant ((pk, fs) # rows) =
     (let (res, d') = update d r tenant pk fs; (results, d'') = update_each update d' r tenant rows
      in (res # results, d''))"

definition default_bulk_update ::
    "('d \<Rightarrow> resource_def \<Rightarrow> string option \<Rightarrow> Value \<Rightarrow> fields \<Rightarrow> fields res \<times> 'd) \<Rightarrow>
     'd \<Rightarrow> resource_def \<Rightarrow> string option \<Rightarrow> (Value \<times> fields) list \<Rightarrow> fields res list res \<times> 'd" where
  "default_bulk_update update d r tenant rows =
     (let (results, d') = update_each update d r tenant rows in (Inr results, d'))"

text \<open>A layer of its four required methods.\<close>

definition default_layer ::
    "('d \<Rightarrow> resource_def \<Rightarrow> string option \<Rightarrow> Value \<Rightarrow> fields \<Rightarrow> fields res \<times> 'd) \<Rightarrow>
     ('d \<Rightarrow> resource_def \<Rightarrow> string option \<Rightarrow> Value \<Rightarrow> fields \<Rightarrow> fields res \<times> 'd) \<Rightarrow>
     ('d \<Rightarrow> resource_def \<Rightarrow> string option \<Rightarrow> Value \<Rightarrow> unit res \<times> 'd) \<Rightarrow>
     ('d \<Rightarrow> resource_def \<Rightarrow> compiled_query \<Rightarrow> fields list res) \<Rightarrow> 'd data_layer" where
  "default_layer create update destroy run_query =
     \<lparr>dl_create = create, dl_update = update, dl_destroy = destroy, dl_run_query = run_query,
      dl_can_update_atomically = (\<lambda>_. False), dl_can_raise_atomically = (\<lambda>_. False),
      dl_update_atomic = cannot_update, dl_can_destroy_atomically = (\<lambda>_. False),
      dl_destroy_atomic = cannot_destroy, dl_can_run_query_per_key = (\<lambda>_ _. False),
      dl_run_query_per_key = cannot_read_per_key, dl_count = default_count run_query,
      dl_upsert = cannot_upsert, dl_bulk_create = default_bulk_create create,
      dl_bulk_destroy = default_bulk_destroy destroy, dl_bulk_update = default_bulk_update update\<rparr>"

definition run_query_with_count ::
    "'d data_layer \<Rightarrow> 'd \<Rightarrow> resource_def \<Rightarrow> compiled_query \<Rightarrow> compiled_query \<Rightarrow> (fields list \<times> nat) res" where
  "run_query_with_count dl d r page count' =
     bindE (dl_run_query dl d r page) (\<lambda>rows.
     bindE (dl_count dl d r count') (\<lambda>n. Inr (rows, n)))"

section \<open>A layer that stores nothing\<close>

definition no_data_layer :: "resource_def \<Rightarrow> 'a res" where
  "no_data_layer r =
     Inl (EDataLayer (r_name r @ '' has no data layer here; use a Context with a real data layer to persist it''))"

definition no_layer :: "unit data_layer" where
  "no_layer = (default_layer (\<lambda>d r _ _ _. (no_data_layer r, d)) (\<lambda>d r _ _ _. (no_data_layer r, d))
     (\<lambda>d r _ _. (no_data_layer r, d)) (\<lambda>d r _. no_data_layer r))
       \<lparr>dl_upsert := (\<lambda>d r _ _ _ _ _. (no_data_layer r, d))\<rparr>"

lemma default_bulk_create_length:
  "default_bulk_create create d r tenant rows = (Inr results, d') \<Longrightarrow> length results = length rows"
  by (induction rows arbitrary: d results) (auto split: prod.splits sum.splits)

lemma update_each_length: "length (fst (update_each update d r tenant rows)) = length rows"
  by (induction rows arbitrary: d) (auto simp: Let_def case_prod_unfold)

section \<open>Aggregates\<close>

definition agg_base :: "string \<Rightarrow> string \<Rightarrow> aggregate_kind \<Rightarrow> attr_type \<Rightarrow> aggregate_def" where
  "agg_base name rel kind ty =
     \<lparr>ag_name = name, ag_relationship = rel, ag_kind = kind, ag_filter = None, ag_ty = ty\<rparr>"

definition agg_count :: "string \<Rightarrow> string \<Rightarrow> aggregate_def" where
  "agg_count name rel = agg_base name rel AggCount TInteger"

definition agg_count_where :: "string \<Rightarrow> string \<Rightarrow> aggregate_filter \<Rightarrow> aggregate_def" where
  "agg_count_where name rel f = (agg_base name rel AggCount TInteger)\<lparr>ag_filter := Some f\<rparr>"

definition agg_exists :: "string \<Rightarrow> string \<Rightarrow> aggregate_def" where
  "agg_exists name rel = agg_base name rel AggExists TBoolean"

definition agg_exists_where :: "string \<Rightarrow> string \<Rightarrow> aggregate_filter \<Rightarrow> aggregate_def" where
  "agg_exists_where name rel f = (agg_base name rel AggExists TBoolean)\<lparr>ag_filter := Some f\<rparr>"

definition agg_first :: "string \<Rightarrow> string \<Rightarrow> string \<Rightarrow> attr_type \<Rightarrow> aggregate_def" where
  "agg_first name rel field ty = agg_base name rel (AggFirst field) ty"

definition agg_first_where :: "string \<Rightarrow> string \<Rightarrow> string \<Rightarrow> attr_type \<Rightarrow> aggregate_filter \<Rightarrow> aggregate_def" where
  "agg_first_where name rel field ty f = (agg_base name rel (AggFirst field) ty)\<lparr>ag_filter := Some f\<rparr>"

definition agg_sum :: "string \<Rightarrow> string \<Rightarrow> string \<Rightarrow> aggregate_def" where
  "agg_sum name rel field = agg_base name rel (AggSum field) TInteger"

definition agg_sum_where :: "string \<Rightarrow> string \<Rightarrow> string \<Rightarrow> aggregate_filter \<Rightarrow> aggregate_def" where
  "agg_sum_where name rel field f = (agg_base name rel (AggSum field) TInteger)\<lparr>ag_filter := Some f\<rparr>"

end
