(* ===== verification/AshMemory.thy ===== *)
theory AshMemory
  imports AshDataLayer
begin

text \<open>
  \<open>crates/ash-memory/src/lib.rs\<close>: the data layer of hash maps. A store is its tables, each a
  map from a record's key to its fields, and whether its lock is poisoned, as a panic while
  writing leaves it. Filters are evaluated over the tables, through relationships, in the
  query's tenant; queries filter, compute, sort, page and select; writes check the
  identities; a transaction works on a copy and merges it back unless a row it touched has
  changed.

  A key is found by the values' own equality, and a table iterates in the order of its list.
  A registry names every destination and join resource; one it lacks relates to nothing. A
  panic of a calculation that a filter through a relationship or a policy reads (an
  overflow, in a build that checks) is taken as that calculation failing; everywhere else a
  panic is the operation's result.
\<close>

section \<open>Tables\<close>

type_synonym mem_table = "(Value \<times> fields) list"
type_synonym mem_tables = "(string, mem_table) hmap"

definition tb_get :: "mem_table \<Rightarrow> Value \<Rightarrow> fields option" where
  "tb_get t k = map_option snd (List.find (\<lambda>e. value_eq (fst e) k) t)"

fun tb_insert :: "Value \<Rightarrow> fields \<Rightarrow> mem_table \<Rightarrow> mem_table" where
  "tb_insert k row [] = [(k, row)]"
| "tb_insert k row ((k', row') # t) =
     (if value_eq k' k then (k', row) # t else (k', row') # tb_insert k row t)"

definition tb_remove :: "Value \<Rightarrow> mem_table \<Rightarrow> mem_table" where
  "tb_remove k t = filter (\<lambda>e. \<not> value_eq (fst e) k) t"

definition tb_rows :: "mem_table \<Rightarrow> fields list" where
  "tb_rows t = map snd t"

definition table_or_default :: "mem_tables \<Rightarrow> string \<Rightarrow> mem_table" where
  "table_or_default tb key = (case fm_get tb key of Some t \<Rightarrow> t | None \<Rightarrow> [])"

text \<open>Equality of two optional values, and of two rows, as \<open>Option\<close> and \<open>HashMap\<close> have it.\<close>

fun opt_eq :: "('a \<Rightarrow> 'a \<Rightarrow> bool) \<Rightarrow> 'a option \<Rightarrow> 'a option \<Rightarrow> bool" where
  "opt_eq eq None None = True"
| "opt_eq eq (Some a) (Some b) = eq a b"
| "opt_eq eq _ _ = False"

definition fields_eq :: "fields \<Rightarrow> fields \<Rightarrow> bool" where
  "fields_eq a b \<longleftrightarrow>
     length a = length b \<and> list_all (\<lambda>(k, v). opt_eq value_eq (fm_get b k) (Some v)) a"

definition table_eq :: "mem_table \<Rightarrow> mem_table \<Rightarrow> bool" where
  "table_eq a b \<longleftrightarrow>
     length a = length b \<and> list_all (\<lambda>(k, row). opt_eq fields_eq (tb_get b k) (Some row)) a"

definition table_key :: "resource_def \<Rightarrow> string option \<Rightarrow> string" where
  "table_key r tenant =
     (case (r_multitenancy r, tenant) of
        (Some mt, Some t) \<Rightarrow> if mt_strategy mt = ContextTenancy then r_name r @ ''@'' @ t else r_name r
      | _ \<Rightarrow> r_name r)"

section \<open>Values of a column\<close>

definition column_type :: "resource_def \<Rightarrow> string \<Rightarrow> attr_type option" where
  "column_type r field =
     (case attribute r field of Some a \<Rightarrow> Some (a_ty a) | None \<Rightarrow> map_option c_ty (calculation r field))"

definition is_ci_string :: "resource_def \<Rightarrow> string \<Rightarrow> bool" where
  "is_ci_string r field \<longleftrightarrow> column_type r field = Some TCiString"

definition same_value :: "external \<Rightarrow> attr_type option \<Rightarrow> Value \<Rightarrow> Value \<Rightarrow> bool" where
  "same_value x ty a b \<longleftrightarrow> compare_typed x ty a b = Equal"

definition mem_compare ::
    "external \<Rightarrow> attr_type option \<Rightarrow> Value option \<Rightarrow> Value \<Rightarrow> ordering \<Rightarrow> bool \<Rightarrow> bool option" where
  "mem_compare x ty got rhs direction equal_ok =
     (case non_null got of
        None \<Rightarrow> None
      | Some g \<Rightarrow>
          if is_null rhs then None
          else Some (case compare_typed x ty g rhs of Equal \<Rightarrow> equal_ok | order \<Rightarrow> order = direction))"

section \<open>Identities\<close>

definition identity_matches :: "external \<Rightarrow> resource_def \<Rightarrow> identity_def \<Rightarrow> string list \<Rightarrow> fields \<Rightarrow> fields \<Rightarrow> bool" where
  "identity_matches x r ident columns new existing =
     list_all (\<lambda>k. case (present new k, present existing k) of
         (Some a, Some b) \<Rightarrow> same_value x (column_type r k) a b
       | (None, None) \<Rightarrow> \<not> i_nils_distinct ident
       | _ \<Rightarrow> False) columns"

definition identity_conflict :: "identity_def \<Rightarrow> error" where
  "identity_conflict ident =
     EIdentityConflict (i_name ident) (i_keys ident)
       (case i_message ident of Some m \<Rightarrow> m | None \<Rightarrow> ''record with this identity already exists'')"

definition check_identity ::
    "external \<Rightarrow> resource_def \<Rightarrow> mem_table \<Rightarrow> Value \<Rightarrow> fields \<Rightarrow> fields option \<Rightarrow> identity_def \<Rightarrow> unit res" where
  "check_identity x r t pk fs before ident =
     (let columns = identity_columns ident (r_multitenancy r)
      in if i_predicate ident \<noteq> None then Inr ()
         else if (case before of
                    Some b \<Rightarrow> list_all (\<lambda>k. opt_eq value_eq (fm_get fs k) (fm_get b k)) columns
                  | None \<Rightarrow> False) then Inr ()
         else if list_ex (\<lambda>(existing, row). \<not> value_eq existing pk \<and> identity_matches x r ident columns fs row) t
         then Inl (identity_conflict ident)
         else Inr ())"

definition check_identities ::
    "external \<Rightarrow> resource_def \<Rightarrow> mem_table \<Rightarrow> Value \<Rightarrow> fields \<Rightarrow> fields option \<Rightarrow> unit res" where
  "check_identities x r t pk fs before =
     foldE (\<lambda>_ ident. check_identity x r t pk fs before ident) () (r_identities r)"

definition in_tenant :: "external \<Rightarrow> registry \<Rightarrow> resource_def \<Rightarrow> string option \<Rightarrow> fields \<Rightarrow> bool" where
  "in_tenant x reg r tenant row =
     (case tenant_filter r tenant of None \<Rightarrow> True | Some f \<Rightarrow> matches_on x reg f r row)"

section \<open>Keys\<close>

definition max_int_key :: "mem_table \<Rightarrow> i64 option" where
  "max_int_key t =
     (case List.map_filter (\<lambda>(k, _). as_int k) t of
        [] \<Rightarrow> None
      | n # ns \<Rightarrow> Some (foldl (\<lambda>m k. if sint m \<le> sint k then k else m) n ns))"

definition assign_key ::
    "external \<Rightarrow> resource_def \<Rightarrow> mem_table \<Rightarrow> Value \<Rightarrow> fields \<Rightarrow> (Value \<times> fields) res" where
  "assign_key x r t pk fs =
     (if \<not> is_null pk then Inr (pk, fs)
      else bindE (ok_or (primary_key r) (EInvalid (r_name r @ '' has no primary key''))) (\<lambda>attr.
        if a_ty attr \<noteq> TInteger then Inl (EMissing (a_name attr))
        else bindE (i64_add x (case max_int_key t of Some n \<Rightarrow> n | None \<Rightarrow> 0) 1) (\<lambda>n.
          Inr (VInt n, fm_insert (a_name attr) (VInt n) fs))))"

section \<open>Filters over the tables\<close>

definition with_calculations :: "external \<Rightarrow> resource_def \<Rightarrow> Filter \<Rightarrow> fields \<Rightarrow> fields" where
  "with_calculations x r f row =
     fold (\<lambda>name row. case apply_named x r row name [] of Inr row' \<Rightarrow> row' | Inl _ \<Rightarrow> row)
       (filter (\<lambda>name. calculation r name \<noteq> None \<and> \<not> fm_contains row name) (collect_fields f)) row"

definition keys_eq :: "Value list option \<Rightarrow> Value list option \<Rightarrow> bool" where
  "keys_eq a b = opt_eq (list_all2 value_eq) a b"

definition on_join :: "string option \<Rightarrow> string \<Rightarrow> string" where
  "on_join given attr = (case given of Some a \<Rightarrow> a | None \<Rightarrow> attr)"

definition eval_mem_text ::
    "external \<Rightarrow> resource_def \<Rightarrow> fields \<Rightarrow> string \<Rightarrow> string \<Rightarrow> (string \<Rightarrow> string \<Rightarrow> bool) \<Rightarrow> bool option" where
  "eval_mem_text x r row field needle test =
     map_option (\<lambda>got. text_matches x (Some got) needle (is_ci_string r field) test) (present row field)"

fun related_depth :: "Filter \<Rightarrow> nat" where
  "related_depth (FAnd parts) = Suc (Max (set (0 # map related_depth parts)))"
| "related_depth (FOr parts) = Suc (Max (set (0 # map related_depth parts)))"
| "related_depth (FNot inner) = Suc (related_depth inner)"
| "related_depth (FRelated _ f) = Suc (related_depth f)"
| "related_depth _ = 0"

lemma related_depth_part: "p \<in> set parts \<Longrightarrow> related_depth p < Suc (Max (insert 0 (related_depth ` set parts)))"
  by (simp add: less_Suc_eq_le)

text \<open>The names of the resources whose read filters may yet be applied.\<close>

definition unapplied :: "registry \<Rightarrow> resource_def \<Rightarrow> string list \<Rightarrow> string set" where
  "unapplied reg r scope = insert (r_name r) (r_name ` set reg) - set scope"

lemma resource_named_in: "resource_named reg name = Some r \<Longrightarrow> r \<in> set reg"
  unfolding resource_named_def by (drule find_SomeD) simp

lemma unapplied_le:
  "r' \<in> set reg \<Longrightarrow> card (unapplied reg r' scope) \<le> card (unapplied reg r scope)"
  unfolding unapplied_def by (intro card_mono) auto

lemma unapplied_less:
  "r_name r \<notin> set scope \<Longrightarrow> card (unapplied reg r (r_name r # scope)) < card (unapplied reg r scope)"
  unfolding unapplied_def by (intro psubset_card_mono) auto

lemma tenant_filter_depth: "tenant_filter r tenant = Some f \<Longrightarrow> related_depth f = 0"
  by (auto simp: tenant_filter_def split: option.splits multitenancy_strategy.splits)

function (sequential) mem_eval ::
    "external \<Rightarrow> registry \<Rightarrow> mem_tables \<Rightarrow> string option \<Rightarrow> resource_def \<Rightarrow> Filter \<Rightarrow> fields \<Rightarrow> string list \<Rightarrow> bool option"
  and passes_read_filter ::
    "external \<Rightarrow> registry \<Rightarrow> mem_tables \<Rightarrow> string option \<Rightarrow> resource_def \<Rightarrow> fields \<Rightarrow> string list \<Rightarrow> bool" where
  "mem_eval x reg tb tenant r FTrue row scope = Some True"
| "mem_eval x reg tb tenant r FFalse row scope = Some False"
| "mem_eval x reg tb tenant r (FEq field v) row scope =
     (if is_null v then Some (present row field = None)
      else map_option (\<lambda>got. same_value x (column_type r field) got v) (present row field))"
| "mem_eval x reg tb tenant r (FNe field v) row scope =
     (if is_null v then Some (present row field \<noteq> None)
      else map_option (\<lambda>got. \<not> same_value x (column_type r field) got v) (present row field))"
| "mem_eval x reg tb tenant r (FGt field v) row scope =
     mem_compare x (column_type r field) (fm_get row field) v Greater False"
| "mem_eval x reg tb tenant r (FGte field v) row scope =
     mem_compare x (column_type r field) (fm_get row field) v Greater True"
| "mem_eval x reg tb tenant r (FLt field v) row scope =
     mem_compare x (column_type r field) (fm_get row field) v Less False"
| "mem_eval x reg tb tenant r (FLte field v) row scope =
     mem_compare x (column_type r field) (fm_get row field) v Less True"
| "mem_eval x reg tb tenant r (FIn field vs) row scope =
     (if vs = [] then Some False
      else filter_in_list (present row field) vs (same_value x (column_type r field)))"
| "mem_eval x reg tb tenant r (FIsNil field) row scope = Some (present row field = None)"
| "mem_eval x reg tb tenant r (FHas field v) row scope =
     map_option (\<lambda>got. case got of VArray items \<Rightarrow> list_ex (\<lambda>i. value_eq i v) items | _ \<Rightarrow> False)
       (present row field)"
| "mem_eval x reg tb tenant r (FContains field needle) row scope = eval_mem_text x r row field needle str_contains"
| "mem_eval x reg tb tenant r (FStartsWith field needle) row scope = eval_mem_text x r row field needle str_starts_with"
| "mem_eval x reg tb tenant r (FEndsWith field needle) row scope = eval_mem_text x r row field needle str_ends_with"
| "mem_eval x reg tb tenant r (FLike field pattern) row scope = eval_mem_text x r row field pattern like_matches"
| "mem_eval x reg tb tenant r (FILike field pattern) row scope =
     map_option (\<lambda>got. text_matches x (Some got) pattern True like_matches) (present row field)"
| "mem_eval x reg tb tenant r (FAnd parts) row scope =
     all_of (map (\<lambda>p. mem_eval x reg tb tenant r p row scope) parts)"
| "mem_eval x reg tb tenant r (FOr parts) row scope =
     any_of (map (\<lambda>p. mem_eval x reg tb tenant r p row scope) parts)"
| "mem_eval x reg tb tenant r (FNot inner) row scope =
     map_option Not (mem_eval x reg tb tenant r inner row scope)"
| "mem_eval x reg tb tenant r (FRelated rel f) row scope = Some (
     case relationship r rel of None \<Rightarrow> False | Some rl \<Rightarrow>
     (case destination reg rl of None \<Rightarrow> False | Some dest \<Rightarrow>
     (case fm_get tb (table_key dest tenant) of None \<Rightarrow> False | Some dest_table \<Rightarrow>
        if rel_kind_of rl = ManyToMany then
          (case rel_through rl of None \<Rightarrow> False | Some through_name \<Rightarrow>
          (case resource_named reg through_name of None \<Rightarrow> False | Some through \<Rightarrow>
          (case fm_get tb (table_key through tenant) of None \<Rightarrow> False | Some through_table \<Rightarrow>
          (case fm_get row (rel_source_attribute rl) of None \<Rightarrow> False | Some source_val \<Rightarrow>
             let ids = List.map_filter
                   (\<lambda>jr. fm_get jr (on_join (rel_destination_attribute_on_join rl) (rel_destination_attribute rl)))
                   (filter (\<lambda>jr. opt_eq value_eq
                        (fm_get jr (on_join (rel_source_attribute_on_join rl) (rel_source_attribute rl)))
                        (Some source_val) \<and> passes_read_filter x reg tb tenant through jr scope)
                     (tb_rows through_table))
             in list_ex (\<lambda>dest_row.
                  list_ex (\<lambda>i. value_eq i (or_null (fm_get dest_row (rel_destination_attribute rl)))) ids \<and>
                  mem_eval x reg tb tenant dest f (with_calculations x dest f dest_row) scope = Some True \<and>
                  passes_read_filter x reg tb tenant dest (with_calculations x dest f dest_row) scope)
                (tb_rows dest_table)))))
        else
          (case source_key rl row of None \<Rightarrow> False | Some key \<Rightarrow>
             list_ex (\<lambda>dest_row.
                  keys_eq (destination_key rl dest_row) (Some key) \<and>
                  mem_eval x reg tb tenant dest f (with_calculations x dest f dest_row) scope = Some True \<and>
                  passes_read_filter x reg tb tenant dest (with_calculations x dest f dest_row) scope)
                (tb_rows dest_table)))))"
| "passes_read_filter x reg tb tenant r row scope =
     (if (case tenant_filter r tenant of
            Some tf \<Rightarrow> mem_eval x reg tb tenant r tf row scope \<noteq> Some True | None \<Rightarrow> False) then False
      else if r_name r \<in> set scope then True
      else (case primary_read_filter r of
              None \<Rightarrow> True
            | Some rf \<Rightarrow>
                mem_eval x reg tb tenant r rf (with_calculations x r rf row) (r_name r # scope) =
                  Some True))"
  by pat_completeness auto
termination
proof (relation "inv_image (less_than <*lex*> less_than <*lex*> less_than)
    (\<lambda>a. case a of
       Inl (x, reg, tb, tenant, r, f, row, scope) \<Rightarrow> (card (unapplied reg r scope), related_depth f, 0 :: nat)
     | Inr (x, reg, tb, tenant, r, row, scope) \<Rightarrow> (card (unapplied reg r scope), 0, 1))", goal_cases)
  case 1
  then show ?case by auto
qed (auto simp: related_depth_part tenant_filter_depth unapplied_less destination_def
      dest!: resource_named_in dest: unapplied_le intro: le_neq_implies_less)

definition row_matches_filter ::
    "external \<Rightarrow> registry \<Rightarrow> mem_tables \<Rightarrow> string option \<Rightarrow> resource_def \<Rightarrow> Filter \<Rightarrow> fields \<Rightarrow> bool" where
  "row_matches_filter x reg tb tenant r f row \<longleftrightarrow> mem_eval x reg tb tenant r f row [] = Some True"

section \<open>Calculations and aggregates\<close>

text \<open>\<open>read_policy\<close>: no filter to read by where the actor may read nothing.\<close>

definition read_policy :: "resource_def \<Rightarrow> actor option \<Rightarrow> Filter option option res" where
  "read_policy r actor =
     (case compile_read_filter r (default_read r) actor of
        Inr f \<Rightarrow> Inr (Some f)
      | Inl EForbidden \<Rightarrow> Inr None
      | Inl e \<Rightarrow> Inl e)"

definition actor_reads ::
    "external \<Rightarrow> registry \<Rightarrow> mem_tables \<Rightarrow> string option \<Rightarrow> resource_def \<Rightarrow> Filter option option \<Rightarrow> fields \<Rightarrow> bool" where
  "actor_reads x reg tb tenant r policy row =
     (case policy of
        Some None \<Rightarrow> True
      | Some (Some f) \<Rightarrow>
          (case foldE (\<lambda>row name. if fm_contains row name then Inr row else apply_named x r row name [])
                  row (filter (\<lambda>name. calculation r name \<noteq> None) (collect_fields f)) of
             Inl _ \<Rightarrow> False
           | Inr row' \<Rightarrow> mem_eval x reg tb tenant r f row' [] = Some True)
      | None \<Rightarrow> False)"

definition readable_rows ::
    "external \<Rightarrow> registry \<Rightarrow> mem_tables \<Rightarrow> string option \<Rightarrow> resource_def \<Rightarrow> Filter option option \<Rightarrow> fields list" where
  "readable_rows x reg tb tenant r policy =
     (case fm_get tb (table_key r tenant) of
        None \<Rightarrow> []
      | Some t \<Rightarrow> filter (\<lambda>row. passes_read_filter x reg tb tenant r row [] \<and>
                             actor_reads x reg tb tenant r policy row) (tb_rows t))"

fun aggregate_of_none :: "aggregate_kind \<Rightarrow> Value" where
  "aggregate_of_none AggCount = VInt 0"
| "aggregate_of_none AggExists = VBool False"
| "aggregate_of_none (AggFirst _) = VNull"
| "aggregate_of_none (AggSum _) = VNull"

fun aggregate_keeps :: "aggregate_filter option \<Rightarrow> fields \<Rightarrow> bool" where
  "aggregate_keeps None row = True"
| "aggregate_keeps (Some (AggEq f v)) row =
     (let got = or_null (fm_get row f) in \<not> is_null got \<and> value_eq got (value_from_const v))"
| "aggregate_keeps (Some (AggNe f v)) row =
     (let got = or_null (fm_get row f) in \<not> is_null got \<and> \<not> value_eq got (value_from_const v))"

fun sum_ints :: "external \<Rightarrow> i64 list \<Rightarrow> Value res" where
  "sum_ints x [] = Inr VNull"
| "sum_ints x (n # ns) = bindE (foldE (i64_add x) n ns) (\<lambda>m. Inr (VInt m))"

fun aggregate_value :: "external \<Rightarrow> aggregate_kind \<Rightarrow> fields list \<Rightarrow> Value res" where
  "aggregate_value x AggCount rows = Inr (VInt (word_of_nat (length rows)))"
| "aggregate_value x AggExists rows = Inr (VBool (rows \<noteq> []))"
| "aggregate_value x (AggFirst field) rows =
     Inr (case rows of [] \<Rightarrow> VNull | row # _ \<Rightarrow> or_null (fm_get row field))"
| "aggregate_value x (AggSum field) rows =
     sum_ints x (List.map_filter (\<lambda>row. Option.bind (fm_get row field) as_int) rows)"

definition related_rows ::
    "external \<Rightarrow> registry \<Rightarrow> mem_tables \<Rightarrow> string option \<Rightarrow> relationship_def \<Rightarrow> fields list \<Rightarrow> actor option \<Rightarrow>
     Value \<Rightarrow> fields \<Rightarrow> fields list res" where
  "related_rows x reg tb tenant rel dest_rows actor source_val row =
     (if rel_kind_of rel = ManyToMany then
        bindE (ok_or (Option.bind (rel_through rel) (resource_named reg)) (EInvalid ''many_to_many requires through''))
          (\<lambda>through.
        bindE (read_policy through actor) (\<lambda>policy.
          let ids = List.map_filter
                (\<lambda>jr. fm_get jr (on_join (rel_destination_attribute_on_join rel) (rel_destination_attribute rel)))
                (filter (\<lambda>jr. opt_eq value_eq
                     (fm_get jr (on_join (rel_source_attribute_on_join rel) (rel_source_attribute rel)))
                     (Some source_val))
                  (readable_rows x reg tb tenant through policy))
          in Inr (filter (\<lambda>dest_row. list_ex (\<lambda>i. value_eq i (or_null (fm_get dest_row (rel_destination_attribute rel)))) ids)
               dest_rows)))
      else
        (let key = source_key rel row
         in Inr (filter (\<lambda>dest_row. key \<noteq> None \<and> keys_eq (destination_key rel dest_row) key) dest_rows)))"

definition aggregate_row ::
    "external \<Rightarrow> registry \<Rightarrow> mem_tables \<Rightarrow> string option \<Rightarrow> aggregate_def \<Rightarrow> relationship_def \<Rightarrow> fields list \<Rightarrow>
     actor option \<Rightarrow> fields \<Rightarrow> fields res" where
  "aggregate_row x reg tb tenant agg rel dest_rows actor row =
     (let source_val = or_null (fm_get row (rel_source_attribute rel))
      in if is_null source_val then Inr (fm_insert (ag_name agg) (aggregate_of_none (ag_kind agg)) row)
         else bindE (related_rows x reg tb tenant rel dest_rows actor source_val row) (\<lambda>related.
              bindE (aggregate_value x (ag_kind agg) (filter (aggregate_keeps (ag_filter agg)) related)) (\<lambda>v.
                Inr (fm_insert (ag_name agg) v row))))"

definition apply_aggregate ::
    "external \<Rightarrow> registry \<Rightarrow> mem_tables \<Rightarrow> string option \<Rightarrow> resource_def \<Rightarrow> actor option \<Rightarrow> fields list \<Rightarrow> string \<Rightarrow>
     fields list res" where
  "apply_aggregate x reg tb tenant r actor rows name =
     bindE (ok_or (aggregate_of r name) (EInvalid (''unknown aggregate `'' @ name @ ''` on '' @ r_name r))) (\<lambda>agg.
     bindE (ok_or (relationship r (ag_relationship agg))
         (EInvalid (''unknown relationship `'' @ ag_relationship agg @ ''` in aggregate `'' @ ag_name agg @
            ''` on '' @ r_name r))) (\<lambda>rel.
     bindE (ok_or (destination reg rel) (EPanic ''unresolved relationship'')) (\<lambda>dest.
     bindE (read_policy dest actor) (\<lambda>policy.
       mapE (aggregate_row x reg tb tenant agg rel (readable_rows x reg tb tenant dest policy) actor) rows))))"

definition apply_aggregates ::
    "external \<Rightarrow> registry \<Rightarrow> mem_tables \<Rightarrow> string option \<Rightarrow> resource_def \<Rightarrow> fields list \<Rightarrow> string list \<Rightarrow>
     actor option \<Rightarrow> fields list res" where
  "apply_aggregates x reg tb tenant r rows needed actor =
     foldE (apply_aggregate x reg tb tenant r actor) rows needed"

definition sorted_names :: "(string \<Rightarrow> bool) \<Rightarrow> string list \<Rightarrow> string list" where
  "sorted_names P names = remdups_adj (sort_by str_cmp (filter P names))"

text \<open>\<open>compute\<close>: the rows with what \<open>names\<close> asks for, and the names computed so far.\<close>

definition compute ::
    "external \<Rightarrow> registry \<Rightarrow> mem_tables \<Rightarrow> string option \<Rightarrow> resource_def \<Rightarrow> compiled_query \<Rightarrow> string list \<Rightarrow>
     fields list \<times> string list \<Rightarrow> (fields list \<times> string list) res" where
  "compute x reg tb tenant r q names = (\<lambda>(rows, computed).
     let calculations = sorted_names (\<lambda>n. calculation r n \<noteq> None \<and> n \<notin> set computed) names
     in bindE (mapE (\<lambda>row. foldE (\<lambda>row n. apply_named x r row n
              (case fm_get (q_calculation_args q) n of Some args \<Rightarrow> args | None \<Rightarrow> [])) row calculations) rows) (\<lambda>rows.
        let computed = computed @ calculations;
            aggregates = sorted_names (\<lambda>n. aggregate_of r n \<noteq> None \<and> n \<notin> set computed) names
        in bindE (if aggregates = [] then Inr rows
                  else apply_aggregates x reg tb tenant r rows aggregates (q_actor q)) (\<lambda>rows.
             Inr (rows, computed @ aggregates))))"

definition strip_unrequested_calculations :: "resource_def \<Rightarrow> compiled_query \<Rightarrow> fields \<Rightarrow> fields" where
  "strip_unrequested_calculations r q row =
     fold (\<lambda>calc row. if c_name calc \<in> set (q_calculations q) then row else fm_remove (c_name calc) row)
       (r_calculations r) row"

definition strip_unrequested_aggregates :: "resource_def \<Rightarrow> compiled_query \<Rightarrow> fields \<Rightarrow> fields" where
  "strip_unrequested_aggregates r q row =
     fold (\<lambda>agg row. if ag_name agg \<in> set (q_aggregates q) then row else fm_remove (ag_name agg) row)
       (r_aggregates r) row"

section \<open>Queries\<close>

definition filter_fields :: "Filter option \<Rightarrow> string list" where
  "filter_fields f = (case f of None \<Rightarrow> [] | Some f \<Rightarrow> collect_fields f)"

definition keep_matching ::
    "external \<Rightarrow> registry \<Rightarrow> mem_tables \<Rightarrow> string option \<Rightarrow> resource_def \<Rightarrow> Filter option \<Rightarrow> fields list \<Rightarrow> fields list" where
  "keep_matching x reg tb tenant r f rows =
     (case f of None \<Rightarrow> rows | Some f \<Rightarrow> filter (row_matches_filter x reg tb tenant r f) rows)"

definition sort_value ::
    "external \<Rightarrow> registry \<Rightarrow> mem_tables \<Rightarrow> string option \<Rightarrow> resource_def \<Rightarrow> sort_def \<Rightarrow> fields \<Rightarrow> Value" where
  "sort_value x reg tb tenant r s row =
     (if (case s_guard s of Some g \<Rightarrow> \<not> row_matches_filter x reg tb tenant r g row | None \<Rightarrow> False) then VNull
      else or_null (fm_get row (s_field s)))"

definition compare_sort_values :: "external \<Rightarrow> resource_def \<Rightarrow> sort_def \<Rightarrow> Value \<Rightarrow> Value \<Rightarrow> ordering" where
  "compare_sort_values x r s l r' =
     (case (is_null l, is_null r') of
        (True, True) \<Rightarrow> Equal
      | (True, False) \<Rightarrow> if nulls_first s then Less else Greater
      | (False, True) \<Rightarrow> if nulls_first s then Greater else Less
      | (False, False) \<Rightarrow>
          let order = compare_typed x (column_type r (s_field s)) l r'
          in if s_descending s then ord_reverse order else order)"

fun compare_rows ::
    "external \<Rightarrow> resource_def \<Rightarrow> (sort_def \<Rightarrow> fields \<Rightarrow> Value) \<Rightarrow> sort_def list \<Rightarrow> fields \<Rightarrow> fields \<Rightarrow> ordering" where
  "compare_rows x r val [] left right = Equal"
| "compare_rows x r val (s # ss) left right =
     ord_then (compare_sort_values x r s (val s left) (val s right)) (compare_rows x r val ss left right)"

definition page_rows :: "nat option \<Rightarrow> nat option \<Rightarrow> 'a list \<Rightarrow> 'a list" where
  "page_rows limit offset rows =
     (let rows = drop (case offset of Some n \<Rightarrow> n | None \<Rightarrow> 0) rows
      in case limit of Some n \<Rightarrow> take n rows | None \<Rightarrow> rows)"

definition select_fields :: "resource_def \<Rightarrow> compiled_query \<Rightarrow> fields \<Rightarrow> fields" where
  "select_fields r q row =
     (let row = strip_unrequested_aggregates r q (strip_unrequested_calculations r q row)
      in if q_select q = None then row
         else filter (\<lambda>(name, _). case attribute r name of Some a \<Rightarrow> query_reads q r a | None \<Rightarrow> True) row)"

definition query_tables :: "external \<Rightarrow> registry \<Rightarrow> mem_tables \<Rightarrow> resource_def \<Rightarrow> compiled_query \<Rightarrow> fields list res" where
  "query_tables x reg tb r q =
     (let tenant = q_tenant q; rows = tb_rows (table_or_default tb (table_key r tenant))
      in bindE (compute x reg tb tenant r q (filter_fields (q_filter q)) (rows, [])) (\<lambda>(rows, computed).
         let rows = keep_matching x reg tb tenant r (q_filter q) rows
         in bindE (compute x reg tb tenant r q (map s_field (q_sort q)) (rows, computed)) (\<lambda>(rows, computed).
            let rows = (if q_sort q = [] then rows
                  else sort_by (compare_rows x r (sort_value x reg tb tenant r) (q_sort q)) rows);
                rows = page_rows (q_limit q) (q_offset q) rows
            in bindE (compute x reg tb tenant r q (q_calculations q @ q_aggregates q) (rows, computed))
                 (\<lambda>(rows, computed). Inr (map (select_fields r q) rows)))))"

end
