(* ===== verification/AshMemoryStore.thy ===== *)
theory AshMemoryStore
  imports AshMemory
begin

text \<open>
  The rest of \<open>crates/ash-memory/src/lib.rs\<close>: the store behind its lock, the writes, and
  transactions. A write that panics poisons the lock, and every operation fails after that.

  A write is a function of the tables that gives its result and the tables it leaves, kept
  also where it fails: \<open>entry(..).or_default()\<close> makes the table before anything is checked, and
  a batch that fails has written the rows before. A transaction's work is a function of its
  own store; the store it merges into is the one others left by then.
\<close>

section \<open>The store\<close>

record memory =
  mem_store :: mem_tables
  mem_poisoned :: bool

definition empty_memory :: memory where
  "empty_memory = \<lparr>mem_store = [], mem_poisoned = False\<rparr>"

definition from_tables :: "mem_tables \<Rightarrow> memory" where
  "from_tables tb = \<lparr>mem_store = tb, mem_poisoned = False\<rparr>"

definition poisoned :: error where
  "poisoned = EDataLayer ''memory store lock poisoned''"

definition is_panic :: "'a res \<Rightarrow> bool" where
  "is_panic r = (case r of Inl (EPanic _) \<Rightarrow> True | _ \<Rightarrow> False)"

definition with_read :: "memory \<Rightarrow> (mem_tables \<Rightarrow> 'a res) \<Rightarrow> 'a res" where
  "with_read m f = (if mem_poisoned m then Inl poisoned else f (mem_store m))"

definition with_write :: "memory \<Rightarrow> (mem_tables \<Rightarrow> 'a res \<times> mem_tables) \<Rightarrow> 'a res \<times> memory" where
  "with_write m f =
     (if mem_poisoned m then (Inl poisoned, m)
      else let (r, tb) = f (mem_store m) in (r, \<lparr>mem_store = tb, mem_poisoned = is_panic r\<rparr>))"

section \<open>Writing one record\<close>

definition duplicate_id :: "external \<Rightarrow> resource_def \<Rightarrow> Value \<Rightarrow> error" where
  "duplicate_id x r pk = EDataLayer (''duplicate id '' @ value_display x pk @ '' in '' @ r_name r)"

text \<open>One new record in a table.\<close>

definition insert_row :: "external \<Rightarrow> resource_def \<Rightarrow> mem_table \<Rightarrow> Value \<Rightarrow> fields \<Rightarrow> (fields \<times> mem_table) res" where
  "insert_row x r t pk fs =
     bindE (assign_key x r t pk fs) (\<lambda>(pk, fs).
       if tb_get t pk \<noteq> None then Inl (duplicate_id x r pk)
       else bindE (check_identities x r t pk fs None) (\<lambda>_. Inr (fs, tb_insert pk fs t)))"

definition mem_create ::
    "external \<Rightarrow> memory \<Rightarrow> resource_def \<Rightarrow> string option \<Rightarrow> Value \<Rightarrow> fields \<Rightarrow> fields res \<times> memory" where
  "mem_create x m r tenant pk fs = with_write m (\<lambda>tb.
     let key = table_key r tenant; t = table_or_default tb key
     in case insert_row x r t pk fs of
          Inl e \<Rightarrow> (Inl e, fm_insert key t tb)
        | Inr (fs, t') \<Rightarrow> (Inr fs, fm_insert key t' tb))"

definition tenant_row :: "external \<Rightarrow> registry \<Rightarrow> resource_def \<Rightarrow> string option \<Rightarrow> mem_table \<Rightarrow> Value \<Rightarrow> fields res" where
  "tenant_row x reg r tenant t pk =
     (case tb_get t pk of
        Some row \<Rightarrow> if in_tenant x reg r tenant row then Inr row else Inl ENotFound
      | None \<Rightarrow> Inl ENotFound)"

definition mem_update ::
    "external \<Rightarrow> registry \<Rightarrow> memory \<Rightarrow> resource_def \<Rightarrow> string option \<Rightarrow> Value \<Rightarrow> fields \<Rightarrow> fields res \<times> memory" where
  "mem_update x reg m r tenant pk fs = with_write m (\<lambda>tb.
     let key = table_key r tenant
     in case fm_get tb key of
          None \<Rightarrow> (Inl ENotFound, tb)
        | Some t \<Rightarrow>
            (case bindE (tenant_row x reg r tenant t pk) (\<lambda>before.
                let row = fm_extend before fs
                in bindE (check_identities x r t pk row (Some before)) (\<lambda>_. Inr row)) of
               Inl e \<Rightarrow> (Inl e, tb)
             | Inr row \<Rightarrow> (Inr row, fm_insert key (tb_insert pk row t) tb)))"

definition upsert_fields :: "identity_def \<Rightarrow> fields \<Rightarrow> string list \<Rightarrow> fields" where
  "upsert_fields ident fs update_fields =
     (if update_fields = [] then filter (\<lambda>(k, _). k \<notin> set (i_keys ident)) fs
      else List.map_filter (\<lambda>k. map_option (Pair k) (fm_get fs k)) update_fields)"

definition mem_upsert ::
    "external \<Rightarrow> memory \<Rightarrow> resource_def \<Rightarrow> string option \<Rightarrow> Value \<Rightarrow> fields \<Rightarrow> identity_def \<Rightarrow> string list \<Rightarrow>
     fields res \<times> memory" where
  "mem_upsert x m r tenant pk fs ident update_fields =
     (if i_predicate ident \<noteq> None
      then (Inl (EInvalid (''the memory data layer cannot upsert on partial identity `'' @ i_name ident @
              ''` of '' @ r_name r)), m)
      else with_write m (\<lambda>tb.
        let key = table_key r tenant; t = table_or_default tb key;
            columns = identity_columns ident (r_multitenancy r)
        in case List.find (\<lambda>e. identity_matches x r ident columns fs (snd e)) t of
             Some (existing, row) \<Rightarrow>
               let row' = fm_extend row (upsert_fields ident fs update_fields)
               in (Inr row', fm_insert key (tb_insert existing row' t) tb)
           | None \<Rightarrow>
               (case bindE (assign_key x r t pk fs) (\<lambda>(pk, fs).
                   bindE (check_identities x r t pk fs None) (\<lambda>_. Inr (pk, fs))) of
                  Inl e \<Rightarrow> (Inl e, fm_insert key t tb)
                | Inr (pk, fs) \<Rightarrow> (Inr fs, fm_insert key (tb_insert pk fs t) tb))))"

definition mem_destroy ::
    "external \<Rightarrow> registry \<Rightarrow> memory \<Rightarrow> resource_def \<Rightarrow> string option \<Rightarrow> Value \<Rightarrow> unit res \<times> memory" where
  "mem_destroy x reg m r tenant pk = with_write m (\<lambda>tb.
     let key = table_key r tenant
     in case fm_get tb key of
          None \<Rightarrow> (Inl ENotFound, tb)
        | Some t \<Rightarrow>
            (case tenant_row x reg r tenant t pk of
               Inl e \<Rightarrow> (Inl e, tb)
             | Inr _ \<Rightarrow> (Inr (), fm_insert key (tb_remove pk t) tb)))"

section \<open>Writing many\<close>

fun insert_rows :: "external \<Rightarrow> resource_def \<Rightarrow> mem_table \<Rightarrow> (Value \<times> fields) list \<Rightarrow> fields list res \<times> mem_table" where
  "insert_rows x r t [] = (Inr [], t)"
| "insert_rows x r t ((pk, fs) # rows) =
     (case insert_row x r t pk fs of
        Inl e \<Rightarrow> (Inl e, t)
      | Inr (stored, t') \<Rightarrow>
          (case insert_rows x r t' rows of
             (Inl e, t'') \<Rightarrow> (Inl e, t'')
           | (Inr results, t'') \<Rightarrow> (Inr (stored # results), t'')))"

definition mem_bulk_create ::
    "external \<Rightarrow> memory \<Rightarrow> resource_def \<Rightarrow> string option \<Rightarrow> (Value \<times> fields) list \<Rightarrow> fields list res \<times> memory" where
  "mem_bulk_create x m r tenant rows = with_write m (\<lambda>tb.
     let key = table_key r tenant; (result, t) = insert_rows x r (table_or_default tb key) rows
     in (result, fm_insert key t tb))"

definition mem_bulk_destroy ::
    "external \<Rightarrow> registry \<Rightarrow> memory \<Rightarrow> resource_def \<Rightarrow> string option \<Rightarrow> Value list \<Rightarrow> unit res \<times> memory" where
  "mem_bulk_destroy x reg m r tenant pks = with_write m (\<lambda>tb.
     let key = table_key r tenant
     in case fm_get tb key of
          None \<Rightarrow> (Inl ENotFound, tb)
        | Some t \<Rightarrow>
            (Inr (), fm_insert key (fold (\<lambda>pk t. case tenant_row x reg r tenant t pk of
                                                   Inr _ \<Rightarrow> tb_remove pk t | Inl _ \<Rightarrow> t) pks t) tb))"

text \<open>The records an atomic statement works on.\<close>

definition selected_rows ::
    "external \<Rightarrow> registry \<Rightarrow> mem_tables \<Rightarrow> resource_def \<Rightarrow> compiled_query \<Rightarrow> fields list res" where
  "selected_rows x reg tb r q =
     bindE (compute x reg tb (q_tenant q) r q (filter_fields (q_filter q))
         (tb_rows (table_or_default tb (table_key r (q_tenant q))), [])) (\<lambda>(rows, _).
       Inr (page_rows (q_limit q) None (keep_matching x reg tb (q_tenant q) r (q_filter q) rows)))"

definition pk_or_id :: "resource_def \<Rightarrow> string" where
  "pk_or_id r = (case primary_key r of Some a \<Rightarrow> a_name a | None \<Rightarrow> ''id'')"

definition stored_only :: "resource_def \<Rightarrow> fields \<Rightarrow> fields" where
  "stored_only r row = filter (\<lambda>(name, _). attribute r name \<noteq> None) row"

definition check_updated :: "external \<Rightarrow> resource_def \<Rightarrow> mem_table \<Rightarrow> fields \<Rightarrow> unit res" where
  "check_updated x r t row =
     bindE (ok_or (present row (pk_or_id r)) ENotFound) (\<lambda>pk. check_identities x r t pk row (tb_get t pk))"

definition store_updated :: "resource_def \<Rightarrow> fields \<Rightarrow> mem_table \<Rightarrow> mem_table" where
  "store_updated r row t = (case present row (pk_or_id r) of Some pk \<Rightarrow> tb_insert pk row t | None \<Rightarrow> t)"

definition mem_update_atomic ::
    "external \<Rightarrow> registry \<Rightarrow> memory \<Rightarrow> resource_def \<Rightarrow> compiled_query \<Rightarrow> atomic_update \<Rightarrow> fields list res \<times> memory" where
  "mem_update_atomic x reg m r q u = with_write m (\<lambda>tb.
     let key = table_key r (q_tenant q)
     in case bindE (selected_rows x reg tb r q) (\<lambda>rows.
               mapE (\<lambda>row. bindE (update_apply x r (row_matches_filter x reg tb (q_tenant q) r) u row)
                              (\<lambda>row'. Inr (stored_only r row'))) rows) of
          Inl e \<Rightarrow> (Inl e, tb)
        | Inr updated \<Rightarrow>
            let t = table_or_default tb key
            in (case foldE (\<lambda>_ row. check_updated x r t row) () updated of
                  Inl e \<Rightarrow> (Inl e, fm_insert key t tb)
                | Inr _ \<Rightarrow> (Inr updated, fm_insert key (fold (store_updated r) updated t) tb)))"

definition remove_row :: "resource_def \<Rightarrow> fields \<Rightarrow> fields list \<times> mem_table \<Rightarrow> fields list \<times> mem_table" where
  "remove_row r row = (\<lambda>(removed, t).
     case Option.bind (fm_get row (pk_or_id r)) (tb_get t) of
       Some stored \<Rightarrow> (removed @ [stored], tb_remove (the (fm_get row (pk_or_id r))) t)
     | None \<Rightarrow> (removed, t))"

definition mem_destroy_atomic ::
    "external \<Rightarrow> registry \<Rightarrow> memory \<Rightarrow> resource_def \<Rightarrow> compiled_query \<Rightarrow> atomic_condition list \<Rightarrow>
     fields list res \<times> memory" where
  "mem_destroy_atomic x reg m r q conditions = with_write m (\<lambda>tb.
     let key = table_key r (q_tenant q)
     in case bindE (selected_rows x reg tb r q) (\<lambda>rows.
               bindE (foldE (\<lambda>_ row. check_conditions x r (row_matches_filter x reg tb (q_tenant q) r) row conditions)
                        () rows) (\<lambda>_. Inr rows)) of
          Inl e \<Rightarrow> (Inl e, tb)
        | Inr rows \<Rightarrow>
            (case fm_get tb key of
               None \<Rightarrow> (Inr [], tb)
             | Some t \<Rightarrow>
                 let (removed, t') = fold (remove_row r) rows ([], t)
                 in (Inr removed, fm_insert key t' tb)))"

definition mem_run_query ::
    "external \<Rightarrow> registry \<Rightarrow> memory \<Rightarrow> resource_def \<Rightarrow> compiled_query \<Rightarrow> fields list res" where
  "mem_run_query x reg m r q = with_read m (\<lambda>tb. query_tables x reg tb r q)"

text \<open>The memory data layer: what it doesn't override is the trait's.\<close>

definition memory_layer :: "external \<Rightarrow> registry \<Rightarrow> memory data_layer" where
  "memory_layer x reg =
     (default_layer (mem_create x) (mem_update x reg) (mem_destroy x reg) (mem_run_query x reg))
       \<lparr>dl_can_update_atomically := (\<lambda>_. True), dl_can_raise_atomically := (\<lambda>_. True),
        dl_update_atomic := mem_update_atomic x reg, dl_can_destroy_atomically := (\<lambda>_. True),
        dl_destroy_atomic := mem_destroy_atomic x reg, dl_upsert := mem_upsert x,
        dl_bulk_create := mem_bulk_create x, dl_bulk_destroy := mem_bulk_destroy x reg\<rparr>"

section \<open>Transactions\<close>

definition stored_row :: "mem_tables \<Rightarrow> string \<Rightarrow> Value \<Rightarrow> fields option" where
  "stored_row tb name pk = Option.bind (fm_get tb name) (\<lambda>t. tb_get t pk)"

definition row_eq :: "fields option \<Rightarrow> fields option \<Rightarrow> bool" where
  "row_eq a b = opt_eq fields_eq a b"

text \<open>A row the transaction wrote must be live as it was when the transaction began.\<close>

definition check_written ::
    "external \<Rightarrow> mem_tables \<Rightarrow> mem_tables \<Rightarrow> string \<times> mem_table \<Rightarrow> unit res" where
  "check_written x snapshot live = (\<lambda>(name, t).
     foldE (\<lambda>_ (pk, row).
       if \<not> row_eq (stored_row snapshot name pk) (Some row) \<and>
          \<not> row_eq (stored_row live name pk) (stored_row snapshot name pk)
       then Inl (EDataLayer (''concurrent write conflict in '' @ name @ '' for record '' @ value_display x pk))
       else Inr ()) () t)"

definition check_deleted ::
    "external \<Rightarrow> mem_tables \<Rightarrow> mem_tables \<Rightarrow> string \<times> mem_table \<Rightarrow> unit res" where
  "check_deleted x committed live = (\<lambda>(name, snap_table).
     (case fm_get committed name of
        Some t \<Rightarrow>
          foldE (\<lambda>_ (pk, row).
            if tb_get t pk = None \<and> \<not> row_eq (stored_row live name pk) (Some row)
            then Inl (EDataLayer (''concurrent write conflict in '' @ name @ '' for deleted record '' @ value_display x pk))
            else Inr ()) () snap_table
      | None \<Rightarrow>
          if \<not> opt_eq table_eq (fm_get live name) (Some snap_table)
          then Inl (EDataLayer (''concurrent write conflict in deleted table '' @ name))
          else Inr ()))"

definition merge_written :: "mem_tables \<Rightarrow> string \<times> mem_table \<Rightarrow> mem_tables \<Rightarrow> mem_tables" where
  "merge_written snapshot = (\<lambda>(name, t) live.
     fm_insert name
       (fold (\<lambda>(pk, row) l. if \<not> row_eq (stored_row snapshot name pk) (Some row) then tb_insert pk row l else l)
          t (table_or_default live name))
       live)"

definition merge_deleted :: "mem_tables \<Rightarrow> string \<times> mem_table \<Rightarrow> mem_tables \<Rightarrow> mem_tables" where
  "merge_deleted committed = (\<lambda>(name, snap_table) live.
     (case fm_get committed name of
        Some t \<Rightarrow>
          (case fm_get live name of
             Some l \<Rightarrow>
               fm_insert name (fold (\<lambda>(pk, _) l. if tb_get t pk = None then tb_remove pk l else l) snap_table l) live
           | None \<Rightarrow> live)
      | None \<Rightarrow> fm_remove name live))"

definition commit :: "external \<Rightarrow> mem_tables \<Rightarrow> mem_tables \<Rightarrow> mem_tables \<Rightarrow> unit res \<times> mem_tables" where
  "commit x snapshot committed live =
     (case bindE (foldE (\<lambda>_ e. check_written x snapshot live e) () committed) (\<lambda>_.
             foldE (\<lambda>_ e. check_deleted x committed live e) () snapshot) of
        Inl e \<Rightarrow> (Inl e, live)
      | Inr _ \<Rightarrow> (Inr (), fold (merge_deleted committed) snapshot (fold (merge_written snapshot) committed live)))"

text \<open>\<open>live\<close> is the store when the work is done, as others left it meanwhile.\<close>

definition mem_transaction ::
    "external \<Rightarrow> memory \<Rightarrow> (memory \<Rightarrow> 'a res \<times> memory) \<Rightarrow> memory \<Rightarrow> 'a res \<times> memory" where
  "mem_transaction x m work live =
     (if mem_poisoned m then (Inl poisoned, live)
      else case work (from_tables (mem_store m)) of
             (Inl e, _) \<Rightarrow> (Inl e, live)
           | (Inr v, tx) \<Rightarrow>
               if mem_poisoned tx then (Inl poisoned, live)
               else with_write live (\<lambda>tb.
                 case commit x (mem_store m) (mem_store tx) tb of
                   (Inl e, tb') \<Rightarrow> (Inl e, tb')
                 | (Inr _, tb') \<Rightarrow> (Inr v, tb')))"

end
