(* ===== verification/AshMemoryFacts.thy ===== *)
theory AshMemoryFacts
  imports AshMemoryStore
begin

text \<open>
  What the memory data layer keeps: a table finds a row by the equality of its key, each key
  once; and no two rows of a table agree on an identity, after any run of the writes that
  check them. Where a write doesn't check, the runs that break an identity are given.
\<close>

section \<open>Tables as maps\<close>

definition keys_apart :: "mem_table \<Rightarrow> bool" where
  "keys_apart t \<longleftrightarrow> sorted_wrt (\<lambda>a b. \<not> value_eq (fst a) (fst b)) t"

lemma value_eq_commute: "value_eq a b \<longleftrightarrow> value_eq b a"
  using value_eq_sym by blast

lemma value_eq_same_class: "value_eq a b \<Longrightarrow> value_eq a c \<longleftrightarrow> value_eq b c"
  by (metis value_eq_sym value_eq_trans)

lemma keys_apart_simps [simp]:
  "keys_apart []"
  "keys_apart (e # t) \<longleftrightarrow> (\<forall>e' \<in> set t. \<not> value_eq (fst e) (fst e')) \<and> keys_apart t"
  by (auto simp: keys_apart_def)

lemma tb_get_simps [simp]:
  "tb_get [] k = None"
  "tb_get (e # t) k = (if value_eq (fst e) k then Some (snd e) else tb_get t k)"
  by (auto simp: tb_get_def)

lemma tb_get_class: "value_eq k k' \<Longrightarrow> tb_get t k = tb_get t k'"
proof (induction t)
  case (Cons e t)
  have "value_eq (fst e) k \<longleftrightarrow> value_eq (fst e) k'" using Cons.prems by (metis value_eq_sym value_eq_trans)
  then show ?case using Cons by simp
qed simp

lemma tb_get_None_iff: "tb_get t k = None \<longleftrightarrow> (\<forall>e \<in> set t. \<not> value_eq (fst e) k)"
  by (induction t) auto

lemma tb_get_Some_in: "tb_get t k = Some row \<Longrightarrow> \<exists>k'. (k', row) \<in> set t \<and> value_eq k' k"
  by (induction t) (auto split: if_splits)

lemma tb_get_insert:
  "tb_get (tb_insert k row t) k' = (if value_eq k k' then Some row else tb_get t k')"
  by (induction k row t rule: tb_insert.induct) (auto dest: value_eq_trans value_eq_sym)

lemma tb_insert_keys:
  "fst ` set (tb_insert k row t) = (if tb_get t k = None then insert k (fst ` set t) else fst ` set t)"
  by (induction k row t rule: tb_insert.induct) auto

lemma keys_apart_insert [simp]: "keys_apart t \<Longrightarrow> keys_apart (tb_insert k row t)"
proof (induction k row t rule: tb_insert.induct)
  case (2 k row k' row' t)
  show ?case
  proof (cases "value_eq k' k")
    case True
    then show ?thesis using 2 by auto
  next
    case False
    have "\<not> value_eq k' (fst e)" if "e \<in> set (tb_insert k row t)" for e
    proof -
      have "fst e \<in> insert k (fst ` set t)"
        using that tb_insert_keys [of k row t] by (metis (full_types) image_eqI insertCI)
      then show ?thesis using 2(2) False by auto
    qed
    then show ?thesis using 2 False by auto
  qed
qed simp

lemma tb_get_remove: "tb_get (tb_remove k t) k' = (if value_eq k k' then None else tb_get t k')"
  unfolding tb_remove_def
  by (induction t) (auto dest: value_eq_trans value_eq_sym)

lemma set_tb_remove [simp]: "set (tb_remove k t) = {e \<in> set t. \<not> value_eq (fst e) k}"
  by (auto simp: tb_remove_def)

lemma keys_apart_remove [simp]: "keys_apart t \<Longrightarrow> keys_apart (tb_remove k t)"
  unfolding keys_apart_def tb_remove_def by (rule sorted_wrt_filter)

lemma set_tb_insert_new: "tb_get t k = None \<Longrightarrow> set (tb_insert k row t) = insert (k, row) (set t)"
  by (induction k row t rule: tb_insert.induct) (auto split: if_splits)

lemma in_tb_insert:
  "keys_apart t \<Longrightarrow> e \<in> set (tb_insert k row t) \<Longrightarrow>
   value_eq (fst e) k \<and> snd e = row \<or> \<not> value_eq (fst e) k \<and> e \<in> set t"
proof (induction k row t rule: tb_insert.induct)
  case (2 k row k' row' t)
  have "\<not> value_eq (fst e) k" if "value_eq k' k" "e \<in> set t"
    using that 2(2) by (auto dest: value_eq_trans value_eq_sym)
  then show ?case using 2 by (auto split: if_splits)
qed simp

section \<open>Columns compare symmetrically\<close>

lemma compare_text_sym:
  "compare_text x ty t s = map_option ord_reverse (compare_text x ty s t)"
proof -
  have str: "str_cmp a b = ord_reverse (str_cmp b a)" for a b
    using str_order.cmp_sym [of b a] by simp
  have flt: "f64_partial_cmp a b = map_option ord_reverse (f64_partial_cmp b a)" for a b
    by (auto simp: f64_partial_cmp_def lin_cmp_def)
  have dec: "compare_decimal t s = map_option ord_reverse (compare_decimal s t)"
  proof (cases "is_decimal s \<and> is_decimal t")
    case True
    moreover have "lin_cmp a b = ord_reverse (lin_cmp b a)" for a b :: rat
      by (rule lin_order.cmp_sym) simp_all
    ultimately show ?thesis using compare_decimal_key [of s t] compare_decimal_key [of t s] by (metis option.simps(9))
  next
    case False
    then have "compare_decimal t s = None \<and> compare_decimal s t = None"
      by (auto simp: compare_decimal_def decimal_split_def split: option.splits)
    then show ?thesis by simp
  qed
  show ?thesis
  proof (cases ty)
    case (Some a)
    show ?thesis
    proof (cases a)
      case TFloat
      show ?thesis
      proof (cases "x_f64_parse x s = None \<or> x_f64_parse x t = None")
        case True
        then show ?thesis using TFloat by (auto simp: Some split: option.splits)
      next
        case False
        then show ?thesis using TFloat by (auto simp: Some intro: flt)
      qed
    next
      case TInet
      then show ?thesis by (simp add: Some) (rule str)
    next
      case (TVector n)
      then show ?thesis by (simp add: Some) (rule str)
    next
      case (TUtcDatetime p)
      then show ?thesis by (simp add: Some) (rule str)
    next
      case TCiString
      then show ?thesis by (simp add: Some) (rule str)
    qed (simp_all add: Some dec)
  qed simp
qed

lemma compare_typed_sym: "compare_typed x ty b a = ord_reverse (compare_typed x ty a b)"
proof -
  have v: "value_cmp b a = ord_reverse (value_cmp a b)" by (rule value_order.cmp_sym) simp_all
  show ?thesis
  proof (cases "\<exists>s t. a = VString s \<and> b = VString t")
    case True
    then obtain s t where ab: "a = VString s" "b = VString t" by blast
    have "compare_text x ty t s = map_option ord_reverse (compare_text x ty s t)" by (rule compare_text_sym)
    then show ?thesis using v by (cases "compare_text x ty s t") (simp_all add: compare_typed_def ab)
  next
    case False
    then have "value_rank a \<noteq> 4 \<or> value_rank b \<noteq> 4" by (cases a; cases b) auto
    then show ?thesis using v compare_typed_not_text by metis
  qed
qed

lemma same_value_sym: "same_value x ty a b \<longleftrightarrow> same_value x ty b a"
  unfolding same_value_def using compare_typed_sym [of x ty a b] by simp

lemma same_value_class: "value_eq a a' \<Longrightarrow> same_value x ty a b \<longleftrightarrow> same_value x ty a' b"
proof -
  assume e: "value_eq a a'"
  show ?thesis
  proof (cases "\<exists>s. a = VString s")
    case True
    then show ?thesis using e by auto
  next
    case False
    then have "\<not> (\<exists>s. a' = VString s)" using e by auto
    then have "value_rank a \<noteq> 4" "value_rank a' \<noteq> 4" using False by (cases a; cases a'; simp)+
    then have "compare_typed x ty a b = value_cmp a b" "compare_typed x ty a' b = value_cmp a' b"
      using compare_typed_not_text by blast+
    then show ?thesis using value_eq_cong [OF e] by (simp add: same_value_def)
  qed
qed

section \<open>Identities\<close>

lemma identity_matches_sym: "identity_matches x r i cols a b \<longleftrightarrow> identity_matches x r i cols b a"
  unfolding identity_matches_def list_all_iff
  by (rule ball_cong [OF refl]) (auto simp: same_value_sym split: option.splits)

lemma opt_eq_Some: "opt_eq eq (Some a) b \<longleftrightarrow> (\<exists>b'. b = Some b' \<and> eq a b')"
  by (cases b) auto

lemma opt_eq_None: "opt_eq eq None b \<longleftrightarrow> b = None"
  by (cases b) auto

lemma present_class:
  "opt_eq value_eq (fm_get a k) (fm_get b k) \<Longrightarrow>
   (present a k = None \<longleftrightarrow> present b k = None) \<and>
   (\<forall>u v. present a k = Some u \<longrightarrow> present b k = Some v \<longrightarrow> value_eq u v)"
  by (cases "fm_get a k"; cases "fm_get b k") (auto simp: present_def split: Value.splits)

lemma identity_matches_class:
  assumes "\<And>k. k \<in> set cols \<Longrightarrow> opt_eq value_eq (fm_get a k) (fm_get a' k)"
  shows "identity_matches x r i cols a b \<longleftrightarrow> identity_matches x r i cols a' b"
  unfolding identity_matches_def list_all_iff
proof (rule ball_cong [OF refl])
  fix k assume "k \<in> set cols"
  note p = present_class [OF assms [OF this]]
  show "(case (present a k, present b k) of (Some u, Some v) \<Rightarrow> same_value x (column_type r k) u v
      | (None, None) \<Rightarrow> \<not> i_nils_distinct i | _ \<Rightarrow> False) =
    (case (present a' k, present b k) of (Some u, Some v) \<Rightarrow> same_value x (column_type r k) u v
      | (None, None) \<Rightarrow> \<not> i_nils_distinct i | _ \<Rightarrow> False)"
    using p by (cases "present a k"; cases "present a' k") (auto simp: same_value_class split: option.splits)
qed

text \<open>No two rows of a table agree on an identity the memory layer checks.\<close>

definition identity_unique :: "external \<Rightarrow> resource_def \<Rightarrow> mem_table \<Rightarrow> identity_def \<Rightarrow> bool" where
  "identity_unique x r t i \<longleftrightarrow>
     i_predicate i \<noteq> None \<or>
     (\<forall>a \<in> set t. \<forall>b \<in> set t. \<not> value_eq (fst a) (fst b) \<longrightarrow>
        \<not> identity_matches x r i (identity_columns i (r_multitenancy r)) (snd a) (snd b))"

definition table_ok :: "external \<Rightarrow> resource_def \<Rightarrow> mem_table \<Rightarrow> bool" where
  "table_ok x r t \<longleftrightarrow> keys_apart t \<and> (\<forall>i \<in> set (r_identities r). identity_unique x r t i)"

lemma table_ok_Nil [simp]: "table_ok x r []"
  by (simp add: table_ok_def identity_unique_def)

lemma check_identities_Inr:
  "check_identities x r t pk fs before = Inr u \<longleftrightarrow>
   (\<forall>i \<in> set (r_identities r). check_identity x r t pk fs before i = Inr ())"
proof -
  have "foldE (\<lambda>_ i. check_identity x r t pk fs before i) () is = Inr u \<longleftrightarrow>
      (\<forall>i \<in> set is. check_identity x r t pk fs before i = Inr ())" for "is"
    by (induction "is") (auto simp: bindE_eq_Inr)
  then show ?thesis by (simp add: check_identities_def)
qed

lemma check_identity_Inr:
  "check_identity x r t pk fs before i = Inr () \<longleftrightarrow>
   i_predicate i \<noteq> None \<or>
   (\<exists>b. before = Some b \<and> (\<forall>k \<in> set (identity_columns i (r_multitenancy r)).
      opt_eq value_eq (fm_get fs k) (fm_get b k))) \<or>
   (\<forall>e \<in> set t. \<not> value_eq (fst e) pk \<longrightarrow>
      \<not> identity_matches x r i (identity_columns i (r_multitenancy r)) fs (snd e))"
proof -
  have e: "list_ex (\<lambda>(existing, row). \<not> value_eq existing pk \<and> identity_matches x r i cols fs row) t \<longleftrightarrow>
      (\<exists>e \<in> set t. \<not> value_eq (fst e) pk \<and> identity_matches x r i cols fs (snd e))" for cols
    unfolding list_ex_iff by (rule bex_cong [OF refl]) (simp add: case_prod_unfold)
  show ?thesis
    unfolding check_identity_def Let_def e list_all_iff by (cases before) auto
qed

text \<open>Writing a row whose identities were checked keeps the table unique.\<close>

lemma table_ok_insert:
  assumes ok: "table_ok x r t"
    and check: "check_identities x r t pk row before = Inr u"
    and before: "\<And>b. before = Some b \<Longrightarrow> tb_get t pk = Some b"
  shows "table_ok x r (tb_insert pk row t)"
  unfolding table_ok_def
proof (intro conjI ballI)
  have apart: "keys_apart t" using ok by (simp add: table_ok_def)
  then show "keys_apart (tb_insert pk row t)" by simp
  fix i assume i: "i \<in> set (r_identities r)"
  let ?cols = "identity_columns i (r_multitenancy r)"
  show "identity_unique x r (tb_insert pk row t) i"
  proof (cases "i_predicate i = None")
    case False
    then show ?thesis by (simp add: identity_unique_def)
  next
    case True
    have old: "\<not> identity_matches x r i ?cols (snd a) (snd b)"
      if "a \<in> set t" "b \<in> set t" "\<not> value_eq (fst a) (fst b)" for a b
      using that ok i True by (auto simp: table_ok_def identity_unique_def)
    have new: "\<not> identity_matches x r i ?cols row (snd e)" if e: "e \<in> set t" "\<not> value_eq (fst e) pk" for e
    proof -
      consider b where "before = Some b" "\<forall>k \<in> set ?cols. opt_eq value_eq (fm_get row k) (fm_get b k)"
        | "\<not> identity_matches x r i ?cols row (snd e)"
        using check i True e by (auto simp: check_identities_Inr check_identity_Inr)
      then show ?thesis
      proof cases
        case 1
        then obtain k' where k': "(k', b) \<in> set t" "value_eq k' pk"
          using tb_get_Some_in before by blast
        then have "\<not> value_eq k' (fst e)" using e(2) by (metis value_eq_sym value_eq_trans)
        then have "\<not> identity_matches x r i ?cols b (snd e)" using old [OF k'(1) e(1)] by simp
        then show ?thesis using identity_matches_class [of ?cols row b] 1(2) by blast
      qed
    qed
    have "\<not> identity_matches x r i ?cols (snd a) (snd b)"
      if ab: "a \<in> set (tb_insert pk row t)" "b \<in> set (tb_insert pk row t)" "\<not> value_eq (fst a) (fst b)" for a b
    proof -
      note a = in_tb_insert [OF apart ab(1)] and b = in_tb_insert [OF apart ab(2)]
      have "\<not> (value_eq (fst a) pk \<and> value_eq (fst b) pk)"
        using ab(3) by (metis value_eq_sym value_eq_trans)
      then show ?thesis
        using a b old ab(3) new identity_matches_sym by metis
    qed
    then show ?thesis by (simp add: identity_unique_def)
  qed
qed

lemma table_ok_remove: "table_ok x r t \<Longrightarrow> table_ok x r (tb_remove pk t)"
proof -
  have "identity_unique x r t i \<Longrightarrow> identity_unique x r (tb_remove pk t) i" for i
    unfolding identity_unique_def set_tb_remove by blast
  then show "table_ok x r t \<Longrightarrow> table_ok x r (tb_remove pk t)" by (simp add: table_ok_def)
qed

section \<open>The store keeps its identities\<close>

text \<open>The resources of a registry keep their rows in different tables.\<close>

definition tables_apart :: "registry \<Rightarrow> bool" where
  "tables_apart reg \<longleftrightarrow>
     (\<forall>r \<in> set reg. \<forall>r' \<in> set reg. \<forall>t t'. table_key r t = table_key r' t' \<longrightarrow> r = r')"

definition tables_ok :: "external \<Rightarrow> registry \<Rightarrow> mem_tables \<Rightarrow> bool" where
  "tables_ok x reg tb \<longleftrightarrow>
     (\<forall>r \<in> set reg. \<forall>tenant t. fm_get tb (table_key r tenant) = Some t \<longrightarrow> table_ok x r t)"

definition store_ok :: "external \<Rightarrow> registry \<Rightarrow> memory \<Rightarrow> bool" where
  "store_ok x reg m \<longleftrightarrow> tables_ok x reg (mem_store m)"

lemma store_ok_empty: "store_ok x reg empty_memory"
  by (simp add: store_ok_def tables_ok_def empty_memory_def)

lemma tables_ok_get:
  "tables_ok x reg tb \<Longrightarrow> r \<in> set reg \<Longrightarrow> fm_get tb (table_key r tenant) = Some t \<Longrightarrow> table_ok x r t"
  by (auto simp: tables_ok_def)

lemma tables_ok_default: "tables_ok x reg tb \<Longrightarrow> r \<in> set reg \<Longrightarrow> table_ok x r (table_or_default tb (table_key r tenant))"
  by (auto simp: table_or_default_def split: option.split intro: tables_ok_get)

lemma tables_ok_put:
  assumes "tables_apart reg" "r \<in> set reg" "tables_ok x reg tb" "table_ok x r t"
  shows "tables_ok x reg (fm_insert (table_key r tenant) t tb)"
  using assms unfolding tables_ok_def tables_apart_def by (auto split: if_splits)

lemma store_ok_write:
  assumes "store_ok x reg m"
    and "\<And>tb. tables_ok x reg tb \<Longrightarrow> tables_ok x reg (snd (f tb))"
  shows "store_ok x reg (snd (with_write m f))"
  using assms by (auto simp: with_write_def store_ok_def Let_def case_prod_unfold)

lemma insert_row_ok:
  "table_ok x r t \<Longrightarrow> insert_row x r t pk fs = Inr (fs', t') \<Longrightarrow> table_ok x r t'"
  by (auto simp: insert_row_def bindE_eq_Inr split: if_splits intro: table_ok_insert)

lemma insert_rows_ok: "table_ok x r t \<Longrightarrow> table_ok x r (snd (insert_rows x r t rows))"
proof (induction rows arbitrary: t)
  case (Cons e rows)
  obtain pk fs where e: "e = (pk, fs)" by (cases e)
  show ?case
  proof (cases "insert_row x r t pk fs")
    case (Inl err)
    then show ?thesis using Cons.prems by (simp add: e)
  next
    case (Inr p)
    obtain stored t' where p: "p = (stored, t')" by (cases p)
    have "table_ok x r (snd (insert_rows x r t' rows))"
      by (rule Cons.IH) (rule insert_row_ok [OF Cons.prems Inr [unfolded p]])
    then show ?thesis using Inr p by (auto simp: e split: prod.split sum.split)
  qed
qed simp

lemma fold_table_ok:
  "(\<And>a t. table_ok x r t \<Longrightarrow> table_ok x r (g a t)) \<Longrightarrow> table_ok x r t \<Longrightarrow> table_ok x r (fold g as t)"
  by (induction "as" arbitrary: t) auto

lemma fold_remove_ok:
  "table_ok x r (snd acc) \<Longrightarrow> table_ok x r (snd (fold (remove_row r) rows acc))"
proof (induction rows arbitrary: acc)
  case (Cons row rows)
  have "table_ok x r (snd (remove_row r row acc))"
    using Cons.prems by (cases acc) (auto simp: remove_row_def split: option.split intro: table_ok_remove)
  then show ?case using Cons.IH by simp
qed simp

lemma create_store_ok:
  assumes "tables_apart reg" "r \<in> set reg" "store_ok x reg m"
  shows "store_ok x reg (snd (mem_create x m r tenant pk fs))"
  unfolding mem_create_def
proof (rule store_ok_write [OF assms(3)])
  fix tb assume tb: "tables_ok x reg tb"
  note d = tables_ok_default [OF tb assms(2)]
  show "tables_ok x reg (snd (let key = table_key r tenant; t = table_or_default tb key
     in case insert_row x r t pk fs of
          Inl e \<Rightarrow> (Inl e, fm_insert key t tb) | Inr (fs, t') \<Rightarrow> (Inr fs, fm_insert key t' tb)))"
    using d insert_row_ok [OF d] by (auto simp: Let_def split: sum.split intro!: tables_ok_put [OF assms(1,2) tb])
qed

lemma tenant_row_Inr:
  "tenant_row x reg r tenant t pk = Inr row \<longleftrightarrow> tb_get t pk = Some row \<and> in_tenant x reg r tenant row"
  by (auto simp: tenant_row_def split: option.splits)

lemma update_store_ok:
  assumes "tables_apart reg" "r \<in> set reg" "store_ok x reg m"
  shows "store_ok x reg (snd (mem_update x reg m r tenant pk fs))"
  unfolding mem_update_def
proof (rule store_ok_write [OF assms(3)])
  fix tb assume tb: "tables_ok x reg tb"
  have "table_ok x r (tb_insert pk (fm_extend before fs) t)"
    if "fm_get tb (table_key r tenant) = Some t" "tenant_row x reg r tenant t pk = Inr before"
      "check_identities x r t pk (fm_extend before fs) (Some before) = Inr u" for t before u
    using that by (intro table_ok_insert [OF _ that(3)] tables_ok_get [OF tb assms(2)]) (auto simp: tenant_row_Inr)
  then show "tables_ok x reg (snd (let key = table_key r tenant
     in case fm_get tb key of None \<Rightarrow> (Inl ENotFound, tb)
        | Some t \<Rightarrow>
            (case bindE (tenant_row x reg r tenant t pk) (\<lambda>before.
                let row = fm_extend before fs
                in bindE (check_identities x r t pk row (Some before)) (\<lambda>_. Inr row)) of
               Inl e \<Rightarrow> (Inl e, tb)
             | Inr row \<Rightarrow> (Inr row, fm_insert key (tb_insert pk row t) tb))))"
    using tb by (auto simp: Let_def bindE_eq_Inr split: option.split sum.split intro!: tables_ok_put [OF assms(1,2)])
qed

lemma destroy_store_ok:
  assumes "tables_apart reg" "r \<in> set reg" "store_ok x reg m"
  shows "store_ok x reg (snd (mem_destroy x reg m r tenant pk))"
  unfolding mem_destroy_def
  by (rule store_ok_write [OF assms(3)])
    (auto simp: Let_def split: option.split sum.split
      intro!: tables_ok_put [OF assms(1,2)] table_ok_remove intro: tables_ok_get [OF _ assms(2)])

lemma bulk_create_store_ok:
  assumes "tables_apart reg" "r \<in> set reg" "store_ok x reg m"
  shows "store_ok x reg (snd (mem_bulk_create x m r tenant rows))"
  unfolding mem_bulk_create_def
  by (rule store_ok_write [OF assms(3)])
    (auto simp: Let_def case_prod_unfold
      intro!: tables_ok_put [OF assms(1,2)] insert_rows_ok tables_ok_default [OF _ assms(2)])

lemma bulk_destroy_store_ok:
  assumes "tables_apart reg" "r \<in> set reg" "store_ok x reg m"
  shows "store_ok x reg (snd (mem_bulk_destroy x reg m r tenant pks))"
  unfolding mem_bulk_destroy_def
  by (rule store_ok_write [OF assms(3)])
    (auto simp: Let_def split: option.split sum.split
      intro!: tables_ok_put [OF assms(1,2)] fold_table_ok table_ok_remove intro: tables_ok_get [OF _ assms(2)])

lemma destroy_atomic_store_ok:
  assumes "tables_apart reg" "r \<in> set reg" "store_ok x reg m"
  shows "store_ok x reg (snd (mem_destroy_atomic x reg m r q cs))"
  unfolding mem_destroy_atomic_def
proof (rule store_ok_write [OF assms(3)])
  fix tb assume tb: "tables_ok x reg tb"
  have "table_ok x r (snd (fold (remove_row r) rows ([], t)))"
    if "fm_get tb (table_key r (q_tenant q)) = Some t" for t rows
    by (rule fold_remove_ok) (simp add: tables_ok_get [OF tb assms(2) that])
  then show "tables_ok x reg (snd (let key = table_key r (q_tenant q)
     in case bindE (selected_rows x reg tb r q) (\<lambda>rows.
               bindE (foldE (\<lambda>_ row. check_conditions x r (row_matches_filter x reg tb (q_tenant q) r) row cs)
                        () rows) (\<lambda>_. Inr rows)) of
          Inl e \<Rightarrow> (Inl e, tb)
        | Inr rows \<Rightarrow>
            (case fm_get tb key of None \<Rightarrow> (Inr [], tb)
             | Some t \<Rightarrow>
                 let (removed, t') = fold (remove_row r) rows ([], t)
                 in (Inr removed, fm_insert key t' tb))))"
    using tb by (auto simp: Let_def case_prod_unfold split: option.split sum.split
        intro!: tables_ok_put [OF assms(1,2)])
qed

text \<open>An atomic update of one record: its identities are checked against the table it's written to.\<close>

lemma length_selected:
  "selected_rows x reg tb r q = Inr rows \<Longrightarrow> q_limit q = Some n \<Longrightarrow> length rows \<le> n"
  by (auto simp: selected_rows_def bindE_eq_Inr page_rows_def Let_def split: prod.splits)

lemma update_atomic_store_ok:
  assumes "tables_apart reg" "r \<in> set reg" "store_ok x reg m" "q_limit q = Some 1"
  shows "store_ok x reg (snd (mem_update_atomic x reg m r q u))"
  unfolding mem_update_atomic_def
proof (rule store_ok_write [OF assms(3)])
  fix tb assume tb: "tables_ok x reg tb"
  let ?t = "table_or_default tb (table_key r (q_tenant q))"
  let ?upd = "bindE (selected_rows x reg tb r q) (\<lambda>rows.
     mapE (\<lambda>row. bindE (update_apply x r (row_matches_filter x reg tb (q_tenant q) r) u row)
                    (\<lambda>row'. Inr (stored_only r row'))) rows)"
  have ok: "table_ok x r ?t" by (rule tables_ok_default [OF tb assms(2)])
  have "table_ok x r (fold (store_updated r) updated ?t)"
    if upd: "?upd = Inr updated" and check: "foldE (\<lambda>_ row. check_updated x r ?t row) () updated = Inr v"
    for updated v
  proof -
    obtain rows where "selected_rows x reg tb r q = Inr rows" "length updated = length rows"
      using upd by (auto simp: bindE_eq_Inr dest: mapE_length)
    then have "length updated \<le> 1" using length_selected assms(4) by fastforce
    then consider "updated = []" | row where "updated = [row]"
      by (cases updated rule: list.exhaust) auto
    then show ?thesis
    proof cases
      case 1
      then show ?thesis using ok by simp
    next
      case 2
      then obtain pk where "present row (pk_or_id r) = Some pk" "check_identities x r ?t pk row (tb_get ?t pk) = Inr ()"
        using check by (auto simp: check_updated_def bindE_eq_Inr ok_or_eq)
      then show ?thesis using 2 table_ok_insert [OF ok] by (simp add: store_updated_def)
    qed
  qed
  then show "tables_ok x reg (snd (let key = table_key r (q_tenant q)
     in case ?upd of Inl e \<Rightarrow> (Inl e, tb)
        | Inr updated \<Rightarrow>
            let t = table_or_default tb key
            in (case foldE (\<lambda>_ row. check_updated x r t row) () updated of
                  Inl e \<Rightarrow> (Inl e, fm_insert key t tb)
                | Inr _ \<Rightarrow> (Inr updated, fm_insert key (fold (store_updated r) updated t) tb))))"
    using tb ok by (auto simp: Let_def split: sum.split intro!: tables_ok_put [OF assms(1,2)])
qed

end
