(* ===== verification/AshTransactions.thy ===== *)
theory AshTransactions
  imports AshMemoryFacts
begin

text \<open>
  Transactions of the memory data layer (\<open>crates/ash-memory/src/lib.rs\<close>,
  \<open>transaction\<close>): what a commit merges and when it conflicts, over any snapshot, work and live
  store. Both levels of the store, the tables by name and the rows by key, are tables of one
  interface.
\<close>

section \<open>Keyed tables\<close>

locale keyed_table =
  fixes same :: "'k \<Rightarrow> 'k \<Rightarrow> bool"
    and get :: "('k \<times> 'v) list \<Rightarrow> 'k \<Rightarrow> 'v option"
    and put :: "'k \<Rightarrow> 'v \<Rightarrow> ('k \<times> 'v) list \<Rightarrow> ('k \<times> 'v) list"
    and del :: "'k \<Rightarrow> ('k \<times> 'v) list \<Rightarrow> ('k \<times> 'v) list"
  assumes same_refl: "same a a"
    and same_sym: "same a b \<Longrightarrow> same b a"
    and same_trans: "same a b \<Longrightarrow> same b c \<Longrightarrow> same a c"
    and get_Nil: "get [] k = None"
    and get_Cons: "get ((k', v) # t) k = (if same k' k then Some v else get t k)"
    and get_put: "get (put k v t) k' = (if same k k' then Some v else get t k')"
    and get_del: "get (del k t) k' = (if same k k' then None else get t k')"
begin

fun apart :: "('k \<times> 'v) list \<Rightarrow> bool" where
  "apart [] = True"
| "apart ((k, v) # t) \<longleftrightarrow> get t k = None \<and> apart t"

lemma get_class: "same k k' \<Longrightarrow> get t k = get t k'"
proof (induction t)
  case (Cons e t)
  obtain k'' v where e: "e = (k'', v)" by (cases e)
  have "same k'' k = same k'' k'" using Cons.prems same_sym same_trans by blast
  then show ?case using Cons by (simp add: e get_Cons)
qed (simp add: get_Nil)

lemma get_in: "apart t \<Longrightarrow> (k, v) \<in> set t \<Longrightarrow> get t k = Some v"
proof (induction t)
  case (Cons e t)
  obtain k' v' where e: "e = (k', v')" by (cases e)
  show ?case
  proof (cases "(k, v) \<in> set t")
    case True
    then have g: "get t k = Some v" using Cons by (simp add: e)
    moreover have "\<not> same k' k" using g Cons.prems(1) get_class [of k' k t] by (auto simp: e)
    ultimately show ?thesis by (simp add: e get_Cons)
  next
    case False
    then show ?thesis using Cons.prems same_refl by (auto simp: e get_Cons)
  qed
qed simp

lemma get_Some: "get t k = Some v \<Longrightarrow> \<exists>k'. (k', v) \<in> set t \<and> same k' k"
proof (induction t)
  case (Cons e t)
  then show ?case by (cases e) (auto simp: get_Cons split: if_splits)
qed (simp add: get_Nil)

text \<open>A check of every entry is a check of every key.\<close>

lemma all_entries:
  assumes "apart t" "\<And>k k' v. same k k' \<Longrightarrow> P k v \<longleftrightarrow> P k' v"
  shows "(\<forall>(k, v) \<in> set t. P k v) \<longleftrightarrow> (\<forall>k v. get t k = Some v \<longrightarrow> P k v)"
proof
  assume l: "\<forall>(k, v) \<in> set t. P k v"
  show "\<forall>k v. get t k = Some v \<longrightarrow> P k v"
  proof (intro allI impI)
    fix k v assume "get t k = Some v"
    then obtain k' where "(k', v) \<in> set t" "same k' k" using get_Some by blast
    then show "P k v" using l assms(2) by blast
  qed
next
  assume "\<forall>k v. get t k = Some v \<longrightarrow> P k v"
  then show "\<forall>(k, v) \<in> set t. P k v" using get_in [OF assms(1)] by blast
qed

text \<open>Entries written, or deleted, one after another where a condition on the key holds.\<close>

lemma fold_put:
  assumes "apart es" "\<And>k k' v. same k k' \<Longrightarrow> P k v \<longleftrightarrow> P k' v"
  shows "get (fold (\<lambda>(k, v) l. if P k v then put k v l else l) es t) k =
    (case get es k of Some v \<Rightarrow> if P k v then Some v else get t k | None \<Rightarrow> get t k)"
  using assms(1)
proof (induction es arbitrary: t)
  case (Cons e es)
  obtain k' v' where e: "e = (k', v')" by (cases e)
  note IH = Cons.IH [of "if P k' v' then put k' v' t else t"]
  show ?case
  proof (cases "same k' k")
    case True
    then have "get es k = None" using Cons.prems get_class [OF True, of es] by (simp add: e)
    then show ?thesis using IH Cons.prems assms(2) [OF True, of v'] True by (simp add: e get_Cons get_put)
  next
    case False
    then show ?thesis using IH Cons.prems by (simp add: e get_Cons get_put split: option.split)
  qed
qed (simp add: get_Nil)

lemma fold_del:
  assumes "\<And>k k'. same k k' \<Longrightarrow> P k \<longleftrightarrow> P k'"
  shows "get (fold (\<lambda>(k, _) l. if P k then del k l else l) es t) k =
    (if get es k \<noteq> None \<and> P k then None else get t k)"
proof (induction es arbitrary: t)
  case (Cons e es)
  obtain k' v' where e: "e = (k', v')" by (cases e)
  show ?case
  proof (cases "same k' k")
    case True
    show ?thesis using Cons.IH [of "if P k' then del k' t else t"] assms [OF True] True
      by (simp add: e get_Cons get_del)
  next
    case False
    then show ?thesis using Cons.IH [of "if P k' then del k' t else t"]
      by (simp add: e get_Cons get_del)
  qed
qed (simp add: get_Nil)

end

interpretation rows: keyed_table value_eq tb_get tb_insert tb_remove
  by unfold_locales (auto simp: tb_get_insert tb_get_remove dest: value_eq_sym value_eq_trans)

interpretation names: keyed_table "(=)" fm_get fm_insert fm_remove
  by unfold_locales auto

lemma rows_apart: "rows.apart t \<longleftrightarrow> keys_apart t"
  by (induction t rule: rows.apart.induct) (auto simp: tb_get_None_iff dest: value_eq_sym)

lemma names_apart: "names.apart tb \<longleftrightarrow> fm_ok tb"
  by (induction tb rule: names.apart.induct) (auto simp: fm_ok_def fm_get_None_iff)

section \<open>What a store holds\<close>

text \<open>A store as its hash maps are: a name has one table, a key of a table one row.\<close>

definition tables_wf :: "mem_tables \<Rightarrow> bool" where
  "tables_wf tb \<longleftrightarrow> fm_ok tb \<and> (\<forall>t \<in> snd ` set tb. keys_apart t)"

lemma tables_wf_get: "tables_wf tb \<Longrightarrow> fm_get tb name = Some t \<Longrightarrow> keys_apart t"
  by (force simp: tables_wf_def dest: fm_get_Some_in)

lemma tables_wf_apart: "tables_wf tb \<Longrightarrow> (name, t) \<in> set tb \<Longrightarrow> keys_apart t"
  by (force simp: tables_wf_def)

lemma stored_row_class: "value_eq pk pk' \<Longrightarrow> stored_row tb name pk = stored_row tb name pk'"
  by (auto simp: stored_row_def rows.get_class split: bind_splits)

lemma stored_row_insert [simp]:
  "stored_row (fm_insert name t tb) n pk = (if n = name then tb_get t pk else stored_row tb n pk)"
  by (simp add: stored_row_def)

lemma stored_row_remove [simp]:
  "stored_row (fm_remove name tb) n pk = (if n = name then None else stored_row tb n pk)"
  by (simp add: stored_row_def)

lemma stored_row_default: "tb_get (table_or_default tb name) pk = stored_row tb name pk"
  by (auto simp: stored_row_def table_or_default_def split: option.split)

lemma row_eq_simps [simp]:
  "row_eq None None" "\<not> row_eq None (Some b)" "\<not> row_eq (Some a) None"
  "row_eq (Some a) (Some b) \<longleftrightarrow> fields_eq a b"
  by (simp_all add: row_eq_def)

section \<open>What a commit merges\<close>

lemma merge_written_row:
  assumes "keys_apart t"
  shows "stored_row (merge_written snapshot (name, t) live) n pk =
    (if n = name
     then case tb_get t pk of
            Some row \<Rightarrow> if row_eq (stored_row snapshot name pk) (Some row) then stored_row live name pk else Some row
          | None \<Rightarrow> stored_row live name pk
     else stored_row live n pk)"
  using rows.fold_put [of t "\<lambda>pk row. \<not> row_eq (stored_row snapshot name pk) (Some row)" "table_or_default live name" pk]
    assms stored_row_class
  by (auto simp: merge_written_def rows_apart stored_row_default split: option.split)

lemma merge_written_rows:
  assumes "fm_ok committed" "\<forall>t \<in> snd ` set committed. keys_apart t"
  shows "stored_row (fold (merge_written snapshot) committed live) n pk =
    (case stored_row committed n pk of
       Some row \<Rightarrow> if row_eq (stored_row snapshot n pk) (Some row) then stored_row live n pk else Some row
     | None \<Rightarrow> stored_row live n pk)"
  using assms
proof (induction committed arbitrary: live)
  case (Cons e committed)
  obtain name t where e: "e = (name, t)" by (cases e)
  have new: "fm_get committed name = None" using Cons.prems by (auto simp: e fm_ok_def fm_get_None_iff)
  have IH: "stored_row (fold (merge_written snapshot) committed (merge_written snapshot e live)) n pk =
    (case stored_row committed n pk of
       Some row \<Rightarrow> if row_eq (stored_row snapshot n pk) (Some row)
                   then stored_row (merge_written snapshot e live) n pk else Some row
     | None \<Rightarrow> stored_row (merge_written snapshot e live) n pk)"
    by (rule Cons.IH) (use Cons.prems in \<open>auto simp: fm_ok_def\<close>)
  have "keys_apart t" using Cons.prems by (simp add: e)
  note w = merge_written_row [OF this, of snapshot name live n pk]
  show ?case
  proof (cases "n = name")
    case True
    then have "stored_row committed n pk = None" "stored_row ((name, t) # committed) n pk = tb_get t pk"
      using new by (simp_all add: stored_row_def)
    then show ?thesis using IH w True by (auto simp: e split: option.split)
  next
    case False
    then have "stored_row ((name, t) # committed) n pk = stored_row committed n pk" by (simp add: stored_row_def)
    then show ?thesis using IH w False by (auto simp: e split: option.split)
  qed
qed (simp add: stored_row_def)

lemma merge_deleted_row:
  "stored_row (merge_deleted committed (name, snap_table) live) n pk =
    (if n = name \<and> (fm_get committed name = None \<or>
          stored_row committed name pk = None \<and> tb_get snap_table pk \<noteq> None)
     then None else stored_row live n pk)"
proof (cases "fm_get committed name")
  case None
  then show ?thesis by (simp add: merge_deleted_def)
next
  case (Some t)
  show ?thesis
  proof (cases "fm_get live name")
    case None
    then show ?thesis by (auto simp: merge_deleted_def Some stored_row_def)
  next
    case (Some l)
    have "tb_get t k = None \<longleftrightarrow> tb_get t k' = None" if "value_eq k k'" for k k'
      using rows.get_class [OF that, of t] by simp
    then show ?thesis
      using \<open>fm_get committed name = Some t\<close> Some rows.fold_del [of "\<lambda>pk. tb_get t pk = None" snap_table l pk]
      by (auto simp: merge_deleted_def stored_row_def)
  qed
qed

lemma merge_deleted_rows:
  assumes "fm_ok snapshot"
  shows "stored_row (fold (merge_deleted committed) snapshot live) n pk =
    (if fm_get snapshot n \<noteq> None \<and> (fm_get committed n = None \<or>
          stored_row committed n pk = None \<and> stored_row snapshot n pk \<noteq> None)
     then None else stored_row live n pk)"
  using assms
proof (induction snapshot arbitrary: live)
  case (Cons e snapshot)
  obtain name t where e: "e = (name, t)" by (cases e)
  have new: "fm_get snapshot name = None" and ok: "fm_ok snapshot"
    using Cons.prems by (auto simp: e fm_ok_def fm_get_None_iff)
  show ?case
    using Cons.IH [OF ok, of "merge_deleted committed e live"] new
      merge_deleted_row [of committed name t live n pk]
    by (auto simp: e stored_row_def)
qed simp

section \<open>When a commit conflicts\<close>

lemma foldE_each_Inr: "foldE (\<lambda>_ a. f a) () as = Inr u \<longleftrightarrow> (\<forall>a \<in> set as. f a = Inr ())"
  by (induction "as") (auto simp: bindE_eq_Inr)

lemma check_written_Inr:
  assumes "keys_apart t"
  shows "check_written x snapshot live (name, t) = Inr () \<longleftrightarrow>
    (\<forall>pk row. tb_get t pk = Some row \<longrightarrow> row_eq (stored_row snapshot name pk) (Some row) \<or>
       row_eq (stored_row live name pk) (stored_row snapshot name pk))"
proof -
  let ?P = "\<lambda>pk row. row_eq (stored_row snapshot name pk) (Some row) \<or>
       row_eq (stored_row live name pk) (stored_row snapshot name pk)"
  have "check_written x snapshot live (name, t) = Inr () \<longleftrightarrow> (\<forall>(pk, row) \<in> set t. ?P pk row)"
    unfolding check_written_def prod.case foldE_each_Inr by (rule ball_cong [OF refl]) (auto split: if_splits)
  also have "\<dots> \<longleftrightarrow> (\<forall>pk row. tb_get t pk = Some row \<longrightarrow> ?P pk row)"
    by (rule rows.all_entries) (use assms stored_row_class in \<open>simp_all add: rows_apart\<close>)
  finally show ?thesis .
qed

lemma check_deleted_Inr:
  assumes "keys_apart t" "fm_get committed name \<noteq> None"
  shows "check_deleted x committed live (name, t) = Inr () \<longleftrightarrow>
    (\<forall>pk row. tb_get t pk = Some row \<longrightarrow> stored_row committed name pk \<noteq> None \<or>
       row_eq (stored_row live name pk) (Some row))"
proof -
  obtain c where c: "fm_get committed name = Some c" using assms(2) by blast
  let ?P = "\<lambda>pk row. tb_get c pk \<noteq> None \<or> row_eq (stored_row live name pk) (Some row)"
  have "check_deleted x committed live (name, t) = Inr () \<longleftrightarrow> (\<forall>(pk, row) \<in> set t. ?P pk row)"
    unfolding check_deleted_def prod.case c option.case foldE_each_Inr by (rule ball_cong [OF refl]) (auto split: if_splits)
  also have "\<dots> \<longleftrightarrow> (\<forall>pk row. tb_get t pk = Some row \<longrightarrow> ?P pk row)"
  proof (rule rows.all_entries)
    show "rows.apart t" using assms(1) by (simp add: rows_apart)
    show "?P k v \<longleftrightarrow> ?P k' v" if "value_eq k k'" for k k' v
      using rows.get_class [OF that, of c] stored_row_class [OF that, of live name] by simp
  qed
  finally show ?thesis by (simp add: c stored_row_def)
qed

text \<open>A row the work changed: it isn't as the snapshot has it.\<close>

definition touched :: "mem_tables \<Rightarrow> mem_tables \<Rightarrow> string \<Rightarrow> Value \<Rightarrow> bool" where
  "touched snapshot committed name pk \<longleftrightarrow>
     \<not> row_eq (stored_row snapshot name pk) (stored_row committed name pk)"

definition keeps_tables :: "mem_tables \<Rightarrow> mem_tables \<Rightarrow> bool" where
  "keeps_tables snapshot committed \<longleftrightarrow> (\<forall>e \<in> set snapshot. fm_get committed (fst e) \<noteq> None)"

lemma tables_wf_row:
  assumes "tables_wf tb"
  shows "(\<forall>(name, t) \<in> set tb. \<forall>pk row. tb_get t pk = Some row \<longrightarrow> Q name pk row) \<longleftrightarrow>
    (\<forall>name pk row. stored_row tb name pk = Some row \<longrightarrow> Q name pk row)"
proof -
  have "(\<forall>(name, t) \<in> set tb. \<forall>pk row. tb_get t pk = Some row \<longrightarrow> Q name pk row) \<longleftrightarrow>
    (\<forall>name t. fm_get tb name = Some t \<longrightarrow> (\<forall>pk row. tb_get t pk = Some row \<longrightarrow> Q name pk row))"
    by (rule names.all_entries) (use assms in \<open>auto simp: names_apart tables_wf_def\<close>)
  then show ?thesis by (auto simp: stored_row_def Option.bind_eq_Some_conv)
qed

lemma commit_checks:
  assumes "tables_wf snapshot" "tables_wf committed" "keeps_tables snapshot committed"
  shows "(\<exists>u. bindE (foldE (\<lambda>_ e. check_written x snapshot live e) () committed) (\<lambda>_.
            foldE (\<lambda>_ e. check_deleted x committed live e) () snapshot) = Inr u) \<longleftrightarrow>
    (\<forall>name pk. touched snapshot committed name pk \<longrightarrow>
       row_eq (stored_row live name pk) (stored_row snapshot name pk))"
proof -
  have w: "(\<forall>e \<in> set committed. check_written x snapshot live e = Inr ()) \<longleftrightarrow>
    (\<forall>name pk row. stored_row committed name pk = Some row \<longrightarrow>
       row_eq (stored_row snapshot name pk) (Some row) \<or>
       row_eq (stored_row live name pk) (stored_row snapshot name pk))"
    unfolding tables_wf_row [OF assms(2), symmetric]
    by (rule ball_cong [OF refl]) (auto simp: check_written_Inr tables_wf_apart [OF assms(2)], blast)
  have d: "(\<forall>e \<in> set snapshot. check_deleted x committed live e = Inr ()) \<longleftrightarrow>
    (\<forall>name pk row. stored_row snapshot name pk = Some row \<longrightarrow>
       stored_row committed name pk \<noteq> None \<or> row_eq (stored_row live name pk) (Some row))"
    unfolding tables_wf_row [OF assms(1), symmetric]
  proof (rule ball_cong [OF refl])
    fix e assume e: "e \<in> set snapshot"
    obtain name t where nt: "e = (name, t)" by (cases e)
    have "keys_apart t" "fm_get committed name \<noteq> None"
      using e nt assms(3) tables_wf_apart [OF assms(1)] by (auto simp: keeps_tables_def)
    then show "check_deleted x committed live e = Inr () \<longleftrightarrow> (case e of (name, t) \<Rightarrow>
        \<forall>pk row. tb_get t pk = Some row \<longrightarrow> stored_row committed name pk \<noteq> None \<or>
          row_eq (stored_row live name pk) (Some row))"
      by (simp add: nt check_deleted_Inr)
  qed
  have "(\<forall>name pk row. stored_row committed name pk = Some row \<longrightarrow>
       row_eq (stored_row snapshot name pk) (Some row) \<or>
       row_eq (stored_row live name pk) (stored_row snapshot name pk)) \<and>
    (\<forall>name pk row. stored_row snapshot name pk = Some row \<longrightarrow>
       stored_row committed name pk \<noteq> None \<or> row_eq (stored_row live name pk) (Some row)) \<longleftrightarrow>
    (\<forall>name pk. touched snapshot committed name pk \<longrightarrow>
       row_eq (stored_row live name pk) (stored_row snapshot name pk))" (is "?W \<and> ?D \<longleftrightarrow> ?T")
  proof (intro iffI conjI allI impI)
    fix name pk assume wd: "?W \<and> ?D" and t: "touched snapshot committed name pk"
    show "row_eq (stored_row live name pk) (stored_row snapshot name pk)"
    proof (cases "stored_row committed name pk")
      case None
      then obtain row where "stored_row snapshot name pk = Some row"
        using t by (cases "stored_row snapshot name pk") (auto simp: touched_def)
      then show ?thesis using wd None by metis
    next
      case (Some row)
      then show ?thesis using wd t by (metis touched_def)
    qed
  qed (metis touched_def row_eq_simps(3))+
  then show ?thesis using w d by (auto simp: bindE_eq_Inr foldE_each_Inr)
qed

text \<open>
  A transaction commits exactly when every row it inserted, changed or deleted is
  still live as it was when the transaction began, whatever else others wrote meanwhile.
\<close>

lemma commit_conflicts_iff:
  assumes "tables_wf snapshot" "tables_wf committed" "keeps_tables snapshot committed"
  shows "(\<exists>u. fst (commit x snapshot committed live) = Inr u) \<longleftrightarrow>
    (\<forall>name pk. touched snapshot committed name pk \<longrightarrow>
       row_eq (stored_row live name pk) (stored_row snapshot name pk))"
  unfolding commit_checks [OF assms, of x live, symmetric]
  by (auto simp: commit_def split: sum.split)

text \<open>
  What a commit leaves: each row the work touched as the work has it, deleted rows gone,
  and every other row as others left it.
\<close>

lemma commit_merges:
  assumes "tables_wf snapshot" "tables_wf committed" "keeps_tables snapshot committed"
    and "commit x snapshot committed live = (Inr u, live')"
  shows "stored_row live' name pk =
    (if touched snapshot committed name pk then stored_row committed name pk else stored_row live name pk)"
proof -
  let ?w = "fold (merge_written snapshot) committed live"
  have "live' = fold (merge_deleted committed) snapshot ?w"
    using assms(4) by (auto simp: commit_def split: sum.splits)
  moreover have "fm_ok snapshot" using assms(1) by (simp add: tables_wf_def)
  ultimately have d: "stored_row live' name pk =
    (if fm_get snapshot name \<noteq> None \<and> (fm_get committed name = None \<or>
          stored_row committed name pk = None \<and> stored_row snapshot name pk \<noteq> None)
     then None else stored_row ?w name pk)"
    using merge_deleted_rows by simp
  have w: "stored_row ?w name pk = (case stored_row committed name pk of
       Some row \<Rightarrow> if row_eq (stored_row snapshot name pk) (Some row) then stored_row live name pk else Some row
     | None \<Rightarrow> stored_row live name pk)"
    by (rule merge_written_rows) (use assms(2) in \<open>auto simp: tables_wf_def\<close>)
  have kept: "fm_get snapshot name \<noteq> None \<Longrightarrow> fm_get committed name \<noteq> None"
    using assms(3) fm_get_Some_in [of snapshot name] by (force simp: keeps_tables_def)
  have snap: "stored_row snapshot name pk \<noteq> None \<Longrightarrow> fm_get snapshot name \<noteq> None"
    by (cases "fm_get snapshot name") (simp_all add: stored_row_def)
  show ?thesis
  proof (cases "stored_row committed name pk")
    case None
    then show ?thesis using d w kept snap
      by (cases "stored_row snapshot name pk") (auto simp: touched_def)
  next
    case (Some row)
    then show ?thesis using d w kept by (auto simp: touched_def)
  qed
qed

lemma foldE_each_Inl: "foldE (\<lambda>_ a. f a) () as = Inl e \<Longrightarrow> \<exists>a \<in> set as. f a = Inl e"
  by (induction "as") (auto simp: bindE_def split: sum.splits)

lemma commit_Inl: "commit x snapshot committed live = (Inl e, live') \<Longrightarrow> \<exists>s. e = EDataLayer s"
proof -
  assume "commit x snapshot committed live = (Inl e, live')"
  then consider c where "check_written x snapshot live c = Inl e" | c where "check_deleted x committed live c = Inl e"
    by (auto simp: commit_def bindE_def split: sum.splits dest!: foldE_each_Inl)
  then show ?thesis
  proof cases
    case 1
    then show ?thesis
      by (cases c) (auto simp: check_written_def split: if_splits dest!: foldE_each_Inl)
  next
    case 2
    then show ?thesis
      by (cases c) (auto simp: check_deleted_def split: if_splits option.splits dest!: foldE_each_Inl)
  qed
qed

lemma transaction_commits:
  "case mem_transaction x m work live of
     (Inl e, live') \<Rightarrow> live' = live
   | (Inr v, live') \<Rightarrow> (\<exists>tx. work (from_tables (mem_store m)) = (Inr v, tx) \<and>
       \<not> mem_poisoned tx \<and> \<not> mem_poisoned live' \<and>
       commit x (mem_store m) (mem_store tx) (mem_store live) = (Inr (), mem_store live'))"
proof -
  have "tb' = tb \<and> \<not> is_panic (Inl e :: 'b res)" if "commit x s c tb = (Inl e, tb')" for s c tb e tb'
    using commit_Inl [OF that] that by (auto simp: is_panic_def commit_def split: sum.splits)
  then show ?thesis
    by (auto simp: mem_transaction_def with_write_def Let_def is_panic_def split: prod.splits sum.splits)
qed


text \<open>
  C15: A transaction that fails, in its work or by a conflict, leaves the live store as it
  is; one that succeeds gives its work's result, and the store is the one its commit leaves.
\<close>

theorem transaction_atomic:
  "case mem_transaction x m work live of
     (Inl e, live') \<Rightarrow> live' = live
   | (Inr v, live') \<Rightarrow> (\<exists>tx. work (from_tables (mem_store m)) = (Inr v, tx) \<and>
       \<not> mem_poisoned tx \<and> \<not> mem_poisoned live' \<and>
       commit x (mem_store m) (mem_store tx) (mem_store live) = (Inr (), mem_store live'))"
  by (rule transaction_commits)

end
