(* ===== verification/AshMemoryProps.thy ===== *)
theory AshMemoryProps
  imports AshTransactions
begin

text \<open>
  The runs of the memory data layer: every run of writes keeps the store a map of maps, every
  run of the writes that check identities keeps them unique, each write changes the one row
  it names, and what a query gives.
\<close>

section \<open>Every write keeps the tables\<close>

inductive mem_step :: "external \<Rightarrow> registry \<Rightarrow> memory \<Rightarrow> memory \<Rightarrow> bool" for x reg where
  step_create: "mem_step x reg m (snd (mem_create x m r tenant pk fs))"
| step_update: "mem_step x reg m (snd (mem_update x reg m r tenant pk fs))"
| step_upsert: "mem_step x reg m (snd (mem_upsert x m r tenant pk fs ident update_fields))"
| step_destroy: "mem_step x reg m (snd (mem_destroy x reg m r tenant pk))"
| step_bulk_create: "mem_step x reg m (snd (mem_bulk_create x m r tenant rows))"
| step_bulk_destroy: "mem_step x reg m (snd (mem_bulk_destroy x reg m r tenant pks))"
| step_update_atomic: "mem_step x reg m (snd (mem_update_atomic x reg m r q u))"
| step_destroy_atomic: "mem_step x reg m (snd (mem_destroy_atomic x reg m r q cs))"

text \<open>Each write puts a table that keeps its keys apart where there may have been one.\<close>

definition table_kept :: "mem_tables \<Rightarrow> mem_tables \<Rightarrow> bool" where
  "table_kept tb tb' \<longleftrightarrow> tb' = tb \<or> (\<exists>name t. tb' = fm_insert name t tb \<and> (tables_wf tb \<longrightarrow> keys_apart t))"

lemma table_kept_same [simp]: "table_kept tb tb"
  by (simp add: table_kept_def)

lemma table_kept_put: "(tables_wf tb \<Longrightarrow> keys_apart t) \<Longrightarrow> table_kept tb (fm_insert name t tb)"
  by (auto simp: table_kept_def)

lemma with_write_kept:
  "(\<And>tb. table_kept tb (snd (f tb))) \<Longrightarrow> table_kept (mem_store m) (mem_store (snd (with_write m f)))"
  by (simp add: with_write_def Let_def case_prod_unfold)

lemma keys_apart_default: "tables_wf tb \<Longrightarrow> keys_apart (table_or_default tb name)"
  by (auto simp: table_or_default_def split: option.split dest: tables_wf_get)

lemma insert_row_apart: "insert_row x r t pk fs = Inr (fs', t') \<Longrightarrow> keys_apart t \<Longrightarrow> keys_apart t'"
  by (auto simp: insert_row_def bindE_eq_Inr split: if_splits)

lemma insert_rows_apart: "keys_apart t \<Longrightarrow> keys_apart (snd (insert_rows x r t rows))"
proof (induction rows arbitrary: t)
  case (Cons e rows)
  obtain pk fs where e: "e = (pk, fs)" by (cases e)
  show ?case
  proof (cases "insert_row x r t pk fs")
    case (Inr p)
    obtain stored t' where p: "p = (stored, t')" by (cases p)
    have "keys_apart (snd (insert_rows x r t' rows))"
      by (rule Cons.IH) (rule insert_row_apart [OF Inr [unfolded p] Cons.prems])
    then show ?thesis using Inr p by (auto simp: e split: prod.split sum.split)
  qed (simp add: e Cons.prems)
qed simp

lemma fold_keys_apart:
  "(\<And>a t. keys_apart t \<Longrightarrow> keys_apart (g a t)) \<Longrightarrow> keys_apart t \<Longrightarrow> keys_apart (fold g as t)"
  by (induction "as" arbitrary: t) auto

lemma fold_remove_apart:
  "keys_apart (snd acc) \<Longrightarrow> keys_apart (snd (fold (remove_row r) rows acc))"
proof (induction rows arbitrary: acc)
  case (Cons row rows)
  have "keys_apart (snd (remove_row r row acc))"
    using Cons.prems by (cases acc) (auto simp: remove_row_def split: option.split)
  then show ?case using Cons.IH by simp
qed simp

lemma store_updated_apart: "keys_apart t \<Longrightarrow> keys_apart (store_updated r row t)"
  by (auto simp: store_updated_def split: option.split)

lemma mem_step_kept: "mem_step x reg m m' \<Longrightarrow> table_kept (mem_store m) (mem_store m')"
proof (induction rule: mem_step.induct)
  case (step_create m r tenant pk fs)
  show ?case unfolding mem_create_def
    by (rule with_write_kept) (auto simp: Let_def split: sum.split intro!: table_kept_put
        intro: keys_apart_default insert_row_apart)
next
  case (step_update m r tenant pk fs)
  show ?case unfolding mem_update_def
    by (rule with_write_kept) (auto simp: Let_def split: sum.split option.split intro!: table_kept_put
        keys_apart_insert intro: tables_wf_get)
next
  case (step_upsert m r tenant pk fs ident update_fields)
  have "table_kept (mem_store m) (mem_store (snd (with_write m (\<lambda>tb.
        let key = table_key r tenant; t = table_or_default tb key;
            columns = identity_columns ident (r_multitenancy r)
        in case List.find (\<lambda>e. identity_matches x r ident columns fs (snd e)) t of
             Some (existing, row) \<Rightarrow>
               let row' = fm_extend row (upsert_fields ident fs update_fields)
               in (Inr row', fm_insert key (tb_insert existing row' t) tb)
           | None \<Rightarrow>
               (case bindE (assign_key x r t pk fs) (\<lambda>(pk, fs).
                   bindE (check_identities x r t pk fs None) (\<lambda>_. Inr (pk, fs))) of
                  Inl e \<Rightarrow> (Inl e, fm_insert key t tb)
                | Inr (pk, fs) \<Rightarrow> (Inr fs, fm_insert key (tb_insert pk fs t) tb))))))"
    by (rule with_write_kept) (auto simp: Let_def split: sum.split option.split intro!: table_kept_put
        keys_apart_insert keys_apart_default)
  then show ?case by (simp add: mem_upsert_def)
next
  case (step_destroy m r tenant pk)
  show ?case unfolding mem_destroy_def
    by (rule with_write_kept) (auto simp: Let_def split: sum.split option.split intro!: table_kept_put
        keys_apart_remove intro: tables_wf_get)
next
  case (step_bulk_create m r tenant rows)
  show ?case unfolding mem_bulk_create_def
    by (rule with_write_kept) (auto simp: Let_def case_prod_unfold intro!: table_kept_put insert_rows_apart
        keys_apart_default)
next
  case (step_bulk_destroy m r tenant pks)
  show ?case unfolding mem_bulk_destroy_def
    by (rule with_write_kept) (auto simp: Let_def split: sum.split option.split intro!: table_kept_put
        fold_keys_apart keys_apart_remove intro: tables_wf_get)
next
  case (step_update_atomic m r q u)
  show ?case unfolding mem_update_atomic_def
    by (rule with_write_kept) (auto simp: Let_def split: sum.split intro!: table_kept_put fold_keys_apart
        keys_apart_default store_updated_apart)
next
  case (step_destroy_atomic m r q cs)
  show ?case unfolding mem_destroy_atomic_def
    by (rule with_write_kept) (auto simp: Let_def case_prod_unfold split: sum.split option.split
        intro!: table_kept_put fold_remove_apart intro: tables_wf_get)
qed

lemma table_kept_wf: "table_kept tb tb' \<Longrightarrow> tables_wf tb \<Longrightarrow> tables_wf tb'"
  by (auto simp: table_kept_def tables_wf_def fm_insert_set)

lemma table_kept_keeps: "table_kept tb tb' \<Longrightarrow> fm_get tb name \<noteq> None \<Longrightarrow> fm_get tb' name \<noteq> None"
  by (auto simp: table_kept_def)

lemma mem_steps_kept:
  "(mem_step x reg)\<^sup>*\<^sup>* m m' \<Longrightarrow>
   (tables_wf (mem_store m) \<longrightarrow> tables_wf (mem_store m')) \<and>
   (\<forall>name. fm_get (mem_store m) name \<noteq> None \<longrightarrow> fm_get (mem_store m') name \<noteq> None)"
proof (induction rule: rtranclp_induct)
  case (step m' m'')
  note k = mem_step_kept [OF step.hyps(2)]
  show ?case using step.IH table_kept_wf [OF k] table_kept_keeps [OF k] by blast
qed simp

lemma tables_wf_Nil [simp]: "tables_wf []"
  by (simp add: tables_wf_def fm_ok_def)

section \<open>Transactions over runs of writes\<close>

lemma run_commits:
  assumes "tables_wf (mem_store m)" "(mem_step x reg)\<^sup>*\<^sup>* (from_tables (mem_store m)) tx"
  shows "tables_wf (mem_store tx)" "keeps_tables (mem_store m) (mem_store tx)"
  using mem_steps_kept [OF assms(2)] assms(1)
  by (auto simp: from_tables_def keeps_tables_def fm_get_None_iff)

lemma transaction_fst:
  assumes "\<not> mem_poisoned m" "\<not> mem_poisoned live" "work (from_tables (mem_store m)) = (Inr v, tx)" "\<not> mem_poisoned tx"
  shows "mem_transaction x m work live =
    (case commit x (mem_store m) (mem_store tx) (mem_store live) of
       (Inl e, tb) \<Rightarrow> (Inl e, from_tables tb) | (Inr _, tb) \<Rightarrow> (Inr v, from_tables tb))"
  using assms commit_Inl
  by (auto simp: mem_transaction_def with_write_def is_panic_def from_tables_def Let_def
      split: prod.split sum.split dest!: commit_Inl)

text \<open>
  C14: A transaction whose work is any run of writes commits exactly when every row
  it inserted, changed or deleted is still live as it was when the transaction began, whatever
  else others wrote meanwhile.
\<close>

theorem transaction_conflicts:
  assumes "\<not> mem_poisoned m" "\<not> mem_poisoned live" "tables_wf (mem_store m)"
    and "work (from_tables (mem_store m)) = (Inr v, tx)" "\<not> mem_poisoned tx"
    and "(mem_step x reg)\<^sup>*\<^sup>* (from_tables (mem_store m)) tx"
  shows "fst (mem_transaction x m work live) = Inr v \<longleftrightarrow>
    (\<forall>name pk. touched (mem_store m) (mem_store tx) name pk \<longrightarrow>
       row_eq (stored_row (mem_store live) name pk) (stored_row (mem_store m) name pk))"
proof -
  have "fst (mem_transaction x m work live) = Inr v \<longleftrightarrow>
      (\<exists>u. fst (commit x (mem_store m) (mem_store tx) (mem_store live)) = Inr u)"
    unfolding transaction_fst [OF assms(1,2), where work = work, OF assms(4,5)]
    by (auto split: prod.split sum.split)
  then show ?thesis
    by (simp only: commit_conflicts_iff [OF assms(3) run_commits [OF assms(3,6)]])
qed

definition sample_unique :: resource_def where
  "sample_unique = sample_resource
     \<lparr>r_attributes := [uuid_pk ''id'', attr_required ''title'' TString],
      r_identities := [identity_new ''title'' [''title'']]\<rparr>"

definition sample_work :: "memory \<Rightarrow> fields res \<times> memory" where
  "sample_work m = mem_create sample_external m sample_unique None (VUuid 1) [(''title'', VString ''a'')]"

lemma sample_work_empty:
  "sample_work empty_memory =
     (Inr [(''title'', VString ''a'')],
      from_tables [(''Post'', [(VUuid 1, [(''title'', VString ''a'')])])])"
  by code_simp

lemma sample_work_step: "(mem_step sample_external [sample_unique])\<^sup>*\<^sup>* m (snd (sample_work m))"
  unfolding sample_work_def by (rule r_into_rtranclp) (rule step_create)

lemma transaction_conflicts_witness:
  "fst (mem_transaction sample_external empty_memory sample_work
      (from_tables [(''Post'', [(VUuid 1, [(''title'', VString ''b'')])])])) \<noteq> Inr [(''title'', VString ''a'')]"
proof -
  let ?tx = "from_tables [(''Post'', [(VUuid 1, [(''title'', VString ''a'')])])]"
    and ?live = "from_tables [(''Post'', [(VUuid 1, [(''title'', VString ''b'')])])]"
  have e: "from_tables (mem_store empty_memory) = empty_memory" by (simp add: from_tables_def empty_memory_def)
  have "touched (mem_store empty_memory) (mem_store ?tx) ''Post'' (VUuid 1) \<and>
      \<not> row_eq (stored_row (mem_store ?live) ''Post'' (VUuid 1)) (stored_row (mem_store empty_memory) ''Post'' (VUuid 1))"
    by (simp add: touched_def stored_row_def from_tables_def empty_memory_def)
  moreover have step: "(mem_step sample_external [sample_unique])\<^sup>*\<^sup>* (from_tables (mem_store empty_memory)) ?tx"
    using sample_work_step [of empty_memory] by (simp add: e sample_work_empty)
  have "fst (mem_transaction sample_external empty_memory sample_work ?live) = Inr [(''title'', VString ''a'')] \<longleftrightarrow>
    (\<forall>name pk. touched (mem_store empty_memory) (mem_store ?tx) name pk \<longrightarrow>
       row_eq (stored_row (mem_store ?live) name pk) (stored_row (mem_store empty_memory) name pk))"
    by (rule transaction_conflicts [OF _ _ _ _ _ step])
      (simp_all add: e sample_work_empty, simp_all add: from_tables_def empty_memory_def)
  ultimately show ?thesis by blast
qed

text \<open>
  C9: A transaction that commits leaves each row its work touched as the work has it,
  and every other row as others left it.
\<close>

theorem transaction_merges:
  assumes "tables_wf (mem_store m)" "work (from_tables (mem_store m)) = (Inr v, tx)"
    and "(mem_step x reg)\<^sup>*\<^sup>* (from_tables (mem_store m)) tx"
    and "mem_transaction x m work live = (Inr v', live')"
  shows "stored_row (mem_store live') name pk =
    (if touched (mem_store m) (mem_store tx) name pk then stored_row (mem_store tx) name pk
     else stored_row (mem_store live) name pk)"
proof -
  have "commit x (mem_store m) (mem_store tx) (mem_store live) = (Inr (), mem_store live')"
    using transaction_commits [where x = x and m = m and work = work and live = live] assms(2,4) by auto
  then show ?thesis by (rule commit_merges [OF assms(1) run_commits [OF assms(1,3)]])
qed

lemma transaction_merges_witness:
  "stored_row (mem_store (snd (mem_transaction sample_external empty_memory sample_work
     (from_tables [(''Post'', [(VUuid 2, [(''title'', VString ''b'')])])])))) ''Post'' (VUuid 1) =
     Some [(''title'', VString ''a'')]"
proof -
  let ?tx = "from_tables [(''Post'', [(VUuid 1, [(''title'', VString ''a'')])])]"
    and ?live = "from_tables [(''Post'', [(VUuid 2, [(''title'', VString ''b'')])])]"
  let ?r = "mem_transaction sample_external empty_memory sample_work ?live"
  have e: "from_tables (mem_store empty_memory) = empty_memory" by (simp add: from_tables_def empty_memory_def)
  have step: "(mem_step sample_external [sample_unique])\<^sup>*\<^sup>* (from_tables (mem_store empty_memory)) ?tx"
    using sample_work_step [of empty_memory] by (simp add: e sample_work_empty)
  have ok: "?r = (Inr [(''title'', VString ''a'')], snd ?r)"
  proof -
    have "fst ?r = Inr [(''title'', VString ''a'')]" by code_simp
    then show ?thesis by (metis prod.collapse)
  qed
  have "stored_row (mem_store (snd ?r)) ''Post'' (VUuid 1) =
    (if touched (mem_store empty_memory) (mem_store ?tx) ''Post'' (VUuid 1)
     then stored_row (mem_store ?tx) ''Post'' (VUuid 1) else stored_row (mem_store ?live) ''Post'' (VUuid 1))"
    by (rule transaction_merges [OF _ _ step ok])
      (simp_all add: e sample_work_empty, simp add: empty_memory_def)
  then show ?thesis by (simp add: touched_def stored_row_def from_tables_def empty_memory_def)
qed

section \<open>Identities hold in every reachable store\<close>

text \<open>
  The writes that check the identities of what they leave: all but an upsert, which may change
  a row it matched, and an atomic update of more than one record.
\<close>

inductive checked_step :: "external \<Rightarrow> registry \<Rightarrow> memory \<Rightarrow> memory \<Rightarrow> bool" for x reg where
  checked_create: "r \<in> set reg \<Longrightarrow> checked_step x reg m (snd (mem_create x m r tenant pk fs))"
| checked_update: "r \<in> set reg \<Longrightarrow> checked_step x reg m (snd (mem_update x reg m r tenant pk fs))"
| checked_destroy: "r \<in> set reg \<Longrightarrow> checked_step x reg m (snd (mem_destroy x reg m r tenant pk))"
| checked_bulk_create: "r \<in> set reg \<Longrightarrow> checked_step x reg m (snd (mem_bulk_create x m r tenant rows))"
| checked_bulk_destroy: "r \<in> set reg \<Longrightarrow> checked_step x reg m (snd (mem_bulk_destroy x reg m r tenant pks))"
| checked_update_atomic: "r \<in> set reg \<Longrightarrow> q_limit q = Some 1 \<Longrightarrow>
    checked_step x reg m (snd (mem_update_atomic x reg m r q u))"
| checked_destroy_atomic: "r \<in> set reg \<Longrightarrow> checked_step x reg m (snd (mem_destroy_atomic x reg m r q cs))"

lemma checked_step_ok:
  "checked_step x reg m m' \<Longrightarrow> tables_apart reg \<Longrightarrow> store_ok x reg m \<Longrightarrow> store_ok x reg m'"
  by (induction rule: checked_step.induct)
    (auto intro: create_store_ok update_store_ok destroy_store_ok bulk_create_store_ok bulk_destroy_store_ok
      update_atomic_store_ok destroy_atomic_store_ok)

lemma checked_steps_ok:
  "(checked_step x reg)\<^sup>*\<^sup>* m m' \<Longrightarrow> tables_apart reg \<Longrightarrow> store_ok x reg m \<Longrightarrow> store_ok x reg m'"
  by (induction rule: rtranclp_induct) (auto intro: checked_step_ok)

text \<open>
  C1: In every store reached from the empty one by writes that check identities,
  no two records of a table agree on an identity's columns.
\<close>

theorem reachable_identities_hold:
  assumes "tables_apart reg" "(checked_step x reg)\<^sup>*\<^sup>* empty_memory m"
    and "r \<in> set reg" "i \<in> set (r_identities r)" "i_predicate i = None"
    and "fm_get (mem_store m) (table_key r tenant) = Some t"
    and "(k, a) \<in> set t" "(k', b) \<in> set t" "\<not> value_eq k k'"
  shows "\<not> identity_matches x r i (identity_columns i (r_multitenancy r)) a b"
proof -
  have "store_ok x reg m" by (rule checked_steps_ok [OF assms(2,1) store_ok_empty])
  then have "table_ok x r t" using assms(3,6) by (auto simp: store_ok_def tables_ok_def)
  then have "identity_unique x r t i" using assms(4) by (simp add: table_ok_def)
  then show ?thesis using assms(5,7-9) by (force simp: identity_unique_def)
qed


lemma sample_apart: "tables_apart [sample_unique]"
  by (simp add: tables_apart_def)

lemma reachable_identities_hold_witness:
  "\<not> identity_matches sample_external sample_unique (identity_new ''title'' [''title'']) [''title'']
     [(''title'', VString ''a'')] [(''title'', VString ''b'')]"
proof -
  let ?m = "snd (mem_create sample_external (snd (sample_work empty_memory)) sample_unique None (VUuid 2)
      [(''title'', VString ''b'')])"
  have m: "mem_store ?m = [(''Post'', [(VUuid 1, [(''title'', VString ''a'')]), (VUuid 2, [(''title'', VString ''b'')])])]"
    by code_simp
  have "checked_step sample_external [sample_unique] empty_memory (snd (sample_work empty_memory))"
    unfolding sample_work_def by (rule checked_create) simp
  moreover have "checked_step sample_external [sample_unique] (snd (sample_work empty_memory)) ?m"
    by (rule checked_create) simp
  ultimately have r: "(checked_step sample_external [sample_unique])\<^sup>*\<^sup>* empty_memory ?m" by (meson r_into_rtranclp rtranclp.rtrancl_into_rtrancl)
  have c: "identity_columns (identity_new ''title'' [''title'']) (r_multitenancy sample_unique) = [''title'']" by code_simp
  have k: "table_key sample_unique None = ''Post''" by code_simp
  show ?thesis
    using reachable_identities_hold [OF sample_apart r, of sample_unique "identity_new ''title'' [''title'']" None _
        "VUuid 1" _ "VUuid 2"]
    by (simp add: m c k) (simp add: sample_unique_def identity_new_def)
qed

text \<open>
  An upsert, an atomic update of several records, and the merge of two transactions don't
  check the identities of what they leave: each of these runs ends with two posts of one title.
\<close>

definition duplicated :: "memory \<Rightarrow> bool" where
  "duplicated m \<longleftrightarrow> (\<exists>k k'. \<not> value_eq k k' \<and>
     Option.bind (stored_row (mem_store m) ''Post'' k) (\<lambda>row. fm_get row ''title'') = Some (VString ''a'') \<and>
     Option.bind (stored_row (mem_store m) ''Post'' k') (\<lambda>row. fm_get row ''title'') = Some (VString ''a''))"

definition two_posts :: memory where
  "two_posts = from_tables [(''Post'', [(VUuid 1, [(''title'', VString ''a''), (''id'', VUuid 1)]),
     (VUuid 2, [(''title'', VString ''b''), (''id'', VUuid 2)])])]"

lemma upsert_may_duplicate:
  "duplicated (snd (mem_upsert sample_external two_posts sample_unique None (VUuid 3)
     [(''id'', VUuid 2), (''title'', VString ''a'')] (identity_new ''key'' [''id'']) [''title'']))"
proof -
  let ?m = "snd (mem_upsert sample_external two_posts sample_unique None (VUuid 3)
     [(''id'', VUuid 2), (''title'', VString ''a'')] (identity_new ''key'' [''id'']) [''title''])"
  have "stored_row (mem_store ?m) ''Post'' (VUuid 1) = Some [(''title'', VString ''a''), (''id'', VUuid 1)] \<and>
    stored_row (mem_store ?m) ''Post'' (VUuid 2) = Some [(''title'', VString ''a''), (''id'', VUuid 2)]" by code_simp
  then show ?thesis unfolding duplicated_def by (intro exI [of _ "VUuid 1"] exI [of _ "VUuid 2"]) simp
qed

lemma update_atomic_may_duplicate:
  "duplicated (snd (mem_update_atomic sample_external [sample_unique]
     (from_tables [(''Post'', [(VUuid 1, [(''title'', VString ''x''), (''id'', VUuid 1)]),
       (VUuid 2, [(''title'', VString ''y''), (''id'', VUuid 2)])])])
     sample_unique default_query (update_set empty_update ''title'' (AtValue (VString ''a'')))))"
proof -
  let ?m = "snd (mem_update_atomic sample_external [sample_unique]
     (from_tables [(''Post'', [(VUuid 1, [(''title'', VString ''x''), (''id'', VUuid 1)]),
       (VUuid 2, [(''title'', VString ''y''), (''id'', VUuid 2)])])])
     sample_unique default_query (update_set empty_update ''title'' (AtValue (VString ''a''))))"
  have "stored_row (mem_store ?m) ''Post'' (VUuid 1) = Some [(''title'', VString ''a''), (''id'', VUuid 1)] \<and>
    stored_row (mem_store ?m) ''Post'' (VUuid 2) = Some [(''title'', VString ''a''), (''id'', VUuid 2)]" by code_simp
  then show ?thesis unfolding duplicated_def by (intro exI [of _ "VUuid 1"] exI [of _ "VUuid 2"]) simp
qed

lemma commit_may_duplicate:
  "duplicated (snd (mem_transaction sample_external empty_memory sample_work
     (snd (mem_create sample_external empty_memory sample_unique None (VUuid 2) [(''title'', VString ''a'')]))))"
proof -
  let ?m = "snd (mem_transaction sample_external empty_memory sample_work
     (snd (mem_create sample_external empty_memory sample_unique None (VUuid 2) [(''title'', VString ''a'')])))"
  have "stored_row (mem_store ?m) ''Post'' (VUuid 1) = Some [(''title'', VString ''a'')] \<and>
    stored_row (mem_store ?m) ''Post'' (VUuid 2) = Some [(''title'', VString ''a'')]" by code_simp
  then show ?thesis unfolding duplicated_def by (intro exI [of _ "VUuid 1"] exI [of _ "VUuid 2"]) simp
qed

section \<open>A write changes the row it names\<close>

text \<open>The rows of a store, as a map from a table's name and a key.\<close>

definition same_rows :: "memory \<Rightarrow> memory \<Rightarrow> bool" where
  "same_rows m m' \<longleftrightarrow> (\<forall>n k. stored_row (mem_store m') n k = stored_row (mem_store m) n k)"

definition one_row :: "memory \<Rightarrow> memory \<Rightarrow> string \<Rightarrow> Value \<Rightarrow> fields option \<Rightarrow> bool" where
  "one_row m m' name pk row \<longleftrightarrow> (\<forall>n k. stored_row (mem_store m') n k =
     (if n = name \<and> value_eq pk k then row else stored_row (mem_store m) n k))"

lemma stored_row_get: "fm_get tb name = Some t \<Longrightarrow> tb_get t pk = stored_row tb name pk"
  by (simp add: stored_row_def)

text \<open>
  C27: A create that fails changes no row. One that succeeds adds the record under a key no row
  had, the given one or, for a null integer key, one more than the largest, and changes no
  other row.
\<close>

theorem create_rows:
  "case mem_create x m r tenant pk fs of
     (Inl e, m') \<Rightarrow> same_rows m m'
   | (Inr stored, m') \<Rightarrow> (\<exists>k. assign_key x r (table_or_default (mem_store m) (table_key r tenant)) pk fs = Inr (k, stored) \<and>
       stored_row (mem_store m) (table_key r tenant) k = None \<and> one_row m m' (table_key r tenant) k (Some stored))"
  by (auto simp: mem_create_def with_write_def Let_def insert_row_def bindE_eq_Inr same_rows_def one_row_def
      stored_row_default tb_get_insert split: sum.split prod.split if_splits)

text \<open>
  C28: An update that fails changes no row. One that succeeds found the record within the tenant,
  sets the given fields over it, and changes no other row.
\<close>

theorem update_rows:
  "case mem_update x reg m r tenant pk fs of
     (Inl e, m') \<Rightarrow> same_rows m m'
   | (Inr row, m') \<Rightarrow> (\<exists>before. stored_row (mem_store m) (table_key r tenant) pk = Some before \<and>
       in_tenant x reg r tenant before \<and> row = fm_extend before fs \<and>
       one_row m m' (table_key r tenant) pk (Some row))"
  by (auto simp: mem_update_def with_write_def Let_def bindE_eq_Inr same_rows_def one_row_def tenant_row_Inr
      stored_row_get tb_get_insert split: sum.split prod.split option.split)

text \<open>
  C29: A destroy that fails changes no row. One that succeeds found the record within the tenant
  and removes it and no other.
\<close>

theorem destroy_rows:
  "case mem_destroy x reg m r tenant pk of
     (Inl e, m') \<Rightarrow> same_rows m m'
   | (Inr _, m') \<Rightarrow> (\<exists>before. stored_row (mem_store m) (table_key r tenant) pk = Some before \<and>
       in_tenant x reg r tenant before \<and> one_row m m' (table_key r tenant) pk None)"
  by (auto simp: mem_destroy_def with_write_def Let_def same_rows_def one_row_def tenant_row_Inr
      stored_row_get tb_get_remove split: sum.split prod.split option.split)

section \<open>A batch stops at the first record that fails\<close>

text \<open>
  C40: A batch that fails has stored the records before the one that failed, with its
  error, and none after it; outside a transaction they stay.
\<close>

theorem bulk_create_prefix:
  assumes "insert_rows x r t rows = (Inl e, t')"
  shows "\<exists>pre pk fs post stored. rows = pre @ (pk, fs) # post \<and>
    insert_rows x r t pre = (Inr stored, t') \<and> insert_row x r t' pk fs = Inl e"
  using assms
proof (induction rows arbitrary: t)
  case (Cons row rows)
  obtain pk fs where row: "row = (pk, fs)" by (cases row)
  show ?case
  proof (cases "insert_row x r t pk fs")
    case (Inl err)
    then have "insert_rows x r t [] = (Inr [], t')" "insert_row x r t' pk fs = Inl e"
      using Cons.prems by (auto simp: row)
    then show ?thesis by (metis row append_Nil)
  next
    case (Inr p)
    obtain s t1 where p: "p = (s, t1)" by (cases p)
    have "insert_rows x r t1 rows = (Inl e, t')"
      using Cons.prems Inr p by (auto simp: row split: prod.splits sum.splits)
    then obtain pre pk' fs' post stored where *: "rows = pre @ (pk', fs') # post"
      "insert_rows x r t1 pre = (Inr stored, t')" "insert_row x r t' pk' fs' = Inl e"
      using Cons.IH by blast
    then have "insert_rows x r t (row # pre) = (Inr (s # stored), t')" using Inr p by (simp add: row)
    then show ?thesis using * by (metis append_Cons)
  qed
qed simp

lemma bulk_create_prefix_witness:
  "\<exists>pre pk fs post stored. [(VUuid 1, [(''title'', VString ''a'')]), (VUuid 2, [(''title'', VString ''a'')])] =
     pre @ (pk, fs) # post \<and> insert_rows sample_external sample_unique [] pre =
       (Inr stored, [(VUuid 1, [(''title'', VString ''a'')])])"
proof -
  have "insert_rows sample_external sample_unique []
      [(VUuid 1, [(''title'', VString ''a'')]), (VUuid 2, [(''title'', VString ''a'')])] =
    (Inl (identity_conflict (identity_new ''title'' [''title''])), [(VUuid 1, [(''title'', VString ''a'')])])"
    by code_simp
  from bulk_create_prefix [OF this] show ?thesis by blast
qed

end
