(* ===== verification/AshMemoryQuery.thy ===== *)
theory AshMemoryQuery
  imports AshMemoryProps
begin

text \<open>
  What a query of the memory data layer gives: the table's rows that match, in the order of
  its sorts, paged. Where the values sorted by are ones their columns let in, the order is a
  total preorder and the sort commutes with the filter.
\<close>

section \<open>Sorts are comparators\<close>

lemma comparator_reverse:
  assumes "comparator c ok"
  shows "comparator (\<lambda>a b. ord_reverse (c a b)) ok"
proof
  fix a assume "ok a"
  then show "ord_reverse (c a a) = Equal" using comparator.cmp_refl [OF assms] by simp
next
  fix a b assume "ok a" "ok b"
  then show "ord_reverse (c b a) = ord_reverse (ord_reverse (c a b))"
    by (simp only: comparator.cmp_sym [OF assms, of a b])
next
  fix a b d
  assume ok: "ok a" "ok b" "ok d" and "ord_reverse (c a b) \<noteq> Greater" "ord_reverse (c b d) \<noteq> Greater"
  then have "c d b \<noteq> Greater" "c b a \<noteq> Greater"
    by (simp_all only: comparator.cmp_sym [OF assms, of a b] comparator.cmp_sym [OF assms, of b d] not_False_eq_True)
  then have "c d a \<noteq> Greater" by (rule comparator.cmp_le_trans [OF assms ok(3,2,1)])
  then show "ord_reverse (c a d) \<noteq> Greater"
    by (simp only: comparator.cmp_sym [OF assms, of d a] ok ord_reverse_reverse not_False_eq_True)
qed

lemma comparator_const: "comparator (\<lambda>a b. Equal) ok"
  by unfold_locales simp_all

definition null_rank :: "sort_def \<Rightarrow> Value \<Rightarrow> nat" where
  "null_rank s v = (if is_null v then if nulls_first s then 0 else 2 else 1)"

lemma null_rank_one: "null_rank s v = n \<Longrightarrow> n = 1 \<Longrightarrow> \<not> is_null v"
  by (cases "is_null v"; cases "nulls_first s") (simp_all add: null_rank_def)

lemma compare_sort_values_if:
  "compare_sort_values x r s l w =
    (if is_null l then if is_null w then Equal else if nulls_first s then Less else Greater
     else if is_null w then if nulls_first s then Greater else Less
     else if s_descending s then ord_reverse (compare_typed x (column_type r (s_field s)) l w)
     else compare_typed x (column_type r (s_field s)) l w)"
  by (simp add: compare_sort_values_def Let_def split: bool.split)

abbreviation sortable :: "external \<Rightarrow> resource_def \<Rightarrow> sort_def \<Rightarrow> Value \<Rightarrow> bool" where
  "sortable x r s \<equiv> typed_ok x (column_type r (s_field s))"

lemma comparator_sort_values: "comparator (compare_sort_values x r s) (sortable x r s)"
proof (rule comparator_same_rank [where r = "null_rank s"])
  fix a b assume "null_rank s a \<noteq> null_rank s b"
  then show "compare_sort_values x r s a b = lin_cmp (null_rank s a) (null_rank s b)"
    by (auto simp: null_rank_def compare_sort_values_if lin_cmp_def split: if_splits)
next
  fix n
  let ?ok = "\<lambda>v. sortable x r s v \<and> null_rank s v = n"
  show "comparator (compare_sort_values x r s) ?ok"
  proof (cases "n = 1")
    case True
    have "comparator (\<lambda>a b. if s_descending s then ord_reverse (compare_typed x (column_type r (s_field s)) a b)
        else compare_typed x (column_type r (s_field s)) a b) (sortable x r s)"
    proof (cases "s_descending s")
      case True
      then show ?thesis using comparator_reverse [OF comparator_typed [of x "column_type r (s_field s)"]] by simp
    next
      case False
      then show ?thesis using comparator_typed [of x "column_type r (s_field s)"] by simp
    qed
    then have "comparator (\<lambda>a b. if s_descending s then ord_reverse (compare_typed x (column_type r (s_field s)) a b)
        else compare_typed x (column_type r (s_field s)) a b) ?ok"
      by (rule comparator_weaken) simp
    then show ?thesis
    proof (rule comparator_cong)
      fix a b assume "sortable x r s a \<and> null_rank s a = n" "sortable x r s b \<and> null_rank s b = n"
      then have "\<not> is_null a" "\<not> is_null b" using True null_rank_one by blast+
      then show "compare_sort_values x r s a b =
          (if s_descending s then ord_reverse (compare_typed x (column_type r (s_field s)) a b)
           else compare_typed x (column_type r (s_field s)) a b)"
        by (simp add: compare_sort_values_if)
    qed
  next
    case False
    show ?thesis
      by (rule comparator_cong [OF comparator_const])
        (use False in \<open>simp add: compare_sort_values_if null_rank_def split: if_splits\<close>)
  qed
qed

definition row_sortable ::
    "external \<Rightarrow> resource_def \<Rightarrow> (sort_def \<Rightarrow> fields \<Rightarrow> Value) \<Rightarrow> sort_def list \<Rightarrow> fields \<Rightarrow> bool" where
  "row_sortable x r val ss row \<longleftrightarrow> (\<forall>s \<in> set ss. sortable x r s (val s row))"

lemma comparator_rows: "comparator (compare_rows x r val ss) (row_sortable x r val ss)"
proof (induction ss)
  case Nil
  have "compare_rows x r val [] = (\<lambda>a b. Equal)" by (intro ext) simp
  then show ?case by (simp add: comparator_const)
next
  case (Cons s ss)
  have e: "compare_rows x r val (s # ss) =
      (\<lambda>a b. ord_then (compare_sort_values x r s (val s a) (val s b)) (compare_rows x r val ss a b))"
    by (intro ext) simp
  show ?case unfolding e
  proof (rule comparator_then)
    show "comparator (\<lambda>a b. compare_sort_values x r s (val s a) (val s b)) (row_sortable x r val (s # ss))"
      by (rule comparator_weaken [OF comparator_on_key [OF comparator_sort_values]]) (simp add: row_sortable_def)
    show "comparator (compare_rows x r val ss) (row_sortable x r val (s # ss))"
      by (rule comparator_weaken [OF Cons]) (simp add: row_sortable_def)
  qed
qed

text \<open>The order of a query's rows.\<close>

interpretation row_order: comparator "compare_rows x r val ss" "row_sortable x r val ss" for x r val ss
  by (rule comparator_rows)

context comparator
begin

lemma filter_insort:
  assumes "ok a" "\<forall>y \<in> set ys. ok y" "sorted_wrt (\<lambda>a b. cmp a b \<noteq> Greater) ys"
  shows "filter P (insort_by cmp a ys) = (if P a then insort_by cmp a (filter P ys) else filter P ys)"
  using assms
proof (induction ys)
  case (Cons y ys)
  show ?case
  proof (cases "cmp a y = Greater")
    case True
    then show ?thesis using Cons by auto
  next
    case False
    have le: "cmp a z \<noteq> Greater" if "z \<in> set (y # ys)" for z
      using that False Cons.prems cmp_le_trans [of a y z] by auto
    have "insort_by cmp a zs = a # zs" if "\<forall>z \<in> set zs. cmp a z \<noteq> Greater" for zs
      using that by (cases zs) auto
    then have "insort_by cmp a (filter P (y # ys)) = a # filter P (y # ys)" using le by simp
    then show ?thesis using False by simp
  qed
qed simp

lemma filter_sort: "\<forall>y \<in> set ys. ok y \<Longrightarrow> filter P (sort_by cmp ys) = sort_by cmp (filter P ys)"
  by (induction ys) (simp_all add: filter_insort sorted_sort)

lemma sort_sorted: "sorted_wrt (\<lambda>a b. cmp a b \<noteq> Greater) xs \<Longrightarrow> sort_by cmp xs = xs"
proof (induction xs)
  case (Cons a xs)
  then show ?case by (cases xs) simp_all
qed simp

lemma strict_unique:
  assumes "\<forall>y \<in> set xs. ok y" "sorted_wrt (\<lambda>a b. cmp a b \<noteq> Greater) xs" "sorted_wrt (\<lambda>a b. cmp a b = Less) ys"
    and "mset xs = mset ys"
  shows "xs = ys"
  using assms
proof (induction xs arbitrary: ys)
  case (Cons a xs)
  then obtain b ys' where ys: "ys = b # ys'" by (cases ys) auto
  have sets: "set (a # xs) = set ys" using Cons.prems(4) by (rule mset_eq_setD)
  have "a = b"
  proof (rule ccontr)
    assume ne: "a \<noteq> b"
    then have "a \<in> set ys'" "b \<in> set xs" using sets ys by auto
    then have "cmp b a = Less" "cmp a b \<noteq> Greater" using Cons.prems(2,3) ys by auto
    then show False using cmp_less_greater [of b a] Cons.prems(1) \<open>b \<in> set xs\<close> by auto
  qed
  moreover have "xs = ys'" by (rule Cons.IH) (use Cons.prems ys \<open>a = b\<close> in auto)
  ultimately show ?case by (simp add: ys)
qed simp

lemma sort_strict:
  assumes "\<forall>y \<in> set ys. ok y" "sorted_wrt (\<lambda>a b. cmp a b = Less) ys" "mset xs = mset ys"
  shows "sort_by cmp xs = ys"
proof (rule strict_unique [OF _ _ assms(2)])
  have "set xs = set ys" using assms(3) by (rule mset_eq_setD)
  then show "\<forall>y \<in> set (sort_by cmp xs). ok y" "sorted_wrt (\<lambda>a b. cmp a b \<noteq> Greater) (sort_by cmp xs)"
    using assms(1) by (auto intro: sorted_sort)
qed (simp add: assms(3))

text \<open>What comes after an element of a strictly sorted list is what's greater.\<close>

lemma filter_after:
  assumes "\<forall>y \<in> set ys. ok y" "sorted_wrt (\<lambda>a b. cmp a b = Less) ys" "i < length ys"
  shows "filter (\<lambda>b. cmp (ys ! i) b = Less) ys = drop (Suc i) ys"
    and "filter (\<lambda>b. cmp (ys ! i) b = Greater) ys = take i ys"
proof -
  let ?a = "ys ! i"
  have split: "ys = take i ys @ ?a # drop (Suc i) ys" using assms(3) by (rule id_take_nth_drop)
  have sorted: "sorted_wrt (\<lambda>a b. cmp a b = Less) (take i ys @ ?a # drop (Suc i) ys)" using assms(2) split by simp
  have a: "ok ?a" using assms by simp
  have before: "cmp ?a b = Greater" if "b \<in> set (take i ys)" for b
  proof -
    have "cmp b ?a = Less" using sorted that by (simp add: sorted_wrt_append)
    moreover have "ok b" using assms(1) that by (blast dest: in_set_takeD)
    ultimately show ?thesis using cmp_less_greater [of b ?a] a by simp
  qed
  have after: "cmp ?a b = Less" if "b \<in> set (drop (Suc i) ys)" for b
    using sorted that by (simp add: sorted_wrt_append)
  have self: "cmp ?a ?a = Equal" using a by (rule cmp_refl)
  have "filter (\<lambda>b. cmp ?a b = Less) (take i ys @ ?a # drop (Suc i) ys) = drop (Suc i) ys"
    using before after self by (auto simp: filter_empty_conv filter_id_conv)
  then show "filter (\<lambda>b. cmp ?a b = Less) ys = drop (Suc i) ys" using split by simp
  have "filter (\<lambda>b. cmp ?a b = Greater) (take i ys @ ?a # drop (Suc i) ys) = take i ys"
    using before after self by (auto simp: filter_empty_conv filter_id_conv)
  then show "filter (\<lambda>b. cmp ?a b = Greater) ys = take i ys" using split by simp
qed

end

section \<open>A query of attributes\<close>

text \<open>A query that neither loads, filters nor sorts by a calculation or an aggregate.\<close>

definition plain_query :: "resource_def \<Rightarrow> compiled_query \<Rightarrow> bool" where
  "plain_query r q \<longleftrightarrow>
     (\<forall>n \<in> set (filter_fields (q_filter q) @ map s_field (q_sort q) @ q_calculations q @ q_aggregates q).
        calculation r n = None \<and> aggregate_of r n = None)"

lemma compute_nothing:
  assumes "\<forall>n \<in> set names. calculation r n = None \<and> aggregate_of r n = None"
  shows "compute x reg tb tenant r q names (rows, computed) = Inr (rows, computed)"
proof -
  have "sorted_names (\<lambda>n. calculation r n \<noteq> None \<and> n \<notin> set computed) names = []"
    "sorted_names (\<lambda>n. aggregate_of r n \<noteq> None \<and> n \<notin> set computed) names = []"
    using assms by (auto simp: sorted_names_def filter_empty_conv)
  moreover have "mapE Inr rows = (Inr rows :: fields list res)" by (induction rows) simp_all
  ultimately show ?thesis by (simp add: compute_def)
qed

text \<open>The rows a query finds, in its order, before they're paged.\<close>

definition found_rows ::
    "external \<Rightarrow> registry \<Rightarrow> mem_tables \<Rightarrow> resource_def \<Rightarrow> compiled_query \<Rightarrow> fields list" where
  "found_rows x reg tb r q =
     sort_by (compare_rows x r (sort_value x reg tb (q_tenant q) r) (q_sort q))
       (keep_matching x reg tb (q_tenant q) r (q_filter q) (tb_rows (table_or_default tb (table_key r (q_tenant q)))))"

lemma sort_by_Equal: "sort_by (\<lambda>a b. Equal) xs = xs"
proof (induction xs)
  case (Cons a xs)
  then show ?case by (cases xs) simp_all
qed simp

lemma query_plain:
  assumes "plain_query r q"
  shows "query_tables x reg tb r q = Inr (map (select_fields r q) (page_rows (q_limit q) (q_offset q) (found_rows x reg tb r q)))"
proof -
  have c: "compute x reg tb (q_tenant q) r q (filter_fields (q_filter q)) (rows, cs) = Inr (rows, cs)"
    "compute x reg tb (q_tenant q) r q (map s_field (q_sort q)) (rows, cs) = Inr (rows, cs)"
    "compute x reg tb (q_tenant q) r q (q_calculations q @ q_aggregates q) (rows, cs) = Inr (rows, cs)" for rows cs
    by (rule compute_nothing, use assms in \<open>auto simp: plain_query_def\<close>)+
  have "compare_rows x r val [] = (\<lambda>a b. Equal)" for val by (intro ext) simp
  then have s: "q_sort q = [] \<Longrightarrow> found_rows x reg tb r q =
      keep_matching x reg tb (q_tenant q) r (q_filter q) (tb_rows (table_or_default tb (table_key r (q_tenant q))))"
    by (simp add: found_rows_def sort_by_Equal)
  show ?thesis
  proof (cases "q_sort q = []")
    case True
    then show ?thesis using c by (simp add: query_tables_def Let_def s)
  next
    case False
    then show ?thesis using c by (simp add: query_tables_def Let_def found_rows_def)
  qed
qed

end
