(* ===== verification/AshPagination.thy ===== *)
theory AshPagination
  imports AshMemoryQuery
begin

text \<open>
  Keyset pages, as \<open>crates/ash-core/src/engine/pagination.rs\<close> has them: the cursor and
  its text, the stable sort of a page, and the filter for the records after or before a
  cursor. Over the memory data layer, that filter selects exactly the rows the sort puts past
  the cursor, so pages read one after another are the sorted rows, none twice and none
  skipped. \<open>serde_json\<close> and base64 are parameters of the cursor's text.
\<close>

section \<open>Cursors\<close>

record keyset_cursor =
  kc_id :: Value
  kc_values :: "(string \<times> Value) list"

record cursor_format =
  cf_json :: "keyset_cursor \<Rightarrow> string"
  cf_of_json :: "string \<Rightarrow> keyset_cursor option"
  cf_base64 :: "string \<Rightarrow> string"
  cf_of_base64 :: "string \<Rightarrow> string option"

definition cursor_encode :: "cursor_format \<Rightarrow> keyset_cursor \<Rightarrow> string" where
  "cursor_encode fmt c = cf_base64 fmt (cf_json fmt c)"

definition cursor_decode :: "external \<Rightarrow> cursor_format \<Rightarrow> string \<Rightarrow> keyset_cursor option" where
  "cursor_decode x fmt s =
     (case Option.bind (cf_of_base64 fmt s) (cf_of_json fmt) of
        Some c \<Rightarrow> Some c
      | None \<Rightarrow>
          (case cf_of_json fmt s of
             Some c \<Rightarrow> Some c
           | None \<Rightarrow> map_option (\<lambda>u. \<lparr>kc_id = VUuid u, kc_values = []\<rparr>) (x_uuid_parse x s)))"

section \<open>The sort and the filter\<close>

definition sorted_on :: "sort_def list \<Rightarrow> string list \<Rightarrow> bool" where
  "sorted_on sorts keys \<longleftrightarrow> list_all (\<lambda>key. list_ex (\<lambda>s. s_field s = key) sorts) keys"

definition keyset_sort :: "resource_def \<Rightarrow> sort_def list \<Rightarrow> sort_def list" where
  "keyset_sort r sorts =
     (let pk = map a_name (filter a_primary_key (r_attributes r))
      in if sorted_on sorts pk \<or> list_ex (\<lambda>i. sorted_on sorts (i_keys i)) (r_identities r) then sorts
         else sorts @ map (\<lambda>key. sort_on key False) pk)"

definition sort_nullable :: "resource_def \<Rightarrow> sort_def \<Rightarrow> bool" where
  "sort_nullable r s \<longleftrightarrow> s_guard s \<noteq> None \<or>
     (case attribute r (s_field s) of None \<Rightarrow> True | Some a \<Rightarrow> a_allow_nil a)"

definition sort_guarded :: "sort_def \<Rightarrow> Filter \<Rightarrow> Filter" where
  "sort_guarded s f = (case s_guard s of Some g \<Rightarrow> filter_and [g, f] | None \<Rightarrow> f)"

definition sort_is_nil :: "sort_def \<Rightarrow> Filter" where
  "sort_is_nil s =
     (case s_guard s of
        Some g \<Rightarrow> filter_or [filter_not g, FIsNil (s_field s)]
      | None \<Rightarrow> FIsNil (s_field s))"

text \<open>The records past the cursor by this sort, and those that tie with it.\<close>

definition keyset_beyond :: "resource_def \<Rightarrow> sort_def \<Rightarrow> Value \<Rightarrow> bool \<Rightarrow> Filter" where
  "keyset_beyond r s v is_after =
     (let growing = (is_after \<noteq> s_descending s); nulls_ahead = (is_after \<noteq> nulls_first s)
      in if is_null v then if nulls_ahead then FFalse else filter_not (sort_is_nil s)
         else let past = sort_guarded s (if growing then FGt (s_field s) v else FLt (s_field s) v)
              in if nulls_ahead \<and> sort_nullable r s then filter_or [past, sort_is_nil s] else past)"

definition keyset_tied :: "sort_def \<Rightarrow> Value \<Rightarrow> Filter" where
  "keyset_tied s v = (if is_null v then sort_is_nil s else sort_guarded s (FEq (s_field s) v))"

fun build_keyset_filter :: "resource_def \<Rightarrow> sort_def list \<Rightarrow> Value list \<Rightarrow> bool \<Rightarrow> Filter option" where
  "build_keyset_filter r (s # ss) (v # vs) is_after = Some
     (case build_keyset_filter r ss vs is_after of
        None \<Rightarrow> keyset_beyond r s v is_after
      | Some rest \<Rightarrow> filter_or [keyset_beyond r s v is_after, filter_and [keyset_tied s v, rest]])"
| "build_keyset_filter r _ _ is_after = None"

definition keyset_values :: "resource_def \<Rightarrow> keyset_cursor \<Rightarrow> sort_def list \<Rightarrow> Value list" where
  "keyset_values r c sorts =
     map (\<lambda>s. case List.find (\<lambda>e. fst e = s_field s) (kc_values c) of
                Some e \<Rightarrow> snd e
              | None \<Rightarrow> if Some (s_field s) = map_option a_name (primary_key r) then kc_id c else VNull) sorts"

definition cursor_for_record :: "Value \<Rightarrow> fields \<Rightarrow> sort_def list \<Rightarrow> keyset_cursor" where
  "cursor_for_record pk fs sorts =
     \<lparr>kc_id = pk, kc_values = map (\<lambda>s. (s_field s, or_null (fm_get fs (s_field s)))) sorts\<rparr>"

record 'r page =
  page_results :: "'r list"
  page_has_more :: bool
  page_limit :: nat
  page_offset_of :: "nat option"
  page_total_count :: "nat option"
  page_after :: "string option"
  page_before :: "string option"

section \<open>The filter selects what the sort puts past the cursor\<close>

interpretation store_meaning: filter_meaning "\<lambda>f. mem_eval x reg tb tenant r f row scope" for x reg tb tenant r row scope
  by unfold_locales simp_all

text \<open>How the sort compares two keysets.\<close>

fun compare_keys :: "external \<Rightarrow> resource_def \<Rightarrow> sort_def list \<Rightarrow> Value list \<Rightarrow> Value list \<Rightarrow> ordering" where
  "compare_keys x r (s # ss) (v # vs) (w # ws) =
     ord_then (compare_sort_values x r s v w) (compare_keys x r ss vs ws)"
| "compare_keys x r _ _ _ = Equal"

lemma compare_rows_keys:
  "compare_rows x r val ss a b = compare_keys x r ss (map (\<lambda>s. val s a) ss) (map (\<lambda>s. val s b) ss)"
  by (induction ss) auto

text \<open>
  What the filter relies on of a row: a guard of a sort is known on it, and an attribute that
  may not be nil isn't.
\<close>

definition sort_known ::
    "external \<Rightarrow> registry \<Rightarrow> mem_tables \<Rightarrow> string option \<Rightarrow> resource_def \<Rightarrow> sort_def \<Rightarrow> fields \<Rightarrow> bool" where
  "sort_known x reg tb tenant r s row \<longleftrightarrow>
     (\<forall>g. s_guard s = Some g \<longrightarrow> mem_eval x reg tb tenant r g row [] \<noteq> None) \<and>
     (\<not> sort_nullable r s \<longrightarrow> present row (s_field s) \<noteq> None)"

lemma any_of_two: "any_of [a, b] = Some True \<longleftrightarrow> a = Some True \<or> b = Some True"
  by (auto simp: any_of_eq)

lemma all_of_two: "all_of [a, b] = Some True \<longleftrightarrow> a = Some True \<and> b = Some True"
  by (auto simp: all_of_True)

lemma or_null_present: "or_null (fm_get row f) = (case present row f of Some v \<Rightarrow> v | None \<Rightarrow> VNull)"
  by (auto simp: present_def or_null_def split: option.split Value.split)

lemma present_not_null: "present row f = Some v \<Longrightarrow> \<not> is_null v"
  by (auto simp: present_iff is_null_def)

lemma sort_value_eq:
  "sort_value x reg tb tenant r s row =
    (if s_guard s = None \<or> mem_eval x reg tb tenant r (the (s_guard s)) row [] = Some True
     then or_null (fm_get row (s_field s)) else VNull)"
  by (auto simp: sort_value_def row_matches_filter_def split: option.split)

lemma is_nil_eval:
  assumes "sort_known x reg tb tenant r s row"
  shows "mem_eval x reg tb tenant r (sort_is_nil s) row [] = Some (is_null (sort_value x reg tb tenant r s row))"
proof -
  have n: "is_null (or_null (fm_get row (s_field s))) \<longleftrightarrow> present row (s_field s) = None"
    unfolding or_null_present using present_not_null [of row "s_field s"] by (auto simp: is_null_def split: option.split)
  show ?thesis
  proof (cases "s_guard s")
    case None
    then show ?thesis by (simp add: sort_is_nil_def sort_value_eq n)
  next
    case (Some g)
    then obtain b where "mem_eval x reg tb tenant r g row [] = Some b"
      using assms by (auto simp: sort_known_def)
    then show ?thesis using Some n
      by (cases b) (auto simp: sort_is_nil_def sort_value_eq store_meaning.ev_filter_or store_meaning.ev_filter_not
          any_of_eq is_null_def)
  qed
qed

text \<open>A comparison holds on a guarded field where the guard does and the value compares so.\<close>

lemma guarded_eval:
  assumes "mem_eval x reg tb tenant r f row [] = Some True \<longleftrightarrow> (\<exists>v. present row (s_field s) = Some v \<and> P v)"
    and "\<not> P VNull"
  shows "mem_eval x reg tb tenant r (sort_guarded s f) row [] = Some True \<longleftrightarrow>
    \<not> is_null (sort_value x reg tb tenant r s row) \<and> P (sort_value x reg tb tenant r s row)"
proof -
  have "mem_eval x reg tb tenant r f row [] = Some True \<longleftrightarrow>
      \<not> is_null (or_null (fm_get row (s_field s))) \<and> P (or_null (fm_get row (s_field s)))"
    unfolding assms(1) or_null_present using present_not_null [of row "s_field s"]
    by (auto simp: is_null_def split: option.split)
  then show ?thesis using assms(2)
    by (auto simp: sort_guarded_def sort_value_eq store_meaning.ev_filter_and all_of_two is_null_def split: option.split)
qed

lemma compare_hits:
  "\<not> is_null v \<Longrightarrow> d \<noteq> Equal \<Longrightarrow> mem_compare x ty (fm_get row f) v d False = Some True \<longleftrightarrow>
   (\<exists>u. present row f = Some u \<and> \<not> is_null u \<and> compare_typed x ty u v = d)"
  using present_not_null [of row f]
  by (auto simp: mem_compare_def present_def non_null_def split: option.splits ordering.splits Value.splits)

lemma past_eval:
  assumes "\<not> is_null v"
  shows "mem_eval x reg tb tenant r (sort_guarded s (if up then FGt (s_field s) v else FLt (s_field s) v)) row [] =
      Some True \<longleftrightarrow>
    \<not> is_null (sort_value x reg tb tenant r s row) \<and>
    compare_typed x (column_type r (s_field s)) (sort_value x reg tb tenant r s row) v = (if up then Greater else Less)"
proof -
  let ?P = "\<lambda>u. \<not> is_null u \<and> compare_typed x (column_type r (s_field s)) u v = (if up then Greater else Less)"
  have "mem_eval x reg tb tenant r (if up then FGt (s_field s) v else FLt (s_field s) v) row [] = Some True \<longleftrightarrow>
      (\<exists>u. present row (s_field s) = Some u \<and> ?P u)"
    using compare_hits [OF assms] by simp
  then show ?thesis using guarded_eval [where P = ?P] by (simp add: is_null_def)
qed

lemma tied_eval:
  assumes "sort_known x reg tb tenant r s row"
  shows "mem_eval x reg tb tenant r (keyset_tied s v) row [] = Some True \<longleftrightarrow>
    compare_sort_values x r s v (sort_value x reg tb tenant r s row) = Equal"
proof (cases "is_null v")
  case True
  then show ?thesis using is_nil_eval [OF assms]
    by (cases "is_null (sort_value x reg tb tenant r s row)") (simp_all add: keyset_tied_def compare_sort_values_if)
next
  case False
  let ?P = "\<lambda>u. \<not> is_null u \<and> compare_typed x (column_type r (s_field s)) u v = Equal"
  have "mem_eval x reg tb tenant r (FEq (s_field s) v) row [] = Some True \<longleftrightarrow>
      (\<exists>u. present row (s_field s) = Some u \<and> ?P u)"
    using False present_not_null [of row "s_field s"] by (auto simp: same_value_def)
  then have "mem_eval x reg tb tenant r (sort_guarded s (FEq (s_field s) v)) row [] = Some True \<longleftrightarrow>
      ?P (sort_value x reg tb tenant r s row)"
    using guarded_eval [where P = ?P] by (simp add: is_null_def)
  moreover have "compare_typed x ty v w = Equal \<longleftrightarrow> compare_typed x ty w v = Equal" for ty w
    using compare_typed_sym [of x ty v w] by auto
  ultimately show ?thesis using False
    by (auto simp: keyset_tied_def compare_sort_values_if)
qed

lemma beyond_eval:
  assumes "sort_known x reg tb tenant r s row"
  shows "mem_eval x reg tb tenant r (keyset_beyond r s v is_after) row [] = Some True \<longleftrightarrow>
    compare_sort_values x r s v (sort_value x reg tb tenant r s row) = (if is_after then Less else Greater)"
proof -
  let ?w = "sort_value x reg tb tenant r s row"
  note nil = is_nil_eval [OF assms]
  have never: "\<not> is_null ?w" if "\<not> sort_nullable r s"
  proof -
    have "present row (s_field s) \<noteq> None" "s_guard s = None"
      using that assms by (auto simp: sort_known_def sort_nullable_def)
    then show ?thesis unfolding sort_value_eq or_null_present using present_not_null [of row "s_field s"] by auto
  qed
  have sym: "compare_typed x ty v w = ord_reverse (compare_typed x ty w v)" for ty w
    by (rule compare_typed_sym)
  show ?thesis
  proof (cases "is_null v")
    case True
    then show ?thesis using nil
      by (cases is_after; cases "nulls_first s")
        (auto simp: keyset_beyond_def compare_sort_values_if store_meaning.ev_filter_not)
  next
    case False
    show ?thesis
    proof (cases "is_null ?w")
      case True
      then show ?thesis using False nil never past_eval [OF False]
        by (cases is_after; cases "nulls_first s")
          (auto simp: keyset_beyond_def compare_sort_values_if Let_def store_meaning.ev_filter_or any_of_two)
    next
      case w: False
      let ?past = "mem_eval x reg tb tenant r (sort_guarded s
          (if is_after \<noteq> s_descending s then FGt (s_field s) v else FLt (s_field s) v)) row []"
      have "mem_eval x reg tb tenant r (keyset_beyond r s v is_after) row [] = Some True \<longleftrightarrow> ?past = Some True"
        using False nil w by (simp add: keyset_beyond_def Let_def store_meaning.ev_filter_or any_of_two)
      also have "\<dots> \<longleftrightarrow> compare_typed x (column_type r (s_field s)) ?w v = (if is_after \<noteq> s_descending s then Greater else Less)"
        unfolding past_eval [OF False] using w by simp
      finally show ?thesis using False w sym
        by (cases is_after; cases "s_descending s")
          (auto simp: compare_sort_values_if ord_reverse_eq)
    qed
  qed
qed

lemma keyset_filter_key:
  assumes "sorts \<noteq> []" "length values = length sorts"
    and "\<forall>s \<in> set sorts. sort_known x reg tb tenant r s row"
  shows "\<exists>f. build_keyset_filter r sorts values is_after = Some f \<and>
    (row_matches_filter x reg tb tenant r f row \<longleftrightarrow>
      compare_keys x r sorts values (map (\<lambda>s. sort_value x reg tb tenant r s row) sorts) =
        (if is_after then Less else Greater))"
  using assms
proof (induction sorts arbitrary: "values")
  case (Cons s ss)
  obtain v vs where vals: "values = v # vs" "length vs = length ss" using Cons.prems(2) by (cases "values") auto
  have known: "sort_known x reg tb tenant r s row" using Cons.prems(3) by simp
  note b = beyond_eval [OF known, of v is_after] and t = tied_eval [OF known, of v]
  show ?case
  proof (cases "ss = []")
    case True
    then show ?thesis using b vals by (auto simp: row_matches_filter_def)
  next
    case False
    then obtain f where f: "build_keyset_filter r ss vs is_after = Some f"
      "row_matches_filter x reg tb tenant r f row \<longleftrightarrow>
        compare_keys x r ss vs (map (\<lambda>s. sort_value x reg tb tenant r s row) ss) = (if is_after then Less else Greater)"
      using Cons.IH [of vs] Cons.prems(3) vals by auto
    then show ?thesis using b t vals
      by (cases "compare_sort_values x r s v (sort_value x reg tb tenant r s row)"; cases is_after)
        (auto simp: row_matches_filter_def store_meaning.ev_filter_or store_meaning.ev_filter_and any_of_two all_of_two)
  qed
qed simp



section \<open>Pages read on from a record\<close>

lemma cursor_values:
  "keyset_values r (cursor_for_record pk row sorts) sorts = map (\<lambda>s. or_null (fm_get row (s_field s))) sorts"
proof -
  have "List.find (\<lambda>e. fst e = s_field s) (map (\<lambda>s. (s_field s, or_null (fm_get row (s_field s)))) ss) =
      Some (s_field s, or_null (fm_get row (s_field s)))" if "s \<in> set ss" for s ss
    using that by (induction ss) auto
  note found = this [of _ sorts]
  show ?thesis
    unfolding keyset_values_def cursor_for_record_def keyset_cursor.simps
    by (rule map_cong [OF refl]) (simp add: found)
qed

lemma collect_and_parts:
  "and_parts parts out = Some o' \<Longrightarrow> p \<in> set o' \<Longrightarrow> n \<in> set (collect_fields p) \<Longrightarrow>
   \<exists>q \<in> set (out @ parts). n \<in> set (collect_fields q)"
proof (induction parts arbitrary: out)
  case (Cons part parts)
  then show ?case by (cases part) (fastforce split: if_splits)+
qed auto

lemma collect_or_parts:
  "or_parts parts out = Some o' \<Longrightarrow> p \<in> set o' \<Longrightarrow> n \<in> set (collect_fields p) \<Longrightarrow>
   \<exists>q \<in> set (out @ parts). n \<in> set (collect_fields q)"
proof (induction parts arbitrary: out)
  case (Cons part parts)
  then show ?case by (cases part) (fastforce split: if_splits)+
qed auto

lemma collect_filter_and:
  assumes "n \<in> set (collect_fields (filter_and parts))"
  shows "\<exists>q \<in> set parts. n \<in> set (collect_fields q)"
proof -
  have "\<exists>out. and_parts parts [] = Some out \<and> (\<exists>p \<in> set out. n \<in> set (collect_fields p))"
    using assms by (auto simp: filter_and_def split: option.splits list.splits)
  then show ?thesis using collect_and_parts [of parts "[]"] by fastforce
qed

lemma collect_filter_or:
  assumes "n \<in> set (collect_fields (filter_or parts))"
  shows "\<exists>q \<in> set parts. n \<in> set (collect_fields q)"
proof -
  have "\<exists>out. or_parts parts [] = Some out \<and> (\<exists>p \<in> set out. n \<in> set (collect_fields p))"
    using assms by (auto simp: filter_or_def split: option.splits list.splits)
  then show ?thesis using collect_or_parts [of parts "[]"] by fastforce
qed

lemma keyset_step_fields:
  assumes "s_guard s = None"
  shows "set (collect_fields (keyset_tied s v)) \<subseteq> {s_field s}"
    and "set (collect_fields (keyset_beyond r s v is_after)) \<subseteq> {s_field s}"
proof -
  have n: "collect_fields (sort_is_nil s) = [s_field s]" using assms by (simp add: sort_is_nil_def)
  have g: "sort_guarded s f = f" for f using assms by (simp add: sort_guarded_def)
  show "set (collect_fields (keyset_tied s v)) \<subseteq> {s_field s}" by (simp add: keyset_tied_def n g)
  have "filter_not (sort_is_nil s) = FNot (FIsNil (s_field s))" using assms by (simp add: sort_is_nil_def)
  then show "set (collect_fields (keyset_beyond r s v is_after)) \<subseteq> {s_field s}"
    by (auto simp: keyset_beyond_def g n Let_def dest!: collect_filter_or split: if_splits)
qed

lemma keyset_fields:
  assumes "\<forall>s \<in> set sorts. s_guard s = None" "build_keyset_filter r sorts values is_after = Some f"
  shows "set (collect_fields f) \<subseteq> s_field ` set sorts"
  using assms
proof (induction r sorts "values" is_after arbitrary: f rule: build_keyset_filter.induct)
  case (1 r s ss v vs is_after)
  have g: "s_guard s = None" using 1(2) by simp
  note steps = keyset_step_fields [OF g]
  show ?case
  proof (cases "build_keyset_filter r ss vs is_after")
    case None
    then show ?thesis using 1(3) steps(2) by fastforce
  next
    case (Some rest)
    have rest: "set (collect_fields rest) \<subseteq> s_field ` set ss" using 1(1) [OF _ Some] 1(2) by simp
    have f: "f = filter_or [keyset_beyond r s v is_after, filter_and [keyset_tied s v, rest]]"
      using 1(3) Some by simp
    have "n \<in> insert (s_field s) (s_field ` set ss)" if "n \<in> set (collect_fields f)" for n
      using collect_filter_or [OF that [unfolded f]] steps rest
      by (fastforce dest: collect_filter_and)
    then show ?thesis by auto
  qed
qed simp_all

text \<open>
  The page a keyset query reads: its filter and the keyset's, in its sort, or the reverse of
  it when it reads back, at most \<open>n\<close> rows.
\<close>

definition keyset_page_query :: "compiled_query \<Rightarrow> Filter \<Rightarrow> bool \<Rightarrow> nat \<Rightarrow> compiled_query" where
  "keyset_page_query q f is_after n =
     q\<lparr>q_filter := and_filters (q_filter q) (Some f),
       q_sort := (if is_after then q_sort q else map sort_reversed (q_sort q)),
       q_limit := Some n, q_offset := None\<rparr>"

text \<open>
  The rows a page is read from: rows no two of which tie in the query's sorts, whose sorted
  columns hold values those columns let in.
\<close>

definition keyset_rows ::
    "external \<Rightarrow> registry \<Rightarrow> mem_tables \<Rightarrow> resource_def \<Rightarrow> compiled_query \<Rightarrow> bool" where
  "keyset_rows x reg tb r q \<longleftrightarrow>
     (let val = sort_value x reg tb (q_tenant q) r; rows = found_rows x reg tb r q
      in q_sort q \<noteq> [] \<and> list_all (\<lambda>s. s_guard s = None) (q_sort q) \<and>
         list_all (\<lambda>row. list_all (\<lambda>s. sortable x r s (val s row) \<and>
           (sort_nullable r s \<or> present row (s_field s) \<noteq> None)) (q_sort q)) rows \<and>
         sorted_wrt (\<lambda>a b. compare_rows x r val (q_sort q) a b = Less) rows)"

lemma sort_value_reversed [simp]: "sort_value x reg tb tenant r (sort_reversed s) row = sort_value x reg tb tenant r s row"
  by (simp add: sort_value_def sort_reversed_def)

lemma s_field_reversed [simp]: "s_field (sort_reversed s) = s_field s"
  by (simp add: sort_reversed_def)

lemma compare_sort_values_reversed [simp]:
  "compare_sort_values x r (sort_reversed s) a b = ord_reverse (compare_sort_values x r s a b)"
  by (simp add: compare_sort_values_if) (simp add: sort_reversed_def)

lemma compare_rows_reversed:
  "compare_rows x r (sort_value x reg tb tenant r) (map sort_reversed ss) a b =
   ord_reverse (compare_rows x r (sort_value x reg tb tenant r) ss a b)"
  by (induction ss) (simp_all add: ord_reverse_then)

lemma select_fields_page [simp]: "select_fields r (keyset_page_query q f is_after n) = select_fields r q"
proof
  fix row
  let ?p = "keyset_page_query q f is_after n"
  have f: "q_select ?p = q_select q" "q_calculations ?p = q_calculations q" "q_aggregates ?p = q_aggregates q"
    by (simp_all add: keyset_page_query_def)
  have reads: "query_reads ?p = query_reads q"
    by (intro ext) (simp add: query_reads_def custom_calculations_def f)
  show "select_fields r ?p row = select_fields r q row"
    unfolding select_fields_def strip_unrequested_calculations_def strip_unrequested_aggregates_def f reads ..
qed

lemma keep_matching_and:
  "keep_matching x reg tb tenant r (and_filters f (Some g)) rows =
   filter (row_matches_filter x reg tb tenant r g) (keep_matching x reg tb tenant r f rows)"
  by (cases f) (auto simp: keep_matching_def row_matches_filter_def store_meaning.ev_filter_and all_of_two
      intro!: filter_cong)

lemma keyset_page_key:
  assumes q: "plain_query r q" "keyset_rows x reg tb r q"
    and rows: "rows = found_rows x reg tb r q" "i < length rows"
    and f: "build_keyset_filter r (q_sort q)
      (keyset_values r (cursor_for_record pk (rows ! i) (q_sort q)) (q_sort q)) is_after = Some f"
  shows "query_tables x reg tb r (keyset_page_query q f is_after n) =
    Inr (map (select_fields r q) (take n (if is_after then drop (Suc i) rows else rev (take i rows))))"
proof -
  let ?ss = "q_sort q" and ?val = "sort_value x reg tb (q_tenant q) r" and ?p = "keyset_page_query q f is_after n"
  let ?cmp = "compare_rows x r ?val ?ss" and ?a = "rows ! i"
  let ?base = "keep_matching x reg tb (q_tenant q) r (q_filter q) (tb_rows (table_or_default tb (table_key r (q_tenant q))))"
  let ?hit = "row_matches_filter x reg tb (q_tenant q) r f"
  have k: "?ss \<noteq> []" "\<forall>s \<in> set ?ss. s_guard s = None"
    "\<forall>row \<in> set rows. row_sortable x r ?val ?ss row"
    "\<forall>row \<in> set rows. \<forall>s \<in> set ?ss. sort_known x reg tb (q_tenant q) r s row"
    "sorted_wrt (\<lambda>a b. ?cmp a b = Less) rows"
    using q(2) rows(1) by (auto simp: keyset_rows_def Let_def list_all_iff row_sortable_def sort_known_def)
  have base: "rows = sort_by ?cmp ?base" by (simp add: rows(1) found_rows_def)
  then have base_ok: "\<forall>row \<in> set ?base. row_sortable x r ?val ?ss row" using k(3) by simp
  have cursor: "keyset_values r (cursor_for_record pk ?a ?ss) ?ss = map (\<lambda>s. ?val s ?a) ?ss"
    unfolding cursor_values by (rule map_cong [OF refl]) (use k(2) in \<open>simp add: sort_value_eq\<close>)
  have hit: "?hit b \<longleftrightarrow> ?cmp ?a b = (if is_after then Less else Greater)" if "b \<in> set rows" for b
    using keyset_filter_key [OF k(1), of "map (\<lambda>s. ?val s ?a) ?ss" x reg tb "q_tenant q" r b is_after] k(4) that f
    by (simp add: cursor compare_rows_keys)
  have part: "filter ?hit rows = (if is_after then drop (Suc i) rows else take i rows)"
    using row_order.filter_after [OF k(3,5) rows(2)] hit by (auto cong: filter_cong)
  have found: "found_rows x reg tb r ?p = sort_by (compare_rows x r ?val (q_sort ?p)) (filter ?hit ?base)"
    by (simp add: found_rows_def keyset_page_query_def keep_matching_and)
  have sorted: "found_rows x reg tb r ?p = (if is_after then drop (Suc i) rows else rev (take i rows))"
  proof (cases is_after)
    case True
    have "found_rows x reg tb r ?p = filter ?hit rows"
      unfolding found base row_order.filter_sort [OF base_ok]
      by (simp add: keyset_page_query_def True)
    then show ?thesis by (simp add: part True)
  next
    case False
    have rs: "compare_rows x r ?val (q_sort ?p) = (\<lambda>a b. ord_reverse (?cmp a b))"
      by (intro ext) (simp add: keyset_page_query_def False compare_rows_reversed)
    have take_ok: "row_sortable x r ?val ?ss b" if "b \<in> set (take i rows)" for b
      using that k(3) by (blast dest: in_set_takeD)
    have "sort_by (compare_rows x r ?val (q_sort ?p)) (filter ?hit ?base) = rev (take i rows)"
    proof (rule row_order.sort_strict)
      show "\<forall>b \<in> set (rev (take i rows)). row_sortable x r ?val (q_sort ?p) b"
        using take_ok by (fastforce simp: row_sortable_def keyset_page_query_def False)
      have "sorted_wrt (\<lambda>a b. ?cmp a b = Less) (take i rows)" using k(5) by (rule sorted_wrt_take)
      then have "sorted_wrt (\<lambda>a b. ord_reverse (?cmp b a) = Less) (take i rows)"
        by (rule sorted_wrt_mono_rel [rotated]) (use take_ok row_order.cmp_less_greater in auto)
      then show "sorted_wrt (\<lambda>a b. compare_rows x r ?val (q_sort ?p) a b = Less) (rev (take i rows))"
        by (simp add: rs sorted_wrt_rev)
      have "mset (filter ?hit ?base) = mset (filter ?hit rows)" unfolding base by (simp only: mset_filter mset_sort_by)
      then show "mset (filter ?hit ?base) = mset (rev (take i rows))" by (simp add: part False)
    qed
    then show ?thesis unfolding found by (simp add: False)
  qed
  have "plain_query r ?p"
  proof -
    have "set (collect_fields f) \<subseteq> s_field ` set ?ss" by (rule keyset_fields [OF k(2) f])
    moreover have "n \<in> set (filter_fields (and_filters (q_filter q) (Some f))) \<Longrightarrow>
        n \<in> set (filter_fields (q_filter q)) \<or> n \<in> set (collect_fields f)" for n
      by (cases "q_filter q") (auto simp: filter_fields_def dest!: collect_filter_and)
    ultimately show ?thesis using q(1)
      by (fastforce simp: plain_query_def keyset_page_query_def sort_reversed_def)
  qed
  moreover have "q_limit ?p = Some n" "q_offset ?p = None" by (simp_all add: keyset_page_query_def)
  ultimately show ?thesis using query_plain [of r ?p x reg tb] by (simp add: sorted page_rows_def)
qed


definition sample_posts :: mem_tables where
  "sample_posts = [(''Post'', map (\<lambda>(k, t). (VUuid k, [(''id'', VUuid k), (''title'', VString t)]))
     [(1, ''b''), (2, ''a''), (3, ''c'')])]"


end
