(* ===== verification/AshEngine.thy ===== *)
theory AshEngine
  imports AshPagination
begin

text \<open>
  What the engine works in: the context of \<open>crates/ash-core/src/context.rs\<close>, the
  notifications of \<open>notifier.rs\<close>, and the world an operation changes, the data layer's
  state, the notifications queued and sent, the hooks' events. An operation is a function of
  the world to its result and the world it leaves; one that fails keeps what it did before.

  A notifier and a hook's events are named by strings and logged, their own work left out
  (the code ignores a notifier's result). The notifiers a resource is declared with, new
  UUIDs and the clock's readings are given by an environment, the last two by how many were
  drawn before. The \<open>atomic\<close> methods of custom changes and validations are the program's own,
  two functions of the environment.
\<close>

section \<open>Operations\<close>

record notification =
  n_resource :: string
  n_action :: string
  n_kind :: action_kind
  n_id :: Value
  n_record_fields :: fields
  n_previous_fields :: "fields option"
  n_actor :: "actor option"
  n_tenant :: "string option"
  n_metadata :: fields

record queued_notification =
  qn_notification :: notification
  qn_resource_notifiers :: "string list"

record ash_context =
  ctx_actor :: "actor option"
  ctx_tenant :: "string option"
  ctx_metadata :: fields
  ctx_notifiers :: "string list"
  ctx_queueing :: bool

record atomics =
  at_change :: "change \<Rightarrow> action_def \<Rightarrow> atomic_context \<Rightarrow> atomic_part"
  at_validation :: "validation \<Rightarrow> action_def \<Rightarrow> atomic_context \<Rightarrow> atomic_part"

record env =
  e_external :: external
  e_registry :: registry
  e_notifiers :: "resource_def \<Rightarrow> string list"
  e_uuid :: "nat \<Rightarrow> uuid"
  e_now :: "nat \<Rightarrow> string"
  e_atomics :: atomics

record 'd world =
  w_data :: 'd
  w_queue :: "queued_notification list"
  w_sent :: "(string \<times> notification) list"
  w_events :: "string list"
  w_visited :: "(string \<times> Value) list"
  w_drawn :: nat

type_synonym ('d, 'a) operation = "'d world \<Rightarrow> 'a res \<times> 'd world"

definition give :: "'a \<Rightarrow> ('d, 'a) operation" where
  "give a = (\<lambda>w. (Inr a, w))"

definition lift_res :: "'a res \<Rightarrow> ('d, 'a) operation" where
  "lift_res r = (\<lambda>w. (r, w))"

definition bindS :: "('d, 'a) operation \<Rightarrow> ('a \<Rightarrow> ('d, 'b) operation) \<Rightarrow> ('d, 'b) operation" where
  "bindS m f = (\<lambda>w. case m w of (Inl e, w') \<Rightarrow> (Inl e, w') | (Inr a, w') \<Rightarrow> f a w')"

definition reading :: "('d \<Rightarrow> 'a res) \<Rightarrow> ('d, 'a) operation" where
  "reading f = (\<lambda>w. (f (w_data w), w))"

definition writing :: "('d \<Rightarrow> 'a res \<times> 'd) \<Rightarrow> ('d, 'a) operation" where
  "writing f = (\<lambda>w. let (r, d) = f (w_data w) in (r, w\<lparr>w_data := d\<rparr>))"

text \<open>A loop whose body may fail, ending it.\<close>

fun for_each :: "('b \<Rightarrow> ('d, unit) operation) \<Rightarrow> 'b list \<Rightarrow> ('d, unit) operation" where
  "for_each f [] = give ()"
| "for_each f (x # xs) = bindS (f x) (\<lambda>_. for_each f xs)"

fun fold_ops :: "('s \<Rightarrow> 'b \<Rightarrow> ('d, 's) operation) \<Rightarrow> 's \<Rightarrow> 'b list \<Rightarrow> ('d, 's) operation" where
  "fold_ops f s [] = give s"
| "fold_ops f s (x # xs) = bindS (f s x) (\<lambda>s'. fold_ops f s' xs)"

definition draw_uuid :: "env \<Rightarrow> ('d, uuid) operation" where
  "draw_uuid env = (\<lambda>w. (Inr (e_uuid env (w_drawn w)), w\<lparr>w_drawn := Suc (w_drawn w)\<rparr>))"

definition draw_now :: "env \<Rightarrow> ('d, string) operation" where
  "draw_now env = (\<lambda>w. (Inr (e_now env (w_drawn w)), w\<lparr>w_drawn := Suc (w_drawn w)\<rparr>))"

lemma bindS_give [simp]: "bindS (give a) f = f a"
  by (simp add: bindS_def give_def)

lemma bindS_lift [simp]: "bindS (lift_res r) f w = (case r of Inl e \<Rightarrow> (Inl e, w) | Inr a \<Rightarrow> f a w)"
  by (simp add: bindS_def lift_res_def split: sum.split)

lemma bindS_reading [simp]: "bindS (reading g) f w = (case g (w_data w) of Inl e \<Rightarrow> (Inl e, w) | Inr a \<Rightarrow> f a w)"
  by (simp add: bindS_def reading_def split: sum.split)

lemma bindS_assoc: "bindS (bindS m f) g = bindS m (\<lambda>a. bindS (f a) g)"
  by (intro ext) (auto simp: bindS_def split: prod.split sum.split)

lemma bindS_eq_Inr:
  "bindS m f w = (Inr b, w') \<longleftrightarrow> (\<exists>a w1. m w = (Inr a, w1) \<and> f a w1 = (Inr b, w'))"
  by (auto simp: bindS_def split: prod.split sum.split)

lemma bindS_eq_Inl:
  "bindS m f w = (Inl e, w') \<longleftrightarrow> m w = (Inl e, w') \<or> (\<exists>a w1. m w = (Inr a, w1) \<and> f a w1 = (Inl e, w'))"
  by (auto simp: bindS_def split: prod.split sum.split)

section \<open>Contexts\<close>

definition context_new :: ash_context where
  "context_new = \<lparr>ctx_actor = None, ctx_tenant = None, ctx_metadata = [], ctx_notifiers = [], ctx_queueing = False\<rparr>"

definition with_actor :: "ash_context \<Rightarrow> actor \<Rightarrow> ash_context" where
  "with_actor ctx actor = ctx\<lparr>ctx_actor := Some actor\<rparr>"

definition without_actor :: "ash_context \<Rightarrow> ash_context" where
  "without_actor ctx = ctx\<lparr>ctx_actor := None\<rparr>"

definition with_tenant :: "ash_context \<Rightarrow> string \<Rightarrow> ash_context" where
  "with_tenant ctx tenant = ctx\<lparr>ctx_tenant := Some tenant\<rparr>"

definition without_tenant :: "ash_context \<Rightarrow> ash_context" where
  "without_tenant ctx = ctx\<lparr>ctx_tenant := None\<rparr>"

definition with_metadata :: "ash_context \<Rightarrow> string \<Rightarrow> Value \<Rightarrow> ash_context" where
  "with_metadata ctx key v = ctx\<lparr>ctx_metadata := fm_insert key v (ctx_metadata ctx)\<rparr>"

definition with_all_metadata :: "ash_context \<Rightarrow> fields \<Rightarrow> ash_context" where
  "with_all_metadata ctx extra = ctx\<lparr>ctx_metadata := fm_extend (ctx_metadata ctx) extra\<rparr>"

definition with_notifier :: "ash_context \<Rightarrow> string \<Rightarrow> ash_context" where
  "with_notifier ctx n = ctx\<lparr>ctx_notifiers := ctx_notifiers ctx @ [n]\<rparr>"

definition with_notifiers :: "ash_context \<Rightarrow> string list \<Rightarrow> ash_context" where
  "with_notifiers ctx ns = ctx\<lparr>ctx_notifiers := ctx_notifiers ctx @ ns\<rparr>"

definition with_notification_buffer :: "ash_context \<Rightarrow> ash_context" where
  "with_notification_buffer ctx = ctx\<lparr>ctx_queueing := True\<rparr>"

section \<open>Notifications\<close>

definition notification_new ::
    "string \<Rightarrow> string \<Rightarrow> action_kind \<Rightarrow> Value \<Rightarrow> fields \<Rightarrow> fields option \<Rightarrow> actor option \<Rightarrow> fields \<Rightarrow> notification" where
  "notification_new res act kind key record_fields previous actor metadata =
     \<lparr>n_resource = res, n_action = act, n_kind = kind, n_id = key, n_record_fields = record_fields,
      n_previous_fields = previous, n_actor = actor, n_tenant = None, n_metadata = metadata\<rparr>"

definition deliveries :: "ash_context \<Rightarrow> queued_notification \<Rightarrow> (string \<times> notification) list" where
  "deliveries ctx q = map (\<lambda>n. (n, qn_notification q)) (ctx_notifiers ctx @ qn_resource_notifiers q)"

text \<open>\<open>flush_queued_notifications\<close>: the queue is emptied as it's sent.\<close>

definition flush_queued :: "ash_context \<Rightarrow> ('d, unit) operation" where
  "flush_queued ctx = (\<lambda>w. (Inr (),
     w\<lparr>w_queue := [], w_sent := w_sent w @ concat (map (deliveries ctx) (w_queue w))\<rparr>))"

definition dispatch_notification :: "env \<Rightarrow> ash_context \<Rightarrow> resource_def \<Rightarrow> notification \<Rightarrow> ('d, unit) operation" where
  "dispatch_notification env ctx r n = (\<lambda>w.
     let q = \<lparr>qn_notification = n, qn_resource_notifiers = e_notifiers env r\<rparr>
     in (Inr (), if ctx_queueing ctx then w\<lparr>w_queue := w_queue w @ [q]\<rparr>
                 else w\<lparr>w_sent := w_sent w @ deliveries ctx q\<rparr>))"

section \<open>Transactions\<close>

text \<open>
  A data layer that transacts runs the work on a state of its own and puts its outcome in
  place; one that doesn't runs it as it is. It's \<open>None\<close> then.
\<close>

type_synonym ('d, 'a) transactor = "('d, 'a) operation \<Rightarrow> ('d, 'a) operation"

definition atomically ::
    "('d, 'a) transactor option \<Rightarrow> ash_context \<Rightarrow> (ash_context \<Rightarrow> ('d, 'a) operation) \<Rightarrow> ('d, 'a) operation" where
  "atomically tx ctx f =
     (if ctx_queueing ctx then f ctx
      else (\<lambda>w.
        let queue = w_queue w;
            (result, w') = (case tx of
               Some run \<Rightarrow> run (f (ctx\<lparr>ctx_queueing := True\<rparr>)) (w\<lparr>w_queue := []\<rparr>)
             | None \<Rightarrow> f ctx (w\<lparr>w_queue := []\<rparr>));
            w'' = (case result of Inr _ \<Rightarrow> snd (flush_queued ctx w') | Inl _ \<Rightarrow> w'\<lparr>w_queue := []\<rparr>)
        in (result, w''\<lparr>w_queue := queue\<rparr>)))"

text \<open>\<open>Context::transaction\<close>: within one already, its notifications join that one's queue.\<close>

definition context_transaction ::
    "('d, 'a) transactor \<Rightarrow> ash_context \<Rightarrow> (ash_context \<Rightarrow> ('d, 'a) operation) \<Rightarrow> ('d, 'a) operation" where
  "context_transaction run ctx f =
     (if ctx_queueing ctx then run (f ctx)
      else (\<lambda>w.
        let queue = w_queue w;
            (result, w') = run (f (ctx\<lparr>ctx_queueing := True\<rparr>)) (w\<lparr>w_queue := []\<rparr>);
            w'' = (case result of Inr _ \<Rightarrow> snd (flush_queued ctx w') | Inl _ \<Rightarrow> w'\<lparr>w_queue := []\<rparr>)
        in (result, w''\<lparr>w_queue := queue\<rparr>)))"

text \<open>
  The memory layer's, where \<open>others\<close> is what the rest of the program makes of the live store
  meanwhile, and that of a layer whose transaction is the work itself.
\<close>

definition run_in_place :: "('d, 'a) transactor" where
  "run_in_place work = work"

definition memory_transactor :: "external \<Rightarrow> (memory \<Rightarrow> memory) \<Rightarrow> (memory, 'a) transactor" where
  "memory_transactor x others work = (\<lambda>w.
     if mem_poisoned (w_data w) then (Inl poisoned, w\<lparr>w_data := others (w_data w)\<rparr>)
     else let (result, w') = work (w\<lparr>w_data := from_tables (mem_store (w_data w))\<rparr>);
              (r, live) = mem_transaction x (w_data w) (\<lambda>_. (result, w_data w')) (others (w_data w))
          in (r, w'\<lparr>w_data := live\<rparr>))"

section \<open>Notifications follow the outcome\<close>

lemma flush_queued_simps [simp]:
  "w_queue (snd (flush_queued ctx w)) = []"
  "w_sent (snd (flush_queued ctx w)) = w_sent w @ concat (map (deliveries ctx) (w_queue w))"
  "w_data (snd (flush_queued ctx w)) = w_data w"
  by (simp_all add: flush_queued_def)


definition no_atomics :: atomics where
  "no_atomics = \<lparr>at_change = (\<lambda>_ _ _. NotAtomic ''a custom change without an atomic implementation''),
     at_validation = (\<lambda>_ _ _. NotAtomic ''a custom validation without an atomic implementation'')\<rparr>"

definition sample_env :: env where
  "sample_env = \<lparr>e_external = sample_external, e_registry = [sample_unique], e_notifiers = (\<lambda>_. [''search'']),
     e_uuid = (\<lambda>n. of_nat n + 100), e_now = (\<lambda>_. ''2024-01-01T00:00:00.000000Z''),
     e_atomics = no_atomics\<rparr>"

definition world_of :: "'d \<Rightarrow> 'd world" where
  "world_of d = \<lparr>w_data = d, w_queue = [], w_sent = [], w_events = [], w_visited = [], w_drawn = 0\<rparr>"

definition sample_notification :: notification where
  "sample_notification = notification_new ''Post'' ''open'' Create (VUuid 1) [(''title'', VString ''a'')] None None []"


end
