(* ===== verification/AshRead.thy ===== *)
theory AshRead
  imports AshEngine
begin

text \<open>
  What a read sees (\<open>crates/ash-core/src/engine/read.rs\<close>): the caller's query as a read
  action runs it, the hooks that run on what it finds, and whether an actor would see a
  record.
\<close>

section \<open>The query a read runs\<close>

text \<open>The loop over an action's preparations: its filters, its sorts, and the query's page.\<close>

definition get_or_insert :: "'a option \<Rightarrow> 'a \<Rightarrow> 'a option" where
  "get_or_insert current v = (case current of None \<Rightarrow> Some v | Some c \<Rightarrow> Some c)"

fun prepare_read ::
    "fields \<Rightarrow> preparation_def list \<Rightarrow> Filter list \<times> sort_def list \<times> compiled_query \<Rightarrow>
     Filter list \<times> sort_def list \<times> compiled_query" where
  "prepare_read arguments [] acc = acc"
| "prepare_read arguments (p # ps) (fs, sorts, q) = prepare_read arguments ps
     (case p of
        PrepFilter build \<Rightarrow> (fs @ [build ()], sorts, q)
      | PrepFilterWithArgs build \<Rightarrow> (fs @ [build arguments], sorts, q)
      | PrepSort field descending \<Rightarrow> (fs, sorts @ [sort_on field descending], q)
      | PrepLimit limit \<Rightarrow> (fs, sorts, q\<lparr>q_limit := get_or_insert (q_limit q) limit\<rparr>)
      | PrepOffset offset \<Rightarrow> (fs, sorts, q\<lparr>q_offset := get_or_insert (q_offset q) offset\<rparr>)
      | PrepAfterAction _ \<Rightarrow> (fs, sorts, q))"

definition append_sorts :: "sort_def list \<Rightarrow> sort_def list \<Rightarrow> sort_def list" where
  "append_sorts given prepared =
     fold (\<lambda>s sorts. if list_ex (\<lambda>g. s_field g = s_field s) sorts then sorts else sorts @ [s]) prepared given"

definition argument_filters :: "resource_def \<Rightarrow> fields \<Rightarrow> Filter list" where
  "argument_filters r arguments =
     map (\<lambda>(name, v). FEq name v) (filter (\<lambda>(name, v). attribute r name \<noteq> None) arguments)"

definition opt_list :: "'a option \<Rightarrow> 'a list" where
  "opt_list o' = (case o' of None \<Rightarrow> [] | Some a \<Rightarrow> [a])"

definition true_is_none :: "Filter \<Rightarrow> Filter option" where
  "true_is_none f = (if f = FTrue then None else Some f)"

definition scope_read ::
    "resource_def \<Rightarrow> action_def \<Rightarrow> actor option \<Rightarrow> fields \<Rightarrow> compiled_query \<Rightarrow> compiled_query res" where
  "scope_read r action actor arguments q =
     (let (prepared, sorts, q) = prepare_read arguments (act_preparations action) ([], [], q)
      in bindE (compile_read_filter r action actor) (\<lambda>policies.
         bindE (apply_tenant_scope r
             (true_is_none (filter_and (prepared @ argument_filters r arguments @ opt_list (q_filter q) @ opt_list policies)))
             (q_tenant q)) (\<lambda>(f, tenant).
           Inr (q\<lparr>q_filter := f, q_sort := append_sorts (q_sort q) sorts, q_tenant := tenant, q_actor := actor\<rparr>))))"

definition after_read :: "action_def \<Rightarrow> fields \<Rightarrow> fields list \<Rightarrow> fields list res" where
  "after_read action arguments records =
     foldE (\<lambda>records p. case p of PrepAfterAction run \<Rightarrow> run arguments records | _ \<Rightarrow> Inr records)
       records (act_preparations action)"

definition record_visible ::
    "external \<Rightarrow> registry \<Rightarrow> resource_def \<Rightarrow> actor option \<Rightarrow> string option \<Rightarrow> fields \<Rightarrow> bool" where
  "record_visible x reg r actor tenant row =
     (case scope_read r (default_read r) actor [] (default_query\<lparr>q_tenant := tenant\<rparr>) of
        Inl _ \<Rightarrow> False
      | Inr scoped \<Rightarrow> (case q_filter scoped of None \<Rightarrow> True | Some f \<Rightarrow> matches_on x reg f r row))"

section \<open>What it admits\<close>

definition prepared_filters :: "fields \<Rightarrow> preparation_def list \<Rightarrow> Filter list" where
  "prepared_filters arguments ps = List.map_filter (\<lambda>p. case p of
     PrepFilter build \<Rightarrow> Some (build ()) | PrepFilterWithArgs build \<Rightarrow> Some (build arguments) | _ \<Rightarrow> None) ps"

lemma map_filter_Cons: "List.map_filter f (x # xs) = (case f x of None \<Rightarrow> List.map_filter f xs | Some y \<Rightarrow> y # List.map_filter f xs)"
  by (simp add: List.map_filter_def split: option.split)

lemma prepare_read_eq:
  "\<exists>sorts' limit offset. prepare_read arguments ps (fs, sorts, q) =
     (fs @ prepared_filters arguments ps, sorts', q\<lparr>q_limit := limit, q_offset := offset\<rparr>) \<and>
     (\<forall>n. q_limit q = Some n \<longrightarrow> limit = Some n) \<and> (\<forall>n. q_offset q = Some n \<longrightarrow> offset = Some n)"
proof (induction ps arbitrary: fs sorts q)
  case Nil
  show ?case by (rule exI [of _ sorts], rule exI [of _ "q_limit q"], rule exI [of _ "q_offset q"])
      (simp add: prepared_filters_def List.map_filter_def)
next
  case (Cons p ps)
  note IH = Cons.IH
  show ?case
  proof (cases p)
    case (PrepLimit n)
    then show ?thesis using IH [of fs sorts "q\<lparr>q_limit := get_or_insert (q_limit q) n\<rparr>"]
      by (auto simp: prepared_filters_def map_filter_Cons get_or_insert_def split: option.splits)
  next
    case (PrepOffset n)
    then show ?thesis using IH [of fs sorts "q\<lparr>q_offset := get_or_insert (q_offset q) n\<rparr>"]
      by (auto simp: prepared_filters_def map_filter_Cons get_or_insert_def split: option.splits)
  next
    case (PrepFilter build)
    then show ?thesis using IH [of "fs @ [build ()]" sorts q] by (simp add: prepared_filters_def map_filter_Cons)
  next
    case (PrepFilterWithArgs build)
    then show ?thesis using IH [of "fs @ [build arguments]" sorts q] by (simp add: prepared_filters_def map_filter_Cons)
  next
    case (PrepSort field descending)
    then show ?thesis using IH [of fs "sorts @ [sort_on field descending]" q]
      by (simp add: prepared_filters_def map_filter_Cons)
  next
    case (PrepAfterAction run)
    then show ?thesis using IH [of fs sorts q] by (simp add: prepared_filters_def map_filter_Cons)
  qed
qed

lemma scope_read_Inr:
  assumes "scope_read r action actor arguments q = Inr q'"
  shows "\<exists>policies sorts. compile_read_filter r action actor = Inr policies \<and>
    apply_tenant_scope r (true_is_none (filter_and (prepared_filters arguments (act_preparations action) @
      argument_filters r arguments @ opt_list (q_filter q) @ opt_list policies))) (q_tenant q) = Inr (q_filter q', q_tenant q') \<and>
    q_sort q' = append_sorts (q_sort q) sorts \<and> q_actor q' = actor \<and>
    q_calculations q' = q_calculations q \<and> q_aggregates q' = q_aggregates q \<and> q_select q' = q_select q \<and>
    (\<forall>n. q_limit q = Some n \<longrightarrow> q_limit q' = Some n) \<and> (\<forall>n. q_offset q = Some n \<longrightarrow> q_offset q' = Some n)"
proof -
  obtain sorts limit offset where p: "prepare_read arguments (act_preparations action) ([], [], q) =
      (prepared_filters arguments (act_preparations action), sorts, q\<lparr>q_limit := limit, q_offset := offset\<rparr>)"
    and l: "\<forall>n. q_limit q = Some n \<longrightarrow> limit = Some n" "\<forall>n. q_offset q = Some n \<longrightarrow> offset = Some n"
    using prepare_read_eq [of arguments "act_preparations action" "[]" "[]" q] by auto
  show ?thesis using assms l by (auto simp: scope_read_def p bindE_eq_Inr)
qed

lemma admitted_true_is_none: "admitted x reg res (true_is_none f) fs \<longleftrightarrow> filter_eval x reg res fs f = Some True"
  by (simp add: admitted_def true_is_none_def)

text \<open>
  C16: The query a read runs admits exactly the records the action's own filters, the
  arguments that name attributes, the caller's filter, the read policies and the tenant all
  admit; the caller's page stays the caller's.
\<close>

theorem scope_read_admits:
  assumes "scope_read r action actor arguments q = Inr q'"
  shows "(admitted x reg res (q_filter q') fs \<longleftrightarrow>
      list_all (\<lambda>f. filter_eval x reg res fs f = Some True) (prepared_filters arguments (act_preparations action)) \<and>
      list_all (\<lambda>f. filter_eval x reg res fs f = Some True) (argument_filters r arguments) \<and>
      admitted x reg res (q_filter q) fs \<and>
      (\<exists>policies. compile_read_filter r action actor = Inr policies \<and> admitted x reg res policies fs) \<and>
      admitted x reg res (tenant_filter r (q_tenant q)) fs) \<and>
    q_tenant q' = q_tenant q \<and> (\<forall>n. q_limit q = Some n \<longrightarrow> q_limit q' = Some n) \<and>
    (\<forall>n. q_offset q = Some n \<longrightarrow> q_offset q' = Some n)"
proof -
  obtain policies where s: "compile_read_filter r action actor = Inr policies"
    "apply_tenant_scope r (true_is_none (filter_and (prepared_filters arguments (act_preparations action) @
      argument_filters r arguments @ opt_list (q_filter q) @ opt_list policies))) (q_tenant q) = Inr (q_filter q', q_tenant q')"
    "\<forall>n. q_limit q = Some n \<longrightarrow> q_limit q' = Some n" "\<forall>n. q_offset q = Some n \<longrightarrow> q_offset q' = Some n"
    using scope_read_Inr [OF assms] by blast
  have o: "list_all (\<lambda>f. filter_eval x reg res fs f = Some True) (opt_list f) \<longleftrightarrow> admitted x reg res f fs" for f
    by (simp add: opt_list_def admitted_def split: option.split)
  have a: "list_all P (xs @ ys) \<longleftrightarrow> list_all P xs \<and> list_all P ys" for P and xs ys :: "Filter list"
    by (auto simp: list_all_iff)
  have "q_filter q' = and_filters (true_is_none (filter_and (prepared_filters arguments (act_preparations action) @
      argument_filters r arguments @ opt_list (q_filter q) @ opt_list policies))) (tenant_filter r (q_tenant q))"
    "q_tenant q' = q_tenant q"
    using s(2) by (auto simp: apply_tenant_scope_def split: if_splits)
  moreover have "filter_eval x reg res fs (filter_and parts) = Some True \<longleftrightarrow>
      list_all (\<lambda>f. filter_eval x reg res fs f = Some True) parts" for parts
    by (auto simp: eval_filter_and all_of_True list_all_iff)
  ultimately show ?thesis using s(1,3,4)
    by (auto simp: admitted_and admitted_true_is_none a o)
qed

definition sample_archived :: resource_def where
  "sample_archived = sample_unique\<lparr>r_actions := [(read_action_def ''read'')
     \<lparr>act_primary := True, act_preparations := [PrepFilter (\<lambda>_. FIsNil ''archived_at''), PrepLimit 10]\<rparr>]\<rparr>"

lemma scope_read_admits_witness:
  "\<exists>q. scope_read sample_archived (default_read sample_archived) None [(''title'', VString ''a'')]
     (default_query\<lparr>q_limit := Some 3\<rparr>) = Inr q \<and> q_limit q = Some 3 \<and>
     \<not> admitted sample_external [] None (q_filter q) [(''title'', VString ''a''), (''archived_at'', VInt 1)]"
proof -
  let ?q = "default_query\<lparr>q_limit := Some 3\<rparr>"
  have r: "scope_read sample_archived (default_read sample_archived) None [(''title'', VString ''a'')] ?q =
      Inr (?q\<lparr>q_filter := Some (FAnd [FIsNil ''archived_at'', FEq ''title'' (VString ''a'')])\<rparr>)"
    (is "_ = Inr ?q'") by code_simp
  have "admitted sample_external [] None (q_filter ?q') [(''title'', VString ''a''), (''archived_at'', VInt 1)] \<Longrightarrow>
      filter_eval sample_external [] None [(''title'', VString ''a''), (''archived_at'', VInt 1)] (FIsNil ''archived_at'') =
        Some True"
    using scope_read_admits [OF r, of sample_external "[]" None "[(''title'', VString ''a''), (''archived_at'', VInt 1)]"]
    by (simp add: default_read_def primary_read_def sample_archived_def prepared_filters_def map_filter_Cons
        read_action_def_def base_action_def)
  then have "\<not> admitted sample_external [] None (q_filter ?q') [(''title'', VString ''a''), (''archived_at'', VInt 1)]"
    by (auto simp: present_def)
  then show ?thesis using r by auto
qed

section \<open>Evaluating a filter in Rust and in the data layer\<close>

text \<open>
  \<open>Filter::matches_on\<close> compares values as they are; the data layers compare a column's texts
  as its type does. On columns whose type compares text as it is, and without relationships,
  they agree.
\<close>

definition plain_column :: "resource_def \<Rightarrow> string \<Rightarrow> bool" where
  "plain_column r field \<longleftrightarrow>
     (case column_type r field of
        Some TFloat \<Rightarrow> False | Some TDecimal \<Rightarrow> False | Some TCiString \<Rightarrow> False | Some TInet \<Rightarrow> False
      | Some (TVector _) \<Rightarrow> False | Some (TUtcDatetime _) \<Rightarrow> False | _ \<Rightarrow> True)"

fun unrelated :: "Filter \<Rightarrow> bool" where
  "unrelated (FAnd parts) = list_all unrelated parts"
| "unrelated (FOr parts) = list_all unrelated parts"
| "unrelated (FNot f) = unrelated f"
| "unrelated (FRelated _ _) = False"
| "unrelated _ = True"

lemma plain_compare:
  assumes "plain_column r field"
  shows "compare_typed x (column_type r field) a b = value_cmp a b"
proof -
  have "compare_text x (column_type r field) s t = None" for s t
    using assms by (auto simp: plain_column_def split: option.splits attr_type.splits)
  then show ?thesis by (auto simp: compare_typed_def split: Value.splits)
qed

lemma plain_same_value: "plain_column r field \<Longrightarrow> same_value x (column_type r field) = value_eq"
  by (intro ext) (simp add: same_value_def plain_compare value_eq_def)

lemma field_type_column: "field_type (Some r) field = column_type r field"
  by (simp add: field_type_def column_type_def)

lemma mem_eval_filter_eval:
  assumes "unrelated f" "\<forall>field \<in> set (collect_fields f). plain_column r field"
  shows "mem_eval x reg tb tenant r f row scope = filter_eval x reg (Some r) row f"
  using assms
proof (induction f)
  case (FAnd parts)
  then show ?case by (auto simp: list_all_iff intro!: arg_cong [where f = all_of] map_cong)
next
  case (FOr parts)
  then show ?case by (auto simp: list_all_iff intro!: arg_cong [where f = any_of] map_cong)
qed (auto simp: plain_same_value plain_compare mem_compare_def filter_compare_def eval_mem_text_def eval_text_def
    is_ci_string_def field_type_column split: option.split)



text \<open>
  On a case-insensitive column they differ: the read finds the record, a subscriber with the
  same filter doesn't see it.
\<close>

lemma record_visible_differs:
  assumes "attribute r ''email'' = Some (attr_required ''email'' TCiString)"
  shows "matches_on sample_external [] (FEq ''email'' (VString ''A'')) r [(''email'', VString ''a'')] = False"
    and "row_matches_filter sample_external [] [] None r (FEq ''email'' (VString ''A'')) [(''email'', VString ''a'')]"
proof -
  show "matches_on sample_external [] (FEq ''email'' (VString ''A'')) r [(''email'', VString ''a'')] = False"
    unfolding matches_on_def by code_simp
  have "column_type r ''email'' = Some TCiString" by (simp add: column_type_def assms attr_required_def attr_base_def)
  moreover have "compare_typed sample_external (Some TCiString) (VString ''a'') (VString ''A'') = Equal" by code_simp
  ultimately show "row_matches_filter sample_external [] [] None r (FEq ''email'' (VString ''A'')) [(''email'', VString ''a'')]"
    by (simp add: row_matches_filter_def present_def is_null_def same_value_def)
qed

end
