(* ===== verification/AshLock.thy ===== *)
theory AshLock
  imports AshRead
begin

text \<open>
  Optimistic locks (\<open>crates/ash-core/src/engine/lock.rs\<close>): the guard an action's locks put
  on a write, the write under it, and why one found nothing. Over the memory data layer, of
  two writers that read the same version one is refused.
\<close>

section \<open>Locks\<close>

record lock =
  lk_guard :: Filter
  lk_next :: fields

definition lock_field :: "external \<Rightarrow> fields \<Rightarrow> Filter list \<times> fields \<Rightarrow> string \<Rightarrow> (Filter list \<times> fields) res" where
  "lock_field x existing = (\<lambda>(guards, next') field.
     bindE (next_version x (fm_get existing field)) (\<lambda>v.
       Inr (guards @ [case fm_get existing field of
                        None \<Rightarrow> FIsNil field
                      | Some VNull \<Rightarrow> FIsNil field
                      | Some value \<Rightarrow> FEq field value],
            fm_insert field v next')))"

definition lock_of :: "external \<Rightarrow> action_def \<Rightarrow> fields \<Rightarrow> lock option res" where
  "lock_of x action existing =
     bindE (foldE (lock_field x existing) ([], []) (optimistic_locks action)) (\<lambda>(guards, next').
       Inr (case guards of
              [] \<Rightarrow> None
            | [g] \<Rightarrow> Some \<lparr>lk_guard = g, lk_next = next'\<rparr>
            | _ \<Rightarrow> Some \<lparr>lk_guard = filter_and guards, lk_next = next'\<rparr>))"

definition by_id_query :: "Filter option \<Rightarrow> string option \<Rightarrow> compiled_query" where
  "by_id_query f tenant = default_query\<lparr>q_filter := f, q_tenant := tenant, q_limit := Some 1\<rparr>"

definition guarded_query :: "string option \<Rightarrow> resource_def \<Rightarrow> Value \<Rightarrow> Filter \<Rightarrow> compiled_query res" where
  "guarded_query tenant r key guard =
     bindE (pk_name r) (\<lambda>pk.
     bindE (apply_tenant_scope r (Some (filter_and [FEq pk key, guard])) tenant) (\<lambda>(f, tenant').
       Inr (by_id_query f tenant')))"

text \<open>Why a guarded write found nothing to write.\<close>

definition stale_or_missing :: "'d data_layer \<Rightarrow> ash_context \<Rightarrow> resource_def \<Rightarrow> Value \<Rightarrow> 'd \<Rightarrow> error" where
  "stale_or_missing dl ctx r key d =
     (case bindE (pk_name r) (\<lambda>pk. apply_tenant_scope r (Some (FEq pk key)) (ctx_tenant ctx)) of
        Inl err \<Rightarrow> err
      | Inr (f, tenant) \<Rightarrow>
          (case dl_run_query dl d r (by_id_query f tenant) of
             Inr (_ # _) \<Rightarrow> EStaleRecord (r_name r) key
           | Inr [] \<Rightarrow> ENotFound
           | Inl err \<Rightarrow> err))"

definition fail_stale :: "'d data_layer \<Rightarrow> ash_context \<Rightarrow> resource_def \<Rightarrow> Value \<Rightarrow> ('d, 'a) operation" where
  "fail_stale dl ctx r key = reading (\<lambda>d. Inl (stale_or_missing dl ctx r key d))"

definition check_lock :: "'d data_layer \<Rightarrow> ash_context \<Rightarrow> resource_def \<Rightarrow> Value \<Rightarrow> lock \<Rightarrow> ('d, unit) operation" where
  "check_lock dl ctx r key l =
     bindS (lift_res (guarded_query (ctx_tenant ctx) r key (lk_guard l))) (\<lambda>q.
     bindS (reading (\<lambda>d. dl_run_query dl d r q)) (\<lambda>rows.
       if rows = [] then fail_stale dl ctx r key else give ()))"

definition set_values :: "fields \<Rightarrow> atomic_update" where
  "set_values fs = fold (\<lambda>(name, value) u. update_set u name (AtValue value)) fs empty_update"

definition update_guarded ::
    "'d data_layer \<Rightarrow> ash_context \<Rightarrow> resource_def \<Rightarrow> Value \<Rightarrow> fields \<Rightarrow> lock option \<Rightarrow> ('d, fields) operation" where
  "update_guarded dl ctx r key fs l =
     (case l of
        None \<Rightarrow> writing (\<lambda>d. dl_update dl d r (ctx_tenant ctx) key fs)
      | Some l \<Rightarrow>
          let fs = fm_extend fs (lk_next l)
          in bindS (lift_res (guarded_query (ctx_tenant ctx) r key (lk_guard l))) (\<lambda>q.
             if dl_can_update_atomically dl r then
               bindS (writing (\<lambda>d. dl_update_atomic dl d r q (set_values fs))) (\<lambda>rows.
                 case rev rows of stored # _ \<Rightarrow> give stored | [] \<Rightarrow> fail_stale dl ctx r key)
             else
               bindS (reading (\<lambda>d. dl_run_query dl d r q)) (\<lambda>rows.
                 if rows = [] then fail_stale dl ctx r key
                 else writing (\<lambda>d. dl_update dl d r (ctx_tenant ctx) key fs))))"

definition destroy_guarded ::
    "'d data_layer \<Rightarrow> ash_context \<Rightarrow> resource_def \<Rightarrow> Value \<Rightarrow> lock option \<Rightarrow> ('d, unit) operation" where
  "destroy_guarded dl ctx r key l =
     (case l of
        None \<Rightarrow> writing (\<lambda>d. dl_destroy dl d r (ctx_tenant ctx) key)
      | Some l \<Rightarrow>
          bindS (lift_res (guarded_query (ctx_tenant ctx) r key (lk_guard l))) (\<lambda>q.
            if dl_can_destroy_atomically dl r then
              bindS (writing (\<lambda>d. dl_destroy_atomic dl d r q [])) (\<lambda>rows.
                if rows = [] then fail_stale dl ctx r key else give ())
            else
              bindS (reading (\<lambda>d. dl_run_query dl d r q)) (\<lambda>rows.
                if rows = [] then fail_stale dl ctx r key
                else writing (\<lambda>d. dl_destroy dl d r (ctx_tenant ctx) key))))"

lemma fail_stale_simps [simp]:
  "fail_stale dl ctx r key w \<noteq> (Inr a, w')"
  "fail_stale dl ctx r key w = (Inl e, w') \<longleftrightarrow> e = stale_or_missing dl ctx r key (w_data w) \<and> w' = w"
  by (auto simp: fail_stale_def reading_def)

lemma writing_eq: "writing f w = (res, w') \<longleftrightarrow> (\<exists>d. f (w_data w) = (res, d) \<and> w' = w\<lparr>w_data := d\<rparr>)"
  by (auto simp: writing_def split: prod.split)

section \<open>A guarded write finds what its guard admits\<close>

text \<open>
  What the engine relies on of a data layer: a query, an atomic update and an atomic destroy
  find only stored rows their filter admits.
\<close>

locale finding_layer =
  fixes dl :: "'d data_layer"
    and stored :: "'d \<Rightarrow> resource_def \<Rightarrow> string option \<Rightarrow> fields \<Rightarrow> bool"
    and admits :: "'d \<Rightarrow> resource_def \<Rightarrow> string option \<Rightarrow> Filter \<Rightarrow> fields \<Rightarrow> bool"
    and simple :: "resource_def \<Rightarrow> compiled_query \<Rightarrow> bool"
  assumes query_finds: "simple r q \<Longrightarrow> dl_run_query dl d r q = Inr (row # rows) \<Longrightarrow>
      \<exists>before. stored d r (q_tenant q) before \<and> (\<forall>f. q_filter q = Some f \<longrightarrow> admits d r (q_tenant q) f before)"
    and update_finds: "simple r q \<Longrightarrow> dl_update_atomic dl d r q u = (Inr (row # rows), d') \<Longrightarrow>
      \<exists>before. stored d r (q_tenant q) before \<and> (\<forall>f. q_filter q = Some f \<longrightarrow> admits d r (q_tenant q) f before)"
    and destroy_finds: "simple r q \<Longrightarrow> dl_destroy_atomic dl d r q cs = (Inr (row # rows), d') \<Longrightarrow>
      \<exists>before. stored d r (q_tenant q) before \<and> (\<forall>f. q_filter q = Some f \<longrightarrow> admits d r (q_tenant q) f before)"
    and admits_and: "admits d r tenant (filter_and fs) row \<longleftrightarrow> (\<forall>f \<in> set fs. admits d r tenant f row)"
begin

lemma guarded_query_admits:
  assumes "guarded_query tenant r key guard = Inr q" "pk_name r = Inr pk"
    and "\<forall>f. q_filter q = Some f \<longrightarrow> admits d r (q_tenant q) f row"
  shows "q_tenant q = tenant" "admits d r tenant (FEq pk key) row" "admits d r tenant guard row"
proof -
  obtain f where f: "q = by_id_query f tenant" "f = and_filters (Some (filter_and [FEq pk key, guard])) (tenant_filter r tenant)"
    using assms(1,2) by (auto simp: guarded_query_def bindE_eq_Inr apply_tenant_scope_def split: if_splits)
  then show t: "q_tenant q = tenant" by (simp add: by_id_query_def)
  have "admits d r tenant (filter_and [FEq pk key, guard]) row"
  proof (cases "tenant_filter r tenant")
    case None
    then show ?thesis using assms(3) f by (simp add: by_id_query_def)
  next
    case (Some g)
    then have "admits d r tenant (filter_and [filter_and [FEq pk key, guard], g]) row"
      using assms(3) f by (simp add: by_id_query_def)
    then show ?thesis using admits_and [of d r tenant "[filter_and [FEq pk key, guard], g]" row] by simp
  qed
  then show "admits d r tenant (FEq pk key) row" "admits d r tenant guard row"
    by (simp_all add: admits_and)
qed

text \<open>A write that lands found a stored record with the key that met the guard.\<close>

definition found :: "'d \<Rightarrow> ash_context \<Rightarrow> resource_def \<Rightarrow> Value \<Rightarrow> string \<Rightarrow> Filter \<Rightarrow> bool" where
  "found d ctx r key pk guard \<longleftrightarrow> (\<exists>before. stored d r (ctx_tenant ctx) before \<and>
     admits d r (ctx_tenant ctx) (FEq pk key) before \<and> admits d r (ctx_tenant ctx) guard before)"

lemma found_by:
  assumes "guarded_query (ctx_tenant ctx) r key guard = Inr q" "pk_name r = Inr pk"
    and "\<exists>before. stored d r (q_tenant q) before \<and> (\<forall>f. q_filter q = Some f \<longrightarrow> admits d r (q_tenant q) f before)"
  shows "found d ctx r key pk guard"
  using assms(3) guarded_query_admits [OF assms(1,2)] unfolding found_def by metis

lemma update_guarded_found:
  assumes "update_guarded dl ctx r key fs (Some l) w = (Inr row, w')" "pk_name r = Inr pk"
    and "\<And>q. guarded_query (ctx_tenant ctx) r key (lk_guard l) = Inr q \<Longrightarrow> simple r q"
  shows "found (w_data w) ctx r key pk (lk_guard l)"
proof -
  obtain q where q: "guarded_query (ctx_tenant ctx) r key (lk_guard l) = Inr q"
    using assms(1) by (auto simp: update_guarded_def Let_def split: sum.splits)
  have "\<exists>before. stored (w_data w) r (q_tenant q) before \<and>
      (\<forall>f. q_filter q = Some f \<longrightarrow> admits (w_data w) r (q_tenant q) f before)"
  proof (cases "dl_can_update_atomically dl r")
    case True
    then obtain rows w1 where u: "writing (\<lambda>d. dl_update_atomic dl d r q (set_values (fm_extend fs (lk_next l)))) w = (Inr rows, w1)"
      and "(case rev rows of stored # _ \<Rightarrow> give stored | [] \<Rightarrow> fail_stale dl ctx r key) w1 = (Inr row, w')"
      using assms(1) by (auto simp: update_guarded_def Let_def q bindS_eq_Inr)
    then have "rows \<noteq> []" by (cases rows) auto
    moreover obtain d where "dl_update_atomic dl (w_data w) r q (set_values (fm_extend fs (lk_next l))) = (Inr rows, d)"
      using u by (auto simp: writing_eq)
    ultimately show ?thesis using update_finds [OF assms(3) [OF q]] by (cases rows) auto
  next
    case False
    then obtain rows where "dl_run_query dl (w_data w) r q = Inr rows" "rows \<noteq> []"
      using assms(1) q by (auto simp: update_guarded_def Let_def split: sum.splits if_splits)
    then show ?thesis using query_finds [OF assms(3) [OF q]] by (cases rows) auto
  qed
  then show ?thesis by (rule found_by [OF q assms(2)])
qed

lemma destroy_guarded_found:
  assumes "destroy_guarded dl ctx r key (Some l) w = (Inr u, w')" "pk_name r = Inr pk"
    and "\<And>q. guarded_query (ctx_tenant ctx) r key (lk_guard l) = Inr q \<Longrightarrow> simple r q"
  shows "found (w_data w) ctx r key pk (lk_guard l)"
proof -
  obtain q where q: "guarded_query (ctx_tenant ctx) r key (lk_guard l) = Inr q"
    using assms(1) by (auto simp: destroy_guarded_def split: sum.splits)
  have "\<exists>before. stored (w_data w) r (q_tenant q) before \<and>
      (\<forall>f. q_filter q = Some f \<longrightarrow> admits (w_data w) r (q_tenant q) f before)"
  proof (cases "dl_can_destroy_atomically dl r")
    case True
    then obtain rows d where u: "dl_destroy_atomic dl (w_data w) r q [] = (Inr rows, d)" "rows \<noteq> []"
      using assms(1) q by (auto simp: destroy_guarded_def bindS_eq_Inr writing_eq split: if_splits)
    then show ?thesis using destroy_finds [OF assms(3) [OF q]] by (cases rows) auto
  next
    case False
    then obtain rows where "dl_run_query dl (w_data w) r q = Inr rows" "rows \<noteq> []"
      using assms(1) q by (auto simp: destroy_guarded_def split: sum.splits if_splits)
    then show ?thesis using query_finds [OF assms(3) [OF q]] by (cases rows) auto
  qed
  then show ?thesis by (rule found_by [OF q assms(2)])
qed

lemma check_lock_found:
  assumes "check_lock dl ctx r key l w = (Inr u, w')" "pk_name r = Inr pk"
    and "\<And>q. guarded_query (ctx_tenant ctx) r key (lk_guard l) = Inr q \<Longrightarrow> simple r q"
  shows "w' = w \<and> found (w_data w) ctx r key pk (lk_guard l)"
proof -
  obtain q where q: "guarded_query (ctx_tenant ctx) r key (lk_guard l) = Inr q"
    using assms(1) by (auto simp: check_lock_def split: sum.splits)
  obtain rows where rows: "dl_run_query dl (w_data w) r q = Inr rows"
    using assms(1) by (auto simp: check_lock_def q split: sum.splits)
  then have "(if rows = [] then fail_stale dl ctx r key else give ()) w = (Inr u, w')"
    using assms(1) by (simp add: check_lock_def q)
  then have "rows \<noteq> []" "w' = w" by (auto simp: give_def split: if_splits)
  then show ?thesis using found_by [OF q assms(2)] query_finds [OF assms(3) [OF q]] rows by (cases rows) auto
qed

end

section \<open>Over the memory data layer\<close>

definition mem_stored :: "memory \<Rightarrow> resource_def \<Rightarrow> string option \<Rightarrow> fields \<Rightarrow> bool" where
  "mem_stored m r tenant row \<longleftrightarrow> row \<in> set (tb_rows (table_or_default (mem_store m) (table_key r tenant)))"

definition mem_admits :: "external \<Rightarrow> registry \<Rightarrow> memory \<Rightarrow> resource_def \<Rightarrow> string option \<Rightarrow> Filter \<Rightarrow> fields \<Rightarrow> bool" where
  "mem_admits x reg m r tenant f row \<longleftrightarrow> row_matches_filter x reg (mem_store m) tenant r f row"

lemma selected_plain:
  "plain_query r q \<Longrightarrow> selected_rows x reg tb r q =
   Inr (page_rows (q_limit q) None (keep_matching x reg tb (q_tenant q) r (q_filter q)
     (tb_rows (table_or_default tb (table_key r (q_tenant q))))))"
  by (subst selected_rows_def, subst compute_nothing) (auto simp: plain_query_def)

lemma in_page: "row \<in> set (page_rows limit offset rows) \<Longrightarrow> row \<in> set rows"
  by (auto simp: page_rows_def Let_def split: option.splits dest: in_set_takeD in_set_dropD)

lemma kept_admits:
  "row \<in> set (keep_matching x reg (mem_store m) (q_tenant q) r (q_filter q)
     (tb_rows (table_or_default (mem_store m) (table_key r (q_tenant q))))) \<Longrightarrow>
   mem_stored m r (q_tenant q) row \<and> (\<forall>f. q_filter q = Some f \<longrightarrow> mem_admits x reg m r (q_tenant q) f row)"
  by (auto simp: keep_matching_def mem_stored_def mem_admits_def split: option.splits)

interpretation mem_finding: finding_layer "memory_layer x reg" mem_stored "mem_admits x reg" plain_query for x reg
proof
  fix d r q row rows
  assume q: "plain_query r q" and run: "dl_run_query (memory_layer x reg) d r q = Inr (row # rows)"
  then have "page_rows (q_limit q) (q_offset q) (found_rows x reg (mem_store d) r q) \<noteq> []"
    by (auto simp: memory_layer_def mem_run_query_def with_read_def query_plain default_layer_def split: if_splits)
  then obtain before where "before \<in> set (found_rows x reg (mem_store d) r q)" using in_page by (metis list.set_intros(1) neq_Nil_conv)
  then show "\<exists>before. mem_stored d r (q_tenant q) before \<and>
      (\<forall>f. q_filter q = Some f \<longrightarrow> mem_admits x reg d r (q_tenant q) f before)"
    by (auto simp: found_rows_def dest!: kept_admits)
next
  fix d r q u row rows d'
  assume q: "plain_query r q" and run: "dl_update_atomic (memory_layer x reg) d r q u = (Inr (row # rows), d')"
  then have "page_rows (q_limit q) None (keep_matching x reg (mem_store d) (q_tenant q) r (q_filter q)
     (tb_rows (table_or_default (mem_store d) (table_key r (q_tenant q))))) \<noteq> []"
    by (auto simp: memory_layer_def default_layer_def mem_update_atomic_def with_write_def selected_plain Let_def
        split: if_splits sum.splits prod.splits)
  then show "\<exists>before. mem_stored d r (q_tenant q) before \<and>
      (\<forall>f. q_filter q = Some f \<longrightarrow> mem_admits x reg d r (q_tenant q) f before)"
    using kept_admits in_page by (metis list.set_intros(1) neq_Nil_conv)
next
  fix d r q cs row rows d'
  assume q: "plain_query r q" and run: "dl_destroy_atomic (memory_layer x reg) d r q cs = (Inr (row # rows), d')"
  then have "page_rows (q_limit q) None (keep_matching x reg (mem_store d) (q_tenant q) r (q_filter q)
     (tb_rows (table_or_default (mem_store d) (table_key r (q_tenant q))))) \<noteq> []"
    by (auto simp: memory_layer_def default_layer_def mem_destroy_atomic_def with_write_def selected_plain Let_def
        bindE_eq_Inr split: if_splits sum.splits prod.splits option.splits)
  then show "\<exists>before. mem_stored d r (q_tenant q) before \<and>
      (\<forall>f. q_filter q = Some f \<longrightarrow> mem_admits x reg d r (q_tenant q) f before)"
    using kept_admits in_page by (metis list.set_intros(1) neq_Nil_conv)
next
  fix d r tenant fs row
  show "mem_admits x reg d r tenant (filter_and fs) row \<longleftrightarrow> (\<forall>f \<in> set fs. mem_admits x reg d r tenant f row)"
    by (auto simp: mem_admits_def row_matches_filter_def store_meaning.ev_filter_and all_of_True)
qed

text \<open>The lock versions of the record as read are the stored row's.\<close>

definition same_version :: "external \<Rightarrow> resource_def \<Rightarrow> fields \<Rightarrow> fields \<Rightarrow> string \<Rightarrow> bool" where
  "same_version x r existing row field \<longleftrightarrow>
     (case present existing field of
        None \<Rightarrow> present row field = None
      | Some v \<Rightarrow> (case present row field of Some u \<Rightarrow> same_value x (column_type r field) u v | None \<Rightarrow> False))"

definition version_guard :: "fields \<Rightarrow> string \<Rightarrow> Filter" where
  "version_guard existing field = (case present existing field of None \<Rightarrow> FIsNil field | Some v \<Rightarrow> FEq field v)"

lemma lock_fields:
  assumes "foldE (lock_field x existing) (gs, nx) fields' = Inr (gs', nx')"
  shows "gs' = gs @ map (version_guard existing) fields'"
    and "\<forall>f \<in> set fields'. \<exists>v. next_version x (fm_get existing f) = Inr v \<and> fm_get nx' f = Some v"
    and "\<forall>f. f \<notin> set fields' \<longrightarrow> fm_get nx' f = fm_get nx f"
    and "fm_ok nx \<Longrightarrow> fm_ok nx'"
proof -
  have "gs' = gs @ map (version_guard existing) fields' \<and>
      (\<forall>f \<in> set fields'. \<exists>v. next_version x (fm_get existing f) = Inr v \<and> fm_get nx' f = Some v) \<and>
      (\<forall>f. f \<notin> set fields' \<longrightarrow> fm_get nx' f = fm_get nx f) \<and> (fm_ok nx \<longrightarrow> fm_ok nx')"
    using assms
  proof (induction fields' arbitrary: gs nx)
    case (Cons f fs)
    obtain v where v: "next_version x (fm_get existing f) = Inr v"
      and rest: "foldE (lock_field x existing) (gs @ [version_guard existing f], fm_insert f v nx) fs = Inr (gs', nx')"
      using Cons.prems by (auto simp: lock_field_def bindE_eq_Inr version_guard_def present_def
          split: option.splits Value.splits)
    show ?case using Cons.IH [OF rest] v by (cases "f \<in> set fs") auto
  qed simp
  then show "gs' = gs @ map (version_guard existing) fields'"
    "\<forall>f \<in> set fields'. \<exists>v. next_version x (fm_get existing f) = Inr v \<and> fm_get nx' f = Some v"
    "\<forall>f. f \<notin> set fields' \<longrightarrow> fm_get nx' f = fm_get nx f" "fm_ok nx \<Longrightarrow> fm_ok nx'"
    by blast+
qed

lemma lock_of_eq:
  assumes "lock_of x a existing = Inr (Some l)"
  shows "mem_admits y reg m r tenant (lk_guard l) row \<longleftrightarrow>
      (\<forall>f \<in> set (optimistic_locks a). mem_admits y reg m r tenant (version_guard existing f) row)"
    and "\<forall>f \<in> set (optimistic_locks a). \<exists>v. next_version x (fm_get existing f) = Inr v \<and> fm_get (lk_next l) f = Some v"
    and "optimistic_locks a \<noteq> []" "fm_ok (lk_next l)"
    and "g \<notin> set (optimistic_locks a) \<Longrightarrow> fm_get (lk_next l) g = None"
proof -
  obtain gs nx where f: "foldE (lock_field x existing) ([], []) (optimistic_locks a) = Inr (gs, nx)"
    and l: "(case gs of [] \<Rightarrow> None | [g] \<Rightarrow> Some \<lparr>lk_guard = g, lk_next = nx\<rparr>
      | _ \<Rightarrow> Some \<lparr>lk_guard = filter_and gs, lk_next = nx\<rparr>) = Some l"
    using assms by (auto simp: lock_of_def bindE_eq_Inr)
  have gs: "gs = map (version_guard existing) (optimistic_locks a)" using lock_fields(1) [OF f] by simp
  have nx: "lk_next l = nx" using l by (auto split: list.splits)
  show "\<forall>f \<in> set (optimistic_locks a). \<exists>v. next_version x (fm_get existing f) = Inr v \<and> fm_get (lk_next l) f = Some v"
    using lock_fields(2) [OF f] nx by simp
  show "g \<notin> set (optimistic_locks a) \<Longrightarrow> fm_get (lk_next l) g = None" using lock_fields(3) [OF f] nx by simp
  show "fm_ok (lk_next l)" using lock_fields(4) [OF f] nx by (simp add: fm_ok_def)
  show "optimistic_locks a \<noteq> []" using l gs by auto
  have "mem_admits y reg m r tenant (lk_guard l) row \<longleftrightarrow> (\<forall>g \<in> set gs. mem_admits y reg m r tenant g row)"
    using l by (auto split: list.splits simp: mem_finding.admits_and)
  then show "mem_admits y reg m r tenant (lk_guard l) row \<longleftrightarrow>
      (\<forall>f \<in> set (optimistic_locks a). mem_admits y reg m r tenant (version_guard existing f) row)"
    by (simp add: gs)
qed

lemma version_guard_admits:
  "mem_admits x reg m r tenant (version_guard existing f) row \<longleftrightarrow> same_version x r existing row f"
  using present_not_null [of existing f]
  by (auto simp: mem_admits_def row_matches_filter_def version_guard_def same_version_def split: option.split)

section \<open>Two writers of one version\<close>

definition sample_versioned :: resource_def where
  "sample_versioned = sample_resource
     \<lparr>r_attributes := [uuid_pk ''id'', attr_required ''title'' TString, attr_required ''version'' TInteger]\<rparr>"

definition sample_edit :: action_def where
  "sample_edit = (update_action ''edit'')\<lparr>act_changes := [OptimisticLock ''version'']\<rparr>"

definition sample_row :: "string \<Rightarrow> i64 \<Rightarrow> fields" where
  "sample_row title version = [(''id'', VUuid 1), (''title'', VString title), (''version'', VInt version)]"

definition sample_store :: "string \<Rightarrow> i64 \<Rightarrow> memory" where
  "sample_store title version = from_tables [(''Post'', [(VUuid 1, sample_row title version)])]"

definition sample_lock :: lock where
  "sample_lock = \<lparr>lk_guard = FEq ''version'' (VInt 1), lk_next = [(''version'', VInt 2)]\<rparr>"

definition sample_write :: "string \<Rightarrow> (memory, fields) operation" where
  "sample_write title = update_guarded (memory_layer sample_external [sample_versioned]) context_new sample_versioned
     (VUuid 1) [(''title'', VString title)] (Some sample_lock)"

lemma sample_lock_of: "lock_of sample_external sample_edit (sample_row ''a'' 1) = Inr (Some sample_lock)"
  by code_simp

lemma sample_first:
  "sample_write ''b'' (world_of (sample_store ''a'' 1)) = (Inr (sample_row ''b'' 2), world_of (sample_store ''b'' 2))"
  by code_simp

lemma sample_second:
  "sample_write ''c'' (world_of (sample_store ''b'' 2)) =
     (Inl (EStaleRecord ''Post'' (VUuid 1)), world_of (sample_store ''b'' 2))"
  by code_simp

lemma sample_plain:
  "guarded_query None sample_versioned (VUuid 1) (FEq ''version'' (VInt 1)) = Inr q \<Longrightarrow> plain_query sample_versioned q"
proof -
  have "case guarded_query None sample_versioned (VUuid 1) (FEq ''version'' (VInt 1)) of
      Inr q \<Rightarrow> plain_query sample_versioned q | Inl _ \<Rightarrow> True" by code_simp
  then show "guarded_query None sample_versioned (VUuid 1) (FEq ''version'' (VInt 1)) = Inr q \<Longrightarrow>
      plain_query sample_versioned q" by simp
qed

text \<open>
  C17: An update under an optimistic lock lands only on a stored record with its key
  that still holds every lock version the writer read.
\<close>

theorem locked_update_is_current:
  assumes "lock_of x a existing = Inr (Some l)"
    and "update_guarded (memory_layer x reg) ctx r key fs (Some l) w = (Inr row, w')"
    and "pk_name r = Inr pk"
    and "\<forall>q. guarded_query (ctx_tenant ctx) r key (lk_guard l) = Inr q \<longrightarrow> plain_query r q"
  shows "\<exists>before \<in> set (tb_rows (table_or_default (mem_store (w_data w)) (table_key r (ctx_tenant ctx)))).
    row_matches_filter x reg (mem_store (w_data w)) (ctx_tenant ctx) r (FEq pk key) before \<and>
    (\<forall>f \<in> set (optimistic_locks a). same_version x r existing before f)"
  using mem_finding.update_guarded_found [OF assms(2,3)] assms(4)
  by (auto simp: mem_finding.found_def mem_stored_def lock_of_eq(1) [OF assms(1)] version_guard_admits)
    (auto simp: mem_admits_def)

lemma locked_update_is_current_witness:
  "\<exists>before \<in> set (tb_rows (table_or_default (mem_store (sample_store ''a'' 1)) ''Post'')).
     same_version sample_external sample_versioned (sample_row ''a'' 1) before ''version''"
proof -
  have run: "update_guarded (memory_layer sample_external [sample_versioned]) context_new sample_versioned (VUuid 1)
      [(''title'', VString ''b'')] (Some sample_lock) (world_of (sample_store ''a'' 1)) =
      (Inr (sample_row ''b'' 2), world_of (sample_store ''b'' 2))"
    using sample_first by (simp add: sample_write_def)
  have pk: "pk_name sample_versioned = Inr ''id''" and tk: "table_key sample_versioned None = ''Post''"
    and ol: "optimistic_locks sample_edit = [''version'']" by code_simp+
  have "\<forall>q. guarded_query (ctx_tenant context_new) sample_versioned (VUuid 1) (lk_guard sample_lock) = Inr q \<longrightarrow>
      plain_query sample_versioned q"
    using sample_plain by (simp add: context_new_def sample_lock_def)
  from locked_update_is_current [OF sample_lock_of run pk this] show ?thesis
    by (auto simp: ol context_new_def tk world_of_def)
qed

section \<open>The second of two writers\<close>

lemma next_version_differs:
  assumes "next_version x (fm_get existing f) = Inr v" "fm_get row f = Some v"
    and "\<forall>n. fm_get existing f \<noteq> Some (VFloat n)"
  shows "\<not> same_version x r existing row f"
proof (cases "fm_get existing f")
  case None
  then show ?thesis using assms by (auto simp: next_version_def same_version_def present_def)
next
  case (Some u)
  have wrap: "word_of_int (sint n + 1) \<noteq> n" for n :: i64 by simp
  have num: "\<not> same_value x ty v u" if "u \<noteq> VNull" for ty
  proof (cases "\<exists>n. u = VInt n")
    case True
    then show ?thesis using assms(1) Some
      by (auto simp: next_version_def bindE_eq_Inr i64_add_def i64_result_def same_value_def compare_typed_not_text
          wrap split: if_splits)
  next
    case False
    then have "v = VInt 1" using assms(1) Some by (cases u) (auto simp: next_version_def)
    then show ?thesis using False that assms(3) Some
      by (cases u) (auto simp: same_value_def compare_typed_not_text lin_cmp_def)
  qed
  show ?thesis
  proof (cases "u = VNull")
    case True
    then show ?thesis using assms Some by (auto simp: next_version_def same_version_def present_def)
  next
    case False
    then have "present existing f = Some u" using Some by (cases u) (simp_all add: present_def)
    then show ?thesis using num [OF False] assms(2) by (cases v) (auto simp: same_version_def present_def)
  qed
qed

lemma update_set_names [simp]: "fst ` set (au_set (update_set u f e)) = insert f (fst ` set (au_set u))"
  and update_set_conditions [simp]: "au_conditions (update_set u f e) = au_conditions u"
  by (force simp: update_set_def)+

definition set_each :: "fields \<Rightarrow> atomic_update \<Rightarrow> atomic_update" where
  "set_each fs u = fold (\<lambda>(name, value) u. update_set u name (AtValue value)) fs u"

lemma set_each_simps [simp]:
  "set_each [] u = u"
  "set_each ((f, v) # fs) u = set_each fs (update_set u f (AtValue v))"
  by (simp_all add: set_each_def)

lemma set_each_names: "fst ` set (au_set (set_each fs u)) = fst ` set (au_set u) \<union> fst ` set fs"
proof (induction fs arbitrary: u)
  case (Cons e fs)
  then show ?case by (cases e) simp
qed simp

lemma set_each_ok: "update_ok u \<Longrightarrow> update_ok (set_each fs u)"
  by (induction fs arbitrary: u) auto

lemma set_each_conditions: "au_conditions (set_each fs u) = au_conditions u"
  by (induction fs arbitrary: u) auto

lemma set_each_value:
  "fm_ok fs \<Longrightarrow> update_value_of (set_each fs u) f =
     (case fm_get fs f of Some v \<Rightarrow> AtValue v | None \<Rightarrow> update_value_of u f)"
proof (induction fs arbitrary: u)
  case (Cons e fs)
  obtain a b where e: "e = (a, b)" by (cases e)
  then have "fm_ok fs" "fm_get fs a = None" using Cons.prems by (auto simp: fm_ok_def fm_get_None_iff)
  then show ?case using Cons.IH by (auto simp: e split: option.splits)
qed simp

lemma set_values_facts:
  "fst ` set (au_set (set_values fs)) = fst ` set fs"
  "update_ok (set_values fs)"
  "au_conditions (set_values fs) = []"
  "fm_ok fs \<Longrightarrow> fm_get fs f = Some v \<Longrightarrow> update_value_of (set_values fs) f = AtValue v"
proof -
  have e: "set_values fs = set_each fs empty_update" for fs by (simp add: set_values_def set_each_def)
  show "fst ` set (au_set (set_values fs)) = fst ` set fs" "update_ok (set_values fs)"
    "au_conditions (set_values fs) = []"
    "fm_ok fs \<Longrightarrow> fm_get fs f = Some v \<Longrightarrow> update_value_of (set_values fs) f = AtValue v"
    by (simp_all add: e set_each_names set_each_conditions set_each_ok set_each_value, simp_all add: empty_update_def)
qed

lemma memory_layer_atomic [simp]:
  "dl_can_update_atomically (memory_layer x reg) r"
  "dl_update_atomic (memory_layer x reg) = mem_update_atomic x reg"
  by (simp_all add: memory_layer_def default_layer_def)

text \<open>An atomic update of at most one row in the memory layer: the row it found and what it made of it.\<close>

lemma update_one_memory:
  assumes u: "mem_update_atomic x reg m r q u = (Inr rows, m')"
    and q: "plain_query r q" "q_limit q = Some 1"
    and t: "t = table_or_default (mem_store m) (table_key r (q_tenant q))"
  obtains "rows = []"
  | before changed where "before \<in> set (tb_rows t)"
      "\<forall>f. q_filter q = Some f \<longrightarrow> mem_admits x reg m r (q_tenant q) f before"
      "update_apply x r (row_matches_filter x reg (mem_store m) (q_tenant q) r) u before = Inr changed"
      "rows = [stored_only r changed]" "check_updated x r t (stored_only r changed) = Inr ()"
      "mem_store m' = fm_insert (table_key r (q_tenant q)) (store_updated r (stored_only r changed) t) (mem_store m)"
proof -
  let ?kept = "keep_matching x reg (mem_store m) (q_tenant q) r (q_filter q) (tb_rows t)"
  let ?flt = "row_matches_filter x reg (mem_store m) (q_tenant q) r"
  have sel: "selected_rows x reg (mem_store m) r q = Inr (take 1 ?kept)"
    using selected_plain [OF q(1), of x reg "mem_store m"] by (simp add: q(2) t page_rows_def)
  show ?thesis
  proof (cases "take 1 ?kept")
    case Nil
    then show ?thesis
      using u that(1) by (auto simp: mem_update_atomic_def with_write_def Let_def sel split: if_splits sum.splits)
  next
    case (Cons b bs)
    then have bs: "bs = []" and b: "b \<in> set ?kept" by (cases ?kept; auto)+
    have "b \<in> set (tb_rows t)" "\<forall>f. q_filter q = Some f \<longrightarrow> mem_admits x reg m r (q_tenant q) f b"
      using b by (auto simp: keep_matching_def mem_admits_def split: option.splits)
    then show ?thesis
      using u Cons bs t
      by (intro that(2) [of b "case update_apply x r ?flt u b of Inr c \<Rightarrow> c | Inl _ \<Rightarrow> []"])
        (auto simp: mem_update_atomic_def with_write_def Let_def sel bindE_eq_Inr split: if_splits sum.splits
          dest: arg_cong [where f = mem_store])
  qed
qed

text \<open>What a guarded update of the memory layer leaves: one row found under the guard, and it alone rewritten.\<close>

lemma update_guarded_memory:
  assumes run: "update_guarded (memory_layer x reg) ctx r key fs (Some l) w = (Inr row, w')"
    and q: "guarded_query (ctx_tenant ctx) r key (lk_guard l) = Inr q" "plain_query r q"
    and t: "t = table_or_default (mem_store (w_data w)) (table_key r (ctx_tenant ctx))"
  obtains before pk where "before \<in> set (tb_rows t)"
    "\<forall>f. q_filter q = Some f \<longrightarrow> mem_admits x reg (w_data w) r (ctx_tenant ctx) f before"
    "\<forall>f. f \<notin> fst ` set (fm_extend fs (lk_next l)) \<longrightarrow> attribute r f \<noteq> None \<longrightarrow> fm_get row f = fm_get before f"
    "\<forall>f v. fm_ok (fm_extend fs (lk_next l)) \<longrightarrow> fm_get (fm_extend fs (lk_next l)) f = Some v \<longrightarrow>
       attribute r f \<noteq> None \<longrightarrow> fm_get row f = Some v"
    "present row (pk_or_id r) = Some pk"
    "table_or_default (mem_store (w_data w')) (table_key r (ctx_tenant ctx)) = tb_insert pk row t"
proof -
  let ?fs = "fm_extend fs (lk_next l)" and ?m = "w_data w"
  have tenant: "q_tenant q = ctx_tenant ctx" "q_limit q = Some 1"
    using q(1) by (auto simp: guarded_query_def bindE_eq_Inr apply_tenant_scope_def by_id_query_def default_query_def split: if_splits)
  obtain rows m' where u: "mem_update_atomic x reg ?m r q (set_values ?fs) = (Inr rows, m')"
    and rows: "case rev rows of stored # _ \<Rightarrow> row = stored | [] \<Rightarrow> False" "w_data w' = m'"
  proof -
    obtain rows w1 where "writing (\<lambda>d. mem_update_atomic x reg d r q (set_values ?fs)) w = (Inr rows, w1)"
      and "(case rev rows of stored # _ \<Rightarrow> give stored | [] \<Rightarrow> fail_stale (memory_layer x reg) ctx r key) w1 = (Inr row, w')"
      using run by (auto simp: update_guarded_def q(1) bindS_eq_Inr)
    then show thesis by (intro that [of rows]) (auto simp: writing_eq give_def split: list.splits)
  qed
  obtain before changed where b: "before \<in> set (tb_rows t)"
      "\<forall>f. q_filter q = Some f \<longrightarrow> mem_admits x reg ?m r (ctx_tenant ctx) f before"
    and changed: "update_apply x r (row_matches_filter x reg (mem_store ?m) (ctx_tenant ctx) r) (set_values ?fs) before = Inr changed"
    and row: "row = stored_only r changed"
    and check: "check_updated x r t row = Inr ()"
    and m': "mem_store m' = fm_insert (table_key r (ctx_tenant ctx)) (store_updated r row t) (mem_store ?m)"
  proof (rule update_one_memory [OF u q(2) tenant(2), unfolded tenant(1), OF t])
    assume "rows = []"
    then show ?thesis using rows(1) by simp
  qed (use rows(1) that in auto)
  obtain pk where pk: "present row (pk_or_id r) = Some pk"
    using check by (auto simp: check_updated_def bindE_eq_Inr ok_or_def split: option.splits)
  have get: "fm_get row f = fm_get changed f" if "attribute r f \<noteq> None" for f
    using that unfolding row stored_only_def by (induction changed) auto
  show ?thesis
  proof (rule that)
    show "before \<in> set (tb_rows t)" by (rule b(1))
    show "\<forall>f. q_filter q = Some f \<longrightarrow> mem_admits x reg ?m r (ctx_tenant ctx) f before" by (rule b(2))
    show "\<forall>f. f \<notin> fst ` set ?fs \<longrightarrow> attribute r f \<noteq> None \<longrightarrow> fm_get row f = fm_get before f"
      using update_apply_value(2) [OF changed set_values_facts(2)] by (simp add: get set_values_facts(1))
    show "\<forall>f v. fm_ok ?fs \<longrightarrow> fm_get ?fs f = Some v \<longrightarrow> attribute r f \<noteq> None \<longrightarrow> fm_get row f = Some v"
    proof (intro allI impI)
      fix f v assume f: "fm_ok ?fs" "fm_get ?fs f = Some v" "attribute r f \<noteq> None"
      then have "f \<in> fst ` set (au_set (set_values ?fs))"
        by (metis fm_get_None_iff option.distinct(1) set_values_facts(1))
      then have "fm_get changed f \<noteq> None" by (rule update_apply_value(3) [OF changed set_values_facts(2)])
      moreover have "or_null (fm_get changed f) = v"
        using update_apply_value(1) [OF changed set_values_facts(2), of f] set_values_facts(4) [OF f(1,2)] by simp
      ultimately show "fm_get row f = Some v" using get [OF f(3)] by (auto simp: or_null_def)
    qed
    show "present row (pk_or_id r) = Some pk" by (rule pk)
    show "table_or_default (mem_store (w_data w')) (table_key r (ctx_tenant ctx)) = tb_insert pk row t"
      by (simp add: rows(2) m' table_or_default_def store_updated_def pk)
  qed
qed

text \<open>Rows are stored under their keys, and a key names one row.\<close>

definition keyed_rows :: "resource_def \<Rightarrow> mem_table \<Rightarrow> bool" where
  "keyed_rows r t \<longleftrightarrow> keys_apart t \<and> (\<forall>(k, row) \<in> set t. case present row (pk_or_id r) of Some v \<Rightarrow> value_eq v k | None \<Rightarrow> False)"

definition names_one_row :: "external \<Rightarrow> resource_def \<Rightarrow> string \<Rightarrow> Value \<Rightarrow> mem_table \<Rightarrow> bool" where
  "names_one_row x r pk key t \<longleftrightarrow> (\<forall>a \<in> set t. \<forall>b \<in> set t.
     (\<forall>e \<in> {a, b}. \<exists>v. present (snd e) pk = Some v \<and> same_value x (column_type r pk) v key) \<longrightarrow> fst a = fst b)"

lemma admits_eq:
  "mem_admits x reg m r tenant (FEq pk key) row \<Longrightarrow> present row pk \<noteq> None \<Longrightarrow>
   \<exists>v. present row pk = Some v \<and> same_value x (column_type r pk) v key"
  by (auto simp: mem_admits_def row_matches_filter_def split: option.splits if_splits)

text \<open>
  C5: Of two writers that read a record at the same version of an optimistic lock, the one
  that writes second is refused: the first moved the version on.
\<close>

theorem lost_update_refused:
  assumes lock: "lock_of x a existing = Inr (Some l)"
    and first: "update_guarded (memory_layer x reg) ctx r key fs (Some l) w = (Inr row, w')"
    and second: "update_guarded (memory_layer x reg) ctx r key fs' (Some l) w' = (result, w'')"
    and pk: "pk_name r = Inr pk" "pk \<notin> fst ` set fs \<union> set (optimistic_locks a)" "attribute r pk \<noteq> None"
    and f: "f \<in> set (optimistic_locks a)" "attribute r f \<noteq> None" "\<forall>n. fm_get existing f \<noteq> Some (VFloat n)"
    and t: "t = table_or_default (mem_store (w_data w)) (table_key r (ctx_tenant ctx))"
    and rows: "keyed_rows r t" "names_one_row x r pk key t" "fm_ok fs"
    and plain: "\<forall>q. guarded_query (ctx_tenant ctx) r key (lk_guard l) = Inr q \<longrightarrow> plain_query r q"
  shows "\<exists>e. result = Inl e"
proof (rule ccontr)
  assume "\<nexists>e. result = Inl e"
  then obtain row2 where row2: "result = Inr row2" by (cases result) auto
  obtain q where q: "guarded_query (ctx_tenant ctx) r key (lk_guard l) = Inr q" "plain_query r q"
    using first plain by (auto simp: update_guarded_def Let_def split: sum.splits)
  obtain before pkv where b: "before \<in> set (tb_rows t)"
    "\<forall>f. q_filter q = Some f \<longrightarrow> mem_admits x reg (w_data w) r (ctx_tenant ctx) f before"
    "\<forall>g. g \<notin> fst ` set (fm_extend fs (lk_next l)) \<longrightarrow> attribute r g \<noteq> None \<longrightarrow> fm_get row g = fm_get before g"
    "\<forall>g v. fm_ok (fm_extend fs (lk_next l)) \<longrightarrow> fm_get (fm_extend fs (lk_next l)) g = Some v \<longrightarrow>
       attribute r g \<noteq> None \<longrightarrow> fm_get row g = Some v"
    "present row (pk_or_id r) = Some pkv"
    "table_or_default (mem_store (w_data w')) (table_key r (ctx_tenant ctx)) = tb_insert pkv row t"
    by (rule update_guarded_memory [OF first q t])
  have tenant: "q_tenant q = ctx_tenant ctx"
    using q(1) by (auto simp: guarded_query_def bindE_eq_Inr apply_tenant_scope_def by_id_query_def split: if_splits)
  have key: "mem_admits x reg (w_data w) r (ctx_tenant ctx) (FEq pk key) before"
    using mem_finding.guarded_query_admits(2) [OF q(1) pk(1)] b(2) tenant by metis
  obtain again where again: "again \<in> set (tb_rows (tb_insert pkv row t))"
    "mem_admits x reg (w_data w') r (ctx_tenant ctx) (FEq pk key) again" "same_version x r existing again f"
    using mem_finding.update_guarded_found [OF second [unfolded row2] pk(1)] plain f(1)
    by (auto simp: mem_finding.found_def mem_stored_def b(6) lock_of_eq(1) [OF lock] version_guard_admits)
  obtain v where v: "next_version x (fm_get existing f) = Inr v" "fm_get (lk_next l) f = Some v"
    using lock_of_eq(2) [OF lock] f(1) by blast
  have ok: "fm_ok (fm_extend fs (lk_next l))" "fm_get (fm_extend fs (lk_next l)) f = Some v"
    using rows(3) lock_of_eq(4) [OF lock] v(2) by (simp_all add: fm_get_extend)
  have pkcol: "pk_or_id r = pk" using pk(1) by (auto simp: pk_name_def pk_or_id_def ok_or_def split: option.splits)
  have "fm_get (lk_next l) pk = None" using lock_of_eq(5) [OF lock, of pk] pk(2) by blast
  moreover have "fm_get fs pk = None" using pk(2) by (simp add: fm_get_None_iff)
  ultimately have "fm_get (fm_extend fs (lk_next l)) pk = None"
    using lock_of_eq(4) [OF lock] by (simp add: fm_get_extend)
  then have "pk \<notin> fst ` set (fm_extend fs (lk_next l))" by (simp only: fm_get_None_iff not_False_eq_True)
  then have same: "fm_get row pk = fm_get before pk" using b(3) pk(3) by blast
  show False
  proof (cases "again = row")
    case True
    then show False using next_version_differs [OF v(1) _ f(3)] b(4) ok f(2) again(3) by blast
  next
    case False
    obtain k where k: "(k, before) \<in> set t" using b(1) by (auto simp: tb_rows_def)
    obtain k' where k': "(k', again) \<in> set t" "\<not> value_eq k' pkv"
      using again(1) False in_tb_insert [of t] rows(1) by (fastforce simp: tb_rows_def keyed_rows_def)
    have "present before pk \<noteq> None" "present again pk \<noteq> None"
      using rows(1) k k'(1) pkcol by (auto simp: keyed_rows_def split: option.splits)
    then have "k = k'" using rows(2) k k'(1) admits_eq [OF key] admits_eq [OF again(2)]
      unfolding names_one_row_def by force
    moreover have "value_eq pkv k"
      using rows(1) k b(5) same pkcol by (auto simp: keyed_rows_def present_def)
    ultimately show False using k'(2) value_eq_sym by blast
  qed
qed

lemma lost_update_refused_witness:
  "\<exists>e. fst (sample_write ''c'' (world_of (sample_store ''b'' 2))) = Inl e"
proof -
  let ?t = "[(VUuid 1, sample_row ''a'' 1)]"
  have run: "update_guarded (memory_layer sample_external [sample_versioned]) context_new sample_versioned (VUuid 1)
      [(''title'', VString ''b'')] (Some sample_lock) (world_of (sample_store ''a'' 1)) =
      (Inr (sample_row ''b'' 2), world_of (sample_store ''b'' 2))"
    using sample_first by (simp add: sample_write_def)
  have again: "update_guarded (memory_layer sample_external [sample_versioned]) context_new sample_versioned (VUuid 1)
      [(''title'', VString ''c'')] (Some sample_lock) (world_of (sample_store ''b'' 2)) =
      (fst (sample_write ''c'' (world_of (sample_store ''b'' 2))), snd (sample_write ''c'' (world_of (sample_store ''b'' 2))))"
    by (simp add: sample_write_def)
  have pk: "pk_name sample_versioned = Inr ''id''" and tk: "table_key sample_versioned None = ''Post''"
    and ol: "optimistic_locks sample_edit = [''version'']"
    and at: "attribute sample_versioned ''id'' \<noteq> None" "attribute sample_versioned ''version'' \<noteq> None"
    and kr: "keyed_rows sample_versioned ?t" by code_simp+
  have t: "?t = table_or_default (mem_store (w_data (world_of (sample_store ''a'' 1)))) (table_key sample_versioned (ctx_tenant context_new))"
    by (simp add: context_new_def tk world_of_def sample_store_def from_tables_def table_or_default_def)
  have plain: "\<forall>q. guarded_query (ctx_tenant context_new) sample_versioned (VUuid 1) (lk_guard sample_lock) = Inr q \<longrightarrow>
      plain_query sample_versioned q"
    using sample_plain by (simp add: context_new_def sample_lock_def)
  show ?thesis
    by (rule lost_update_refused [OF sample_lock_of run again pk _ at(1) _ at(2) _ t kr _ _ plain])
      (simp_all add: ol names_one_row_def sample_row_def fm_ok_def)
qed

end
