(* ===== verification/AshPlan.thy ===== *)
theory AshPlan
  imports AshLock
begin

text \<open>
  Updates and destroys as one statement (\<open>crates/ash-core/src/engine/atomic.rs\<close>): the plan of
  an action as an atomic update with its conditions, the query that finds its record, and
  why a guarded one changed nothing.
\<close>

section \<open>Plans\<close>

record guards =
  gd_versions :: "(string \<times> i64) list"
  gd_policy :: "Filter option"

definition no_guards :: guards where
  "no_guards = \<lparr>gd_versions = [], gd_policy = None\<rparr>"

record atomic_plan =
  pl_update :: atomic_update
  pl_guards :: guards
  pl_after_actions :: "field_hook list"
  pl_after_transactions :: "transaction_hook list"

definition guards_filter :: "guards \<Rightarrow> Filter option" where
  "guards_filter g =
     (case map (\<lambda>(field, expected). FEq field (VInt expected)) (gd_versions g) @ opt_list (gd_policy g) of
        [] \<Rightarrow> None
      | [f] \<Rightarrow> Some f
      | fs \<Rightarrow> Some (filter_and fs))"

text \<open>Why an update these guards filtered changed nothing.\<close>

definition guards_unchanged ::
    "'d data_layer \<Rightarrow> ash_context \<Rightarrow> resource_def \<Rightarrow> Value \<Rightarrow> guards \<Rightarrow> 'd \<Rightarrow> error" where
  "guards_unchanged dl ctx r key g d =
     (case bindE (pk_name r) (\<lambda>pk. apply_tenant_scope r (Some (FEq pk key)) (ctx_tenant ctx)) of
        Inl _ \<Rightarrow> ENotFound
      | Inr (f, tenant) \<Rightarrow>
          (case dl_run_query dl d r (by_id_query f tenant) of
             Inl err \<Rightarrow> err
           | Inr [] \<Rightarrow> ENotFound
           | Inr (row # _) \<Rightarrow>
               if list_ex (\<lambda>(field, expected). Option.bind (fm_get row field) as_int \<noteq> Some expected) (gd_versions g)
               then EStaleRecord (r_name r) key
               else if gd_policy g \<noteq> None then EForbidden else ENotFound))"

definition finding_read :: "resource_def \<Rightarrow> action_def \<Rightarrow> action_def option res" where
  "finding_read r action =
     (case act_atomic_upgrade_with action of
        Some name \<Rightarrow> bindE (ok_or (action_of r name) (EUnknownAction (r_name r) name)) (\<lambda>read. Inr (Some read))
      | None \<Rightarrow> Inr (primary_read r))"

definition read_scope :: "resource_def \<Rightarrow> action_def option \<Rightarrow> actor option \<Rightarrow> Filter option res" where
  "read_scope r read actor =
     (case read of
        None \<Rightarrow> Inr None
      | Some read \<Rightarrow> bindE (compile_read_filter r read actor) (\<lambda>policies.
          Inr (Some (filter_and (opt_list (read_filter read) @ opt_list policies)))))"

definition atomic_query ::
    "ash_context \<Rightarrow> resource_def \<Rightarrow> action_def \<Rightarrow> Value \<Rightarrow> Filter option \<Rightarrow> compiled_query res" where
  "atomic_query ctx r action key scope =
     bindE (pk_name r) (\<lambda>pk.
     bindE (apply_tenant_scope r (Some (FEq pk key)) (ctx_tenant ctx)) (\<lambda>(f, tenant).
     bindE (case scope of
              Some scope \<Rightarrow> Inr (and_filters f (Some scope))
            | None \<Rightarrow> bindE (finding_read r action) (\<lambda>read. Inr (and_filters f (Option.bind read read_filter)))) (\<lambda>f.
       Inr (default_query\<lparr>q_filter := f, q_tenant := tenant, q_actor := ctx_actor ctx, q_limit := Some 1\<rparr>))))"

definition first_row :: "fields list \<Rightarrow> fields option" where
  "first_row rows = (case rows of [] \<Rightarrow> None | row # _ \<Rightarrow> Some row)"

definition run_atomic_update ::
    "'d data_layer \<Rightarrow> ash_context \<Rightarrow> resource_def \<Rightarrow> action_def \<Rightarrow> Value \<Rightarrow> atomic_update \<Rightarrow> Filter option \<Rightarrow>
     Filter option \<Rightarrow> ('d, fields option) operation" where
  "run_atomic_update dl ctx r action key u guard scope =
     bindS (lift_res (atomic_query ctx r action key scope)) (\<lambda>q.
     bindS (writing (\<lambda>d. dl_update_atomic dl d r (q\<lparr>q_filter := and_filters (q_filter q) guard\<rparr>) u)) (\<lambda>rows.
       give (first_row rows)))"

definition run_atomic_destroy ::
    "'d data_layer \<Rightarrow> ash_context \<Rightarrow> resource_def \<Rightarrow> action_def \<Rightarrow> Value \<Rightarrow> atomic_condition list \<Rightarrow>
     Filter option \<Rightarrow> ('d, fields option) operation" where
  "run_atomic_destroy dl ctx r action key conditions scope =
     bindS (lift_res (atomic_query ctx r action key scope)) (\<lambda>q.
     bindS (writing (\<lambda>d. dl_destroy_atomic dl d r q conditions)) (\<lambda>rows.
       give (first_row rows)))"

section \<open>Built-in validations as conditions\<close>

fun is_text_field :: "resource_def \<Rightarrow> atomic_expr \<Rightarrow> bool" where
  "is_text_field r (AtField name) =
     (case attribute r name of Some a \<Rightarrow> a_ty a = TString \<or> a_ty a = TCiString | None \<Rightarrow> False)"
| "is_text_field r _ = False"

definition validation_condition :: "validation \<Rightarrow> atomic_expr \<Rightarrow> atomic_condition" where
  "validation_condition vl fails =
     failing_with fails (case validation_error vl of Some e \<Rightarrow> e | None \<Rightarrow> EPanic ''a built-in validation'')"

fun builtin_conditions :: "resource_def \<Rightarrow> validation \<Rightarrow> atomic_expr \<Rightarrow> atomic_condition list" where
  "builtin_conditions r (Present field) v =
     [validation_condition (Present field)
        (if is_text_field r v then AtOr [AtIsNil v, AtEq (AtTrim v) (AtValue (VString ''''))] else AtIsNil v)]"
| "builtin_conditions r (StringLength field lo hi) v =
     (if is_text_field r v then
        (case lo of Some m \<Rightarrow> [validation_condition (StringLength field lo hi)
           (AtLt (AtStringLength v) (AtValue (VInt (word_of_nat m))))] | None \<Rightarrow> []) @
        (case hi of Some m \<Rightarrow> [validation_condition (StringLength field lo hi)
           (AtGt (AtStringLength v) (AtValue (VInt (word_of_nat m))))] | None \<Rightarrow> [])
      else [])"
| "builtin_conditions r (OneOf field allowed) v =
     [validation_condition (OneOf field allowed) (AtNot (AtIn v (map VString allowed)))]"
| "builtin_conditions r (Numericality field lo hi) v =
     (case lo of Some m \<Rightarrow> [validation_condition (Numericality field lo hi) (AtLt v (AtValue (VInt m)))] | None \<Rightarrow> []) @
     (case hi of Some m \<Rightarrow> [validation_condition (Numericality field lo hi) (AtGt v (AtValue (VInt m)))] | None \<Rightarrow> [])"
| "builtin_conditions r _ v = []"

section \<open>Planning\<close>

text \<open>A step of planning fails, or finds that the action can't be planned and why, or goes on.\<close>

type_synonym 'a planned = "(string + 'a) res"

definition bindP :: "'a planned \<Rightarrow> ('a \<Rightarrow> 'b planned) \<Rightarrow> 'b planned" where
  "bindP m f = bindE m (\<lambda>p. case p of Inl reason \<Rightarrow> Inr (Inl reason) | Inr a \<Rightarrow> f a)"

definition planned :: "'a \<Rightarrow> 'a planned" where
  "planned a = Inr (Inr a)"

definition cannot_plan :: "string \<Rightarrow> 'a planned" where
  "cannot_plan reason = Inr (Inl reason)"

fun foldP :: "('s \<Rightarrow> 'a \<Rightarrow> 's planned) \<Rightarrow> 's \<Rightarrow> 'a list \<Rightarrow> 's planned" where
  "foldP f s [] = planned s"
| "foldP f s (a # as) = bindP (f s a) (\<lambda>s'. foldP f s' as)"

definition plan_fails :: "error \<Rightarrow> 'a planned" where
  "plan_fails e = Inl e"

record plan_input =
  pi_actor :: "actor option"
  pi_tenant :: "string option"
  pi_sets :: fields
  pi_arguments :: fields
  pi_expected_versions :: "(Value \<times> (string \<times> i64) list) option"
  pi_collect_hooks :: bool
  pi_can_raise :: bool

definition add_part :: "atomic_update \<Rightarrow> (string \<times> atomic_expr) list \<Rightarrow> atomic_condition list \<Rightarrow> atomic_update" where
  "add_part u sets conditions =
     (let u = fold (\<lambda>(field, e) u. update_set u field e) sets u
      in u\<lparr>au_conditions := au_conditions u @ conditions\<rparr>)"

definition plan_context :: "resource_def \<Rightarrow> plan_input \<Rightarrow> atomic_update \<Rightarrow> atomic_context" where
  "plan_context r inp u =
     \<lparr>atc_resource = r, atc_actor = pi_actor inp, atc_tenant = pi_tenant inp, atc_arguments = pi_arguments inp,
      atc_update = u\<rparr>"

record plan_state =
  ps_update :: atomic_update
  ps_after_actions :: "field_hook list"
  ps_after_transactions :: "transaction_hook list"

definition set_in :: "plan_state \<Rightarrow> string \<Rightarrow> atomic_expr \<Rightarrow> plan_state planned" where
  "set_in s field e = planned (s\<lparr>ps_update := update_set (ps_update s) field e\<rparr>)"

definition set_new_in :: "plan_state \<Rightarrow> string \<Rightarrow> Value \<Rightarrow> plan_state planned" where
  "set_new_in s field v = set_in s field (AtCoalesce [update_value_of (ps_update s) field, AtValue v])"

definition quote_mark :: string where
  "quote_mark = [CHR 0x27]"

fun plan_change :: "atomics \<Rightarrow> resource_def \<Rightarrow> action_def \<Rightarrow> plan_input \<Rightarrow> plan_state \<Rightarrow> change \<Rightarrow> plan_state planned" where
  "plan_change ats r action inp s (OptimisticLock _) = planned s"
| "plan_change ats r action inp s (SetAttribute field v) = set_in s field (AtValue (value_from_const v))"
| "plan_change ats r action inp s (SetAttributeFn field f) = set_in s field (AtValue (f ()))"
| "plan_change ats r action inp s (SetNewAttribute field v) = set_new_in s field (value_from_const v)"
| "plan_change ats r action inp s (SetNewAttributeFn field f) = set_new_in s field (f ())"
| "plan_change ats r action inp s (RelateActor field) =
     (case pi_actor inp of
        Some actor \<Rightarrow> set_in s field (AtValue (VUuid (actor_id actor)))
      | None \<Rightarrow> plan_fails EForbidden)"
| "plan_change ats r action inp s (SetFromArgument field arg) =
     (case fm_get (pi_arguments inp) arg of
        Some v \<Rightarrow> set_in s field (AtValue v)
      | None \<Rightarrow> planned s)"
| "plan_change ats r action inp s (AfterAction hook) =
     planned (if pi_collect_hooks inp then s\<lparr>ps_after_actions := ps_after_actions s @ [hook]\<rparr> else s)"
| "plan_change ats r action inp s (AfterTransaction hook) =
     planned (if pi_collect_hooks inp then s\<lparr>ps_after_transactions := ps_after_transactions s @ [hook]\<rparr> else s)"
| "plan_change ats r action inp s (AtomicUpdateChange field e) =
     (case atomic_from_expr (pi_arguments inp) e of
        Some a \<Rightarrow> set_in s field a
      | None \<Rightarrow> cannot_plan (''its update of `'' @ field @ ''` can'' @ quote_mark @ ''t run in the data layer''))"
| "plan_change ats r action inp s (BeforeAction _) = cannot_plan ''it has a before_action hook''"
| "plan_change ats r action inp s (ManageRelationship _ _) = cannot_plan ''it manages relationships''"
| "plan_change ats r action inp s (FuncChange _) = cannot_plan ''it has a change function''"
| "plan_change ats r action inp s (CustomChange c) =
     (case at_change ats (CustomChange c) action (plan_context r inp (ps_update s)) of
        AtomicPart sets conditions \<Rightarrow> planned (s\<lparr>ps_update := add_part (ps_update s) sets conditions\<rparr>)
      | NotAtomic reason \<Rightarrow> cannot_plan reason)"

definition known_sets :: "atomic_update \<Rightarrow> fields" where
  "known_sets u = List.map_filter (\<lambda>(name, e). map_option (\<lambda>v. (name, v)) (known e)) (au_set u)"

definition set_all :: "fields \<Rightarrow> atomic_update \<Rightarrow> atomic_update" where
  "set_all vs u = fold (\<lambda>(name, v) u. update_set u name (AtValue v)) vs u"

text \<open>A built-in validation of a value known now is checked now; of one the statement computes, in it.\<close>

definition plan_builtin ::
    "external \<Rightarrow> resource_def \<Rightarrow> plan_input \<Rightarrow> string \<Rightarrow> atomic_update \<times> error list \<Rightarrow> validation \<Rightarrow>
     (atomic_update \<times> error list) planned" where
  "plan_builtin x r inp field = (\<lambda>(u, failed) vl.
     let value = context_value_of (plan_context r inp u) field
     in case known value of
          Some v \<Rightarrow> planned (u, failed @ (case check_builtin_validation x vl (Some v) of Inl e \<Rightarrow> [e] | Inr _ \<Rightarrow> []))
        | None \<Rightarrow> planned (u\<lparr>au_conditions := au_conditions u @ builtin_conditions r vl value\<rparr>, failed))"

fun plan_validation ::
    "external \<Rightarrow> atomics \<Rightarrow> resource_def \<Rightarrow> action_def \<Rightarrow> plan_input \<Rightarrow> atomic_update \<times> error list \<Rightarrow> validation \<Rightarrow>
     (atomic_update \<times> error list) planned" where
  "plan_validation x ats r action inp s (Present field) = plan_builtin x r inp field s (Present field)"
| "plan_validation x ats r action inp s (StringLength field lo hi) = plan_builtin x r inp field s (StringLength field lo hi)"
| "plan_validation x ats r action inp s (OneOf field allowed) = plan_builtin x r inp field s (OneOf field allowed)"
| "plan_validation x ats r action inp s (Numericality field lo hi) = plan_builtin x r inp field s (Numericality field lo hi)"
| "plan_validation x ats r action inp s (FuncValidation _) = cannot_plan ''it has a validation function''"
| "plan_validation x ats r action inp (u, failed) (CustomValidation c) =
     (case at_validation ats (CustomValidation c) action (plan_context r inp u) of
        AtomicPart sets conditions \<Rightarrow> planned (add_part u sets conditions, failed)
      | NotAtomic reason \<Rightarrow> cannot_plan reason)"

text \<open>The write policies' condition, or the guard that stands for it where the layer can't raise.\<close>

definition decided :: "Filter \<Rightarrow> bool" where
  "decided f \<longleftrightarrow> f = FTrue \<or> f = FFalse"

definition policy_conditions :: "Filter \<Rightarrow> bool \<Rightarrow> atomic_condition list" where
  "policy_conditions allowed can_raise =
     (if \<not> decided allowed \<and> can_raise then [failing_with (not_true (AtFilter allowed)) EForbidden] else [])"

definition version_conditions :: "resource_def \<Rightarrow> plan_input \<Rightarrow> atomic_condition list" where
  "version_conditions r inp =
     (case pi_expected_versions inp of
        Some (key, expected) \<Rightarrow>
          if pi_can_raise inp
          then map (\<lambda>(version, n). failing_with (AtDistinctFrom (AtField version) (AtValue (VInt n)))
                      (EStaleRecord (r_name r) key)) expected
          else []
      | None \<Rightarrow> [])"

definition plan_guards :: "plan_input \<Rightarrow> Filter \<Rightarrow> guards" where
  "plan_guards inp allowed =
     (if pi_can_raise inp then no_guards
      else \<lparr>gd_versions = (case pi_expected_versions inp of Some (_, expected) \<Rightarrow> expected | None \<Rightarrow> []),
            gd_policy = (if decided allowed then None else Some allowed)\<rparr>)"

definition add_conditions :: "atomic_condition list \<Rightarrow> atomic_update \<Rightarrow> atomic_update" where
  "add_conditions cs u = u\<lparr>au_conditions := au_conditions u @ cs\<rparr>"

text \<open>\<open>updated_at\<close> moves only when a value does.\<close>

definition touch_updated_at :: "string list \<Rightarrow> string option \<Rightarrow> string \<Rightarrow> atomic_update \<Rightarrow> atomic_update" where
  "touch_updated_at locks updated_at now u =
     (case updated_at of
        None \<Rightarrow> u
      | Some field \<Rightarrow>
          let changed = map (\<lambda>(name, e). AtDistinctFrom (AtField name) e) (filter (\<lambda>(name, _). name \<notin> set locks) (au_set u))
          in if changed = [] then u
             else update_set u field (AtIf (AtOr changed) (AtValue (VString now)) (AtField field)))"

definition bump_versions :: "string list \<Rightarrow> atomic_update \<Rightarrow> atomic_update" where
  "bump_versions locks u = fold (\<lambda>v u. update_set u v (AtAdd (AtField v) (AtValue (VInt 1)))) locks u"

definition set_something :: "resource_def \<Rightarrow> atomic_update \<Rightarrow> atomic_update res" where
  "set_something r u =
     (if au_set u = [] then bindE (pk_name r) (\<lambda>pk. Inr (update_set u pk (AtField pk))) else Inr u)"

definition is_hard_destroy :: "action_def \<Rightarrow> bool" where
  "is_hard_destroy action \<longleftrightarrow> act_kind action = Destroy \<and> \<not> act_soft action"

definition acts_on_related :: "resource_def \<Rightarrow> bool" where
  "acts_on_related r \<longleftrightarrow> list_ex (\<lambda>rel. rel_kind_of rel \<in> {HasMany, HasOne} \<and> rel_on_delete rel \<noteq> OnDeleteNothing)
     (r_relationships r)"

text \<open>What an action must be to be planned at all.\<close>

definition plannable :: "resource_def \<Rightarrow> action_def \<Rightarrow> plan_input \<Rightarrow> unit planned" where
  "plannable r action inp =
     (if act_persist action \<noteq> PersistDataLayer then cannot_plan ''the action is manual''
      else if is_hard_destroy action \<and> act_cascade_destroy action \<noteq> [] then cannot_plan ''it cascades to related records''
      else if is_hard_destroy action \<and> acts_on_related r
      then cannot_plan (''its relationships act on related records when it'' @ quote_mark @ ''s deleted'')
      else if optimistic_locks action \<noteq> [] \<and> pi_expected_versions inp = None
      then cannot_plan ''its optimistic lock checks the version the record was read at''
      else planned ())"

text \<open>The values an update sets: the input, then the action's changes, those known now checked.\<close>

definition plan_sets :: "external \<Rightarrow> atomics \<Rightarrow> resource_def \<Rightarrow> action_def \<Rightarrow> plan_input \<Rightarrow> plan_state planned" where
  "plan_sets x ats r action inp =
     (let locks = optimistic_locks action; updated_at = map_option snd (r_timestamps r);
          sets = filter (\<lambda>(name, _). name \<notin> set locks \<and> Some name \<noteq> updated_at) (pi_sets inp)
      in bindE (validate_given x r sets) (\<lambda>sets.
         bindP (foldP (plan_change ats r action inp)
             \<lparr>ps_update = set_all sets empty_update, ps_after_actions = [], ps_after_transactions = []\<rparr>
             (act_changes action)) (\<lambda>s.
         bindE (validate_given x r (known_sets (ps_update s))) (\<lambda>vs.
           planned (s\<lparr>ps_update := set_all vs (ps_update s)\<rparr>)))))"

text \<open>Its conditions: the policies, the validations, the versions.\<close>

definition plan_conditions ::
    "external \<Rightarrow> atomics \<Rightarrow> resource_def \<Rightarrow> action_def \<Rightarrow> plan_input \<Rightarrow> atomic_update \<Rightarrow> atomic_update planned" where
  "plan_conditions x ats r action inp u =
     (let allowed = write_filter r action (pi_actor inp)
      in bindP (foldP (plan_validation x ats r action inp)
             (add_conditions (policy_conditions allowed (pi_can_raise inp)) u, []) (act_validations action)) (\<lambda>(u, failed).
         bindE (collect_errors failed) (\<lambda>_.
           if allowed = FFalse then plan_fails EForbidden
           else let u = add_conditions (version_conditions r inp) u
                in if \<not> pi_can_raise inp \<and> au_conditions u \<noteq> []
                   then cannot_plan (''its validations or policies check the stored record, which the data layer can'' @
                     quote_mark @ ''t raise errors from in its statement'')
                   else planned u)))"

text \<open>What's set last: nothing for a hard destroy; else the lock versions and \<open>updated_at\<close>.\<close>

definition finish_update :: "string \<Rightarrow> resource_def \<Rightarrow> action_def \<Rightarrow> atomic_update \<Rightarrow> atomic_update res" where
  "finish_update now r action u =
     (if is_hard_destroy action then Inr (u\<lparr>au_set := []\<rparr>)
      else let locks = optimistic_locks action
           in set_something r (touch_updated_at locks (map_option snd (r_timestamps r)) now (bump_versions locks u)))"

definition plan_update ::
    "external \<Rightarrow> atomics \<Rightarrow> string \<Rightarrow> resource_def \<Rightarrow> action_def \<Rightarrow> plan_input \<Rightarrow> atomic_plan planned" where
  "plan_update x ats now r action inp =
     bindP (plannable r action inp) (\<lambda>_.
     bindP (plan_sets x ats r action inp) (\<lambda>s.
     bindP (plan_conditions x ats r action inp (ps_update s)) (\<lambda>u.
     bindE (finish_update now r action u) (\<lambda>u.
       planned \<lparr>pl_update = u, pl_guards = plan_guards inp (write_filter r action (pi_actor inp)),
                pl_after_actions = ps_after_actions s, pl_after_transactions = ps_after_transactions s\<rparr>))))"

end
