(* ===== verification/AshPlanFacts.thy ===== *)
theory AshPlanFacts
  imports AshPlan
begin

text \<open>
  What a planned update checks: the write policies and the lock versions, in its statement or
  as guards beside it, and the built-in validations of what it computes.
\<close>

section \<open>Planning step by step\<close>

lemma bindP_eq: "bindP m f = Inr (Inr b) \<longleftrightarrow> (\<exists>a. m = Inr (Inr a) \<and> f a = Inr (Inr b))"
  by (cases m) (auto simp: bindP_def split: sum.split)

lemma planned_eq [simp]: "planned a = Inr (Inr b) \<longleftrightarrow> a = b"
  and cannot_plan_eq [simp]: "cannot_plan reason \<noteq> Inr (Inr b)"
  and plan_fails_eq [simp]: "plan_fails e \<noteq> Inr p"
  by (auto simp: planned_def cannot_plan_def plan_fails_def)

lemma foldP_invariant:
  assumes "foldP f s as = Inr (Inr s')" "P s"
    and "\<And>s a s'. a \<in> set as \<Longrightarrow> P s \<Longrightarrow> f s a = Inr (Inr s') \<Longrightarrow> P s'"
  shows "P s'"
  using assms
proof (induction "as" arbitrary: s)
  case (Cons a "as")
  then obtain s1 where s1: "f s a = Inr (Inr s1)" "foldP f s1 as = Inr (Inr s')" by (auto simp: bindP_eq)
  have "P s1" by (rule Cons.prems(3) [OF _ Cons.prems(2) s1(1)]) simp
  then show ?case by (rule Cons.IH [OF s1(2)]) (rule Cons.prems(3), simp_all)
qed simp

lemma fold_set_conditions [simp]:
  "au_conditions (fold (\<lambda>(field, e) u. update_set u field e) sets u) = au_conditions u"
  by (induction sets arbitrary: u) auto

lemma fold_bump_conditions [simp]:
  "au_conditions (fold (\<lambda>v u. update_set u v (g v)) vs u) = au_conditions u"
  by (induction vs arbitrary: u) auto

definition conditions_within :: "atomic_update \<Rightarrow> atomic_update \<Rightarrow> bool" where
  "conditions_within u u' \<longleftrightarrow> set (au_conditions u) \<subseteq> set (au_conditions u')"

lemma plan_builtin_within:
  "plan_builtin x r inp field (u, failed) vl = Inr (Inr (u', failed')) \<Longrightarrow> conditions_within u u'"
  by (auto simp: plan_builtin_def Let_def conditions_within_def split: option.splits)

lemma add_part_within [simp]: "conditions_within u (add_part u sets conditions)"
  by (auto simp: conditions_within_def add_part_def Let_def)

lemma plan_validation_within:
  "plan_validation x ats r action inp (u, failed) vl = Inr (Inr (u', failed')) \<Longrightarrow> conditions_within u u'"
  by (cases vl) (auto dest: plan_builtin_within split: atomic_part.splits)

lemma plan_validations_within:
  assumes "foldP (plan_validation x ats r action inp) (u, failed) vls = Inr (Inr (u', failed'))"
  shows "conditions_within u u'"
proof -
  have "conditions_within u (fst (u', failed'))"
  proof (rule foldP_invariant [OF assms, where P = "\<lambda>s. conditions_within u (fst s)"])
    fix s a s'
    assume "conditions_within u (fst s)" "plan_validation x ats r action inp s a = Inr (Inr s')"
    then show "conditions_within u (fst s')"
      using plan_validation_within [of x ats r action inp "fst s" "snd s" a "fst s'" "snd s'"]
      by (auto simp: conditions_within_def)
  qed (simp add: conditions_within_def)
  then show ?thesis by simp
qed

lemma plan_conditions_kept:
  assumes "plan_conditions x ats r action inp u = Inr (Inr u')"
  shows "set (policy_conditions (write_filter r action (pi_actor inp)) (pi_can_raise inp)) \<subseteq> set (au_conditions u')"
    and "set (version_conditions r inp) \<subseteq> set (au_conditions u')"
    and "write_filter r action (pi_actor inp) \<noteq> FFalse"
proof -
  let ?allowed = "write_filter r action (pi_actor inp)"
  obtain u1 failed where
    f: "foldP (plan_validation x ats r action inp) (add_conditions (policy_conditions ?allowed (pi_can_raise inp)) u, [])
        (act_validations action) = Inr (Inr (u1, failed))"
    and rest: "?allowed \<noteq> FFalse" "u' = add_conditions (version_conditions r inp) u1"
    using assms by (auto simp: plan_conditions_def Let_def bindP_eq bindE_eq_Inr split: if_splits)
  show "set (policy_conditions ?allowed (pi_can_raise inp)) \<subseteq> set (au_conditions u')"
    "set (version_conditions r inp) \<subseteq> set (au_conditions u')" "?allowed \<noteq> FFalse"
    using plan_validations_within [OF f] rest by (auto simp: conditions_within_def add_conditions_def)
qed

lemma touch_conditions [simp]: "au_conditions (touch_updated_at locks updated_at now u) = au_conditions u"
  by (simp add: touch_updated_at_def Let_def split: option.split)

lemma plan_update_checks:
  assumes "plan_update x ats now r action inp = Inr (Inr plan)"
  shows "set (policy_conditions (write_filter r action (pi_actor inp)) (pi_can_raise inp)) \<union>
      set (version_conditions r inp) \<subseteq> set (au_conditions (pl_update plan))"
    and "write_filter r action (pi_actor inp) \<noteq> FFalse"
    and "pl_guards plan = plan_guards inp (write_filter r action (pi_actor inp))"
proof -
  let ?allowed = "write_filter r action (pi_actor inp)"
  obtain s :: plan_state and u u' where u: "plan_conditions x ats r action inp (ps_update s) = Inr (Inr u)"
    and f: "finish_update now r action u = Inr u'"
    and plan: "\<lparr>pl_update = u', pl_guards = plan_guards inp ?allowed,
        pl_after_actions = ps_after_actions s, pl_after_transactions = ps_after_transactions s\<rparr> = plan"
    using assms unfolding plan_update_def bindP_eq bindE_eq_Inr planned_eq by blast
  have "au_conditions u' = au_conditions u"
    using f by (auto simp: finish_update_def bindE_eq_Inr Let_def set_something_def bump_versions_def split: if_splits)
  then show "set (policy_conditions ?allowed (pi_can_raise inp)) \<union> set (version_conditions r inp)
      \<subseteq> set (au_conditions (pl_update plan))" "?allowed \<noteq> FFalse" "pl_guards plan = plan_guards inp ?allowed"
    using plan_conditions_kept [OF u] by (auto simp: plan [symmetric])
qed

section \<open>A planned update is authorized\<close>

text \<open>The version a lock expects, as the statement and its guards compare it.\<close>

definition holds_version :: "external \<Rightarrow> resource_def \<Rightarrow> fields \<Rightarrow> string \<times> i64 \<Rightarrow> bool" where
  "holds_version x r row = (\<lambda>(field, n). case present row field of
     Some v \<Rightarrow> (case attribute r field of Some a \<Rightarrow> same_value x (Some (a_ty a)) v (VInt n)
                                        | None \<Rightarrow> same_value x None v (VInt n))
   | None \<Rightarrow> False)"

lemma policy_condition_holds:
  assumes "\<forall>c \<in> set (policy_conditions allowed True). atomic_eval x r flt row (fails_when c) \<noteq> Inr (VBool True)"
    and "allowed \<noteq> FFalse"
  shows "allowed = FTrue \<or> flt allowed row"
  using assms by (auto simp: policy_conditions_def decided_def failing_with_def not_true_def truth_def
      bool_or_null_def is_null_def split: if_splits)

lemma version_condition_holds:
  assumes "\<forall>c \<in> set (version_conditions r inp). atomic_eval x r flt row (fails_when c) \<noteq> Inr (VBool True)"
    and "pi_can_raise inp" "pi_expected_versions inp = Some (key, expected)" "v \<in> set expected"
  shows "holds_version x r row v"
proof -
  obtain field n where v: "v = (field, n)" by (cases v)
  then have "atomic_eval x r flt row (AtDistinctFrom (AtField field) (AtValue (VInt n))) \<noteq> Inr (VBool True)"
    using assms by (force simp: version_conditions_def failing_with_def)
  then show ?thesis
    by (auto simp: v both_def distinct_from_def atomic_compare_def holds_version_def present_def or_null_def is_null_def
        same_value_def split: option.splits bool.splits Value.splits)
qed

text \<open>The statement finds a row the record's key, its scope and the guards admit.\<close>

lemma admits_optional:
  "(\<forall>f. and_filters a b = Some f \<longrightarrow> mem_admits x reg m r tenant f row) \<longleftrightarrow>
   (\<forall>f. a = Some f \<longrightarrow> mem_admits x reg m r tenant f row) \<and> (\<forall>f. b = Some f \<longrightarrow> mem_admits x reg m r tenant f row)"
  by (cases a; cases b) (auto simp: mem_finding.admits_and)

lemma atomic_query_Inr:
  assumes "atomic_query ctx r action key scope = Inr q" "pk_name r = Inr pk"
  shows "\<exists>rest. q_filter q = and_filters (and_filters (Some (FEq pk key)) (tenant_filter r (ctx_tenant ctx))) rest \<and>
    (scope \<noteq> None \<longrightarrow> rest = scope)" "q_tenant q = ctx_tenant ctx" "q_limit q = Some 1"
proof -
  obtain f tenant f' where f: "apply_tenant_scope r (Some (FEq pk key)) (ctx_tenant ctx) = Inr (f, tenant)"
    and f': "(case scope of Some scope \<Rightarrow> Inr (and_filters f (Some scope))
            | None \<Rightarrow> bindE (finding_read r action) (\<lambda>read. Inr (and_filters f (Option.bind read read_filter)))) = Inr f'"
    and q: "q = default_query\<lparr>q_filter := f', q_tenant := tenant, q_actor := ctx_actor ctx, q_limit := Some 1\<rparr>"
    using assms by (auto simp: atomic_query_def bindE_eq_Inr)
  have t: "f = and_filters (Some (FEq pk key)) (tenant_filter r (ctx_tenant ctx))" "tenant = ctx_tenant ctx"
    using f by (auto simp: apply_tenant_scope_def split: if_splits)
  show "\<exists>rest. q_filter q = and_filters (and_filters (Some (FEq pk key)) (tenant_filter r (ctx_tenant ctx))) rest \<and>
      (scope \<noteq> None \<longrightarrow> rest = scope)" "q_tenant q = ctx_tenant ctx" "q_limit q = Some 1"
    using f' by (cases scope; auto simp: q t bindE_eq_Inr)+
qed

lemma guards_filter_admits:
  "(\<forall>f. guards_filter g = Some f \<longrightarrow> mem_admits x reg m r tenant f row) \<longleftrightarrow>
   (\<forall>(field, n) \<in> set (gd_versions g). mem_admits x reg m r tenant (FEq field (VInt n)) row) \<and>
   (\<forall>f. gd_policy g = Some f \<longrightarrow> mem_admits x reg m r tenant f row)"
proof -
  have "(\<forall>f. (case fs of [] \<Rightarrow> None | [f] \<Rightarrow> Some f | fs \<Rightarrow> Some (filter_and fs)) = Some f \<longrightarrow> mem_admits x reg m r tenant f row) \<longleftrightarrow>
      (\<forall>f \<in> set fs. mem_admits x reg m r tenant f row)" for fs
    by (auto simp: mem_finding.admits_and split: list.splits)
  then show ?thesis by (auto simp: guards_filter_def ball_Un split_def opt_list_def split: option.splits)
qed

lemma plan_holds:
  assumes plan: "plan_update x ats now r action inp = Inr (Inr plan)"
    and applied: "update_apply x r (row_matches_filter x reg (mem_store m) tenant r) (pl_update plan) before = Inr changed"
    and guards: "\<forall>f. guards_filter (pl_guards plan) = Some f \<longrightarrow> mem_admits x reg m r tenant f before"
    and versions: "pi_expected_versions inp = Some (k, expected) \<or> pi_expected_versions inp = None \<and> expected = []"
    and columns: "\<forall>(field, n) \<in> set expected. attribute r field \<noteq> None"
  shows "row_matches_filter x reg (mem_store m) tenant r (write_filter r action (pi_actor inp)) before"
    and "\<forall>v \<in> set expected. holds_version x r before v"
proof -
  let ?allowed = "write_filter r action (pi_actor inp)"
  note checks = plan_update_checks [OF plan]
  note conditions = update_apply_conditions [OF applied]
  have guarded: "\<forall>(field, n) \<in> set (gd_versions (pl_guards plan)). mem_admits x reg m r tenant (FEq field (VInt n)) before"
    "\<forall>f. gd_policy (pl_guards plan) = Some f \<longrightarrow> mem_admits x reg m r tenant f before"
    using guards by (simp_all add: guards_filter_admits)
  have true: "row_matches_filter x reg (mem_store m) tenant r FTrue before" by (simp add: row_matches_filter_def)
  have allowed: "row_matches_filter x reg (mem_store m) tenant r ?allowed before"
  proof (cases "pi_can_raise inp")
    case True
    then have "\<forall>c \<in> set (policy_conditions ?allowed True). atomic_eval x r
        (row_matches_filter x reg (mem_store m) tenant r) before (fails_when c) \<noteq> Inr (VBool True)"
      using checks(1) conditions by auto
    then show ?thesis using policy_condition_holds checks(2) true by metis
  next
    case False
    then show ?thesis using guarded(2) checks(2) true
      by (cases "?allowed = FTrue") (auto simp: checks(3) plan_guards_def decided_def mem_admits_def)
  qed
  have held: "holds_version x r before v" if v: "v \<in> set expected" for v
  proof (cases "pi_can_raise inp")
    case True
    have e: "pi_expected_versions inp = Some (k, expected)" using versions v by auto
    have "\<forall>c \<in> set (version_conditions r inp). atomic_eval x r
        (row_matches_filter x reg (mem_store m) tenant r) before (fails_when c) \<noteq> Inr (VBool True)"
      using checks(1) conditions by auto
    then show ?thesis by (rule version_condition_holds [OF _ True e v])
  next
    case False
    then have "mem_admits x reg m r tenant (FEq (fst v) (VInt (snd v))) before"
      using guarded(1) versions v by (auto simp: checks(3) plan_guards_def)
    moreover have "attribute r (fst v) \<noteq> None" using columns v by auto
    ultimately show ?thesis
      by (auto simp: mem_admits_def row_matches_filter_def holds_version_def column_type_def split_def is_null_def
          split: option.splits)
  qed
  show "row_matches_filter x reg (mem_store m) tenant r ?allowed before" by (rule allowed)
  show "\<forall>v \<in> set expected. holds_version x r before v" using held by blast
qed

text \<open>
  C3: An update run as one statement lands only on a record the write policies let the
  actor change, that still holds every lock version read, whether its data layer raises these
  conditions in the statement or filters by them.
\<close>

theorem atomic_update_authorized:
  assumes plan: "plan_update x ats now r action inp = Inr (Inr plan)"
    and run: "run_atomic_update (memory_layer x reg) ctx r action key (pl_update plan) (guards_filter (pl_guards plan))
        scope w = (Inr (Some row), w')"
    and pk: "pk_name r = Inr pk"
    and versions: "pi_expected_versions inp = Some (k, expected) \<or> pi_expected_versions inp = None \<and> expected = []"
    and plain: "\<forall>q. atomic_query ctx r action key scope = Inr q \<longrightarrow>
        plain_query r (q\<lparr>q_filter := and_filters (q_filter q) (guards_filter (pl_guards plan))\<rparr>)"
    and columns: "\<forall>(field, n) \<in> set expected. attribute r field \<noteq> None"
  shows "\<exists>before \<in> set (tb_rows (table_or_default (mem_store (w_data w)) (table_key r (ctx_tenant ctx)))).
    row_matches_filter x reg (mem_store (w_data w)) (ctx_tenant ctx) r (FEq pk key) before \<and>
    row_matches_filter x reg (mem_store (w_data w)) (ctx_tenant ctx) r (write_filter r action (pi_actor inp)) before \<and>
    (\<forall>v \<in> set expected. holds_version x r before v)"
proof -
  let ?m = "w_data w"
  obtain q where q: "atomic_query ctx r action key scope = Inr q"
    using run by (auto simp: run_atomic_update_def split: sum.splits)
  let ?q = "q\<lparr>q_filter := and_filters (q_filter q) (guards_filter (pl_guards plan))\<rparr>"
  obtain rest where qf: "q_filter q = and_filters (and_filters (Some (FEq pk key)) (tenant_filter r (ctx_tenant ctx))) rest"
    and qt: "q_tenant ?q = ctx_tenant ctx" and ql: "q_limit ?q = Some 1"
    using atomic_query_Inr [OF q pk] by auto
  obtain rows m' where u: "mem_update_atomic x reg ?m r ?q (pl_update plan) = (Inr rows, m')" and rows: "rows \<noteq> []"
  proof -
    obtain rows w1 where "writing (\<lambda>d. mem_update_atomic x reg d r ?q (pl_update plan)) w = (Inr rows, w1)"
      "give (first_row rows) w1 = (Inr (Some row), w')"
      using run q by (auto simp: run_atomic_update_def bindS_eq_Inr)
    then show thesis by (intro that [of rows "w_data w1"]) (auto simp: writing_eq give_def first_row_def)
  qed
  have plain_q: "plain_query r ?q" using plain q by simp
  obtain before changed where b: "before \<in> set (tb_rows (table_or_default (mem_store ?m) (table_key r (ctx_tenant ctx))))"
    and admits: "\<forall>f. q_filter ?q = Some f \<longrightarrow> mem_admits x reg ?m r (ctx_tenant ctx) f before"
    and applied: "update_apply x r (row_matches_filter x reg (mem_store ?m) (ctx_tenant ctx) r) (pl_update plan) before = Inr changed"
    using update_one_memory [OF u plain_q ql refl] rows unfolding qt by metis
  have parts: "mem_admits x reg ?m r (ctx_tenant ctx) (FEq pk key) before"
    "\<forall>f. guards_filter (pl_guards plan) = Some f \<longrightarrow> mem_admits x reg ?m r (ctx_tenant ctx) f before"
    using admits by (simp_all add: qf admits_optional)
  note holds = plan_holds [OF plan applied parts(2) versions columns]
  show ?thesis using b parts(1) holds by (auto simp: mem_admits_def)
qed

section \<open>Integers a float holds exactly\<close>

lemma f64_nat_bits_strict:
  assumes "m < n" "n < 2 ^ 53"
  shows "f64_nat_bits m < f64_nat_bits n"
proof (cases "m = 0")
  case True
  then show ?thesis using assms f64_significand_bounds [of n] by (simp add: f64_nat_bits_def)
next
  case False
  define d where "d = log2_nat m"
  define e where "e = log2_nat n"
  have m: "2 ^ d \<le> m" "m < 2 ^ Suc d" using log2_nat_bounds [of m] False by (simp_all add: d_def)
  have n: "2 ^ e \<le> n" "n < 2 ^ Suc e" using log2_nat_bounds [of n] assms by (simp_all add: e_def)
  have "(2::nat) ^ d < 2 ^ Suc e" "(2::nat) ^ e < 2 ^ 53" using m n assms by linarith+
  then have de: "d \<le> e" "e \<le> 52"
    using power_strict_increasing_iff [of "2::nat" d "Suc e"] power_strict_increasing_iff [of "2::nat" e 53] by simp_all
  have sm: "f64_significand m = m * 2 ^ (52 - d)" and sn: "f64_significand n = n * 2 ^ (52 - e)"
    using de by (simp_all add: f64_significand_def d_def e_def)
  show ?thesis
  proof (cases "d = e")
    case True
    then show ?thesis using assms False by (simp add: f64_nat_bits_def sm sn) (simp add: d_def e_def)
  next
    case neq: False
    have "m * 2 ^ (52 - d) < 2 ^ Suc d * 2 ^ (52 - d)" using m by simp
    also have "\<dots> = (2::nat) ^ (Suc d + (52 - d))" by (simp only: power_add)
    also have "Suc d + (52 - d) = 53" using de by simp
    finally have "f64_significand m < 2 ^ 53" by (simp only: sm)
    moreover have "d + 1022 + 1 \<le> e + 1022" using neq de by simp
    then have "(d + 1022 + 1) * 2 ^ 52 \<le> (e + 1022) * (2::nat) ^ 52" by (rule mult_le_mono1)
    moreover have "2 ^ 52 \<le> f64_significand n" using f64_significand_bounds [of n] assms by simp
    ultimately have "(d + 1022) * 2 ^ 52 + f64_significand m < (e + 1022) * 2 ^ 52 + f64_significand n" by simp
    then show ?thesis using False assms by (simp add: f64_nat_bits_def d_def e_def)
  qed
qed

lemma lin_cmp_iff: "lin_cmp a b = Less \<longleftrightarrow> a < b" "lin_cmp a b = Greater \<longleftrightarrow> b < a"
  by (auto simp: lin_cmp_def)

lemma f64_parts: "f64_neg z \<longleftrightarrow> f64_key z < 0" "f64_mag z = (if f64_key z < 0 then - f64_key z - 1 else f64_key z)"
  using f64_mag_bounds [of z] by (auto simp: f64_key_def)

lemma f64_less_i64:
  assumes "\<bar>sint n\<bar> < 2 ^ 53" "\<bar>sint m\<bar> < 2 ^ 53"
  shows "f64_less (f64_of_i64 n) (f64_of_i64 m) \<longleftrightarrow> sint n < sint m"
proof -
  let ?b = "\<lambda>k. int (f64_nat_bits (nat \<bar>k\<bar>))"
  have bound: "?b k < f64_inf_mag" if "\<bar>k\<bar> < 2 ^ 53" for k
  proof -
    have "f64_nat_bits (nat \<bar>k\<bar>) \<le> f64_nat_bits (2 ^ 53)" by (rule f64_nat_bits_mono) (use that in simp)
    also have "f64_nat_bits (2 ^ 53) = 1076 * 2 ^ 52"
      using log2_nat_eq [of 53 "2 ^ 53"] by (simp add: f64_nat_bits_def f64_significand_def round_div_def)
    finally show ?thesis by (simp add: f64_inf_mag_def)
  qed
  have val: "(if f64_neg (f64_of_i64 k) then - f64_mag (f64_of_i64 k) else f64_mag (f64_of_i64 k)) =
      (if sint k < 0 then - ?b (sint k) else ?b (sint k))" for k
    by (auto simp: f64_parts f64_key_of_i64)
  have nan: "\<not> f64_is_nan (f64_of_i64 k)" if "\<bar>sint k\<bar> < 2 ^ 53" for k
    using bound [OF that] by (auto simp: f64_is_nan_def f64_parts f64_key_of_i64)
  have strict: "?b j < ?b k \<longleftrightarrow> \<bar>j\<bar> < \<bar>k\<bar>" if "\<bar>j\<bar> < 2 ^ 53" "\<bar>k\<bar> < 2 ^ 53" for j k
    using f64_nat_bits_strict [of "nat \<bar>j\<bar>" "nat \<bar>k\<bar>"] f64_nat_bits_mono [of "nat \<bar>k\<bar>" "nat \<bar>j\<bar>"] that
    by (cases "\<bar>j\<bar> < \<bar>k\<bar>") (simp_all add: not_less)
  have zero: "?b k = 0 \<longleftrightarrow> k = 0" if "\<bar>k\<bar> < 2 ^ 53" for k
    using strict [of 0 k] that by (cases "k = 0") (auto simp: f64_nat_bits_def)
  have core: "(if i < 0 then - p else p) < (if j < 0 then - q else q) \<longleftrightarrow> i < j"
    if "p < q \<longleftrightarrow> \<bar>i\<bar> < \<bar>j\<bar>" "q < p \<longleftrightarrow> \<bar>j\<bar> < \<bar>i\<bar>" "p = 0 \<longleftrightarrow> i = 0" "q = 0 \<longleftrightarrow> j = 0" "0 \<le> p" "0 \<le> q"
    for i j p q :: int
    using that by (cases "i < 0"; cases "j < 0") (auto simp: abs_if)
  have "f64_less (f64_of_i64 n) (f64_of_i64 m) \<longleftrightarrow>
      (if sint n < 0 then - ?b (sint n) else ?b (sint n)) < (if sint m < 0 then - ?b (sint m) else ?b (sint m))"
    unfolding f64_less_def f64_partial_cmp_def val
    by (simp only: nan [OF assms(1)] nan [OF assms(2)] lin_cmp_iff simp_thms if_False option.inject)
  also have "\<dots> \<longleftrightarrow> sint n < sint m"
    by (rule core [OF strict [OF assms] strict [OF assms(2,1)] zero [OF assms(1)] zero [OF assms(2)]]) simp_all
  finally show ?thesis .
qed

section \<open>Built-in validations agree\<close>

text \<open>
  Where a validation reads a stored value alike in the statement and in memory: text of a text
  attribute, of one of its own order for \<open>OneOf\<close>, and integers a float holds exactly.
\<close>

definition small_int :: "i64 \<Rightarrow> bool" where
  "small_int n \<longleftrightarrow> \<bar>sint n\<bar> < 2 ^ 53"

fun stored_text :: "Value option \<Rightarrow> bool" where
  "stored_text (Some (VString s)) = (length (chars s) < 2 ^ 63)"
| "stored_text v = (v = None \<or> v = Some VNull)"

fun reads_alike :: "resource_def \<Rightarrow> validation \<Rightarrow> Value option \<Rightarrow> bool" where
  "reads_alike r (Present field) v \<longleftrightarrow>
     (is_text_field r (AtField field) \<or> (\<forall>s. v = Some (VString s) \<longrightarrow> str_trim s \<noteq> []))"
| "reads_alike r (StringLength field lo hi) v \<longleftrightarrow>
     is_text_field r (AtField field) \<and> stored_text v \<and> (\<forall>m \<in> set_option lo \<union> set_option hi. m < 2 ^ 63)"
| "reads_alike r (OneOf field allowed) v \<longleftrightarrow>
     stored_text v \<and> (\<exists>a. attribute r field = Some a \<and> (a_ty a = TString \<or> (\<exists>vs d. a_ty a = TAtom vs d)))"
| "reads_alike r (Numericality field lo hi) v \<longleftrightarrow>
     (v = None \<or> v = Some VNull \<or> (\<exists>n. v = Some (VInt n) \<and> small_int n)) \<and>
     (\<forall>m \<in> set_option lo \<union> set_option hi. small_int m)"
| "reads_alike r _ v \<longleftrightarrow> False"

fun validation_field :: "validation \<Rightarrow> string" where
  "validation_field (Present field) = field"
| "validation_field (StringLength field _ _) = field"
| "validation_field (OneOf field _) = field"
| "validation_field (Numericality field _ _) = field"
| "validation_field _ = []"

lemma sint_length: "k < 2 ^ 63 \<Longrightarrow> sint (word_of_nat k :: i64) = int k"
  using sint_of_int_i64 [of "int k"] by (simp add: i64_min_def i64_max_def)

lemma compare_ints: "compare_typed x ty (VInt a) (VInt b) = lin_cmp (sint a) (sint b)"
  by (simp add: compare_typed_def i64_cmp_def)

lemma compare_plain_texts:
  "ty = TString \<or> (\<exists>vs d. ty = TAtom vs d) \<Longrightarrow> compare_typed x (Some ty) (VString s) (VString t) = Equal \<longleftrightarrow> s = t"
  by (auto simp: compare_typed_def)

lemmas condition_evals = check_builtin_validation_def validation_condition_def failing_with_def or_null_def is_null_def
  truth_def both_def atomic_text_def atomic_compare_def bool_or_null_def atomic_or_def chars_count_def compare_ints
  is_some_and_def sint_length



text \<open>
  Elsewhere they differ: the length of a text the statement computes isn't checked, and a
  decimal, which is stored as text, is greater than any number.
\<close>

lemma computed_length_unchecked:
  "builtin_conditions r (StringLength ''title'' (Some 1) (Some 3)) (AtConcat [AtField ''title'', AtValue (VString ''xyz'')]) = []"
  by simp

lemma decimal_bound_fails:
  assumes "attribute r ''price'' = Some (attr_required ''price'' TDecimal)"
  shows "check_conditions sample_external r flt [(''price'', VString ''5'')]
      (builtin_conditions r (Numericality ''price'' None (Some 100)) (AtField ''price'')) \<noteq> Inr ()"
  using assms by (simp add: condition_evals compare_typed_def lin_cmp_def)

section \<open>A planned update, run\<close>

definition sample_policed :: resource_def where
  "sample_policed = sample_versioned
     \<lparr>r_policies := [\<lparr>p_bypass = False, p_when = WhenAlways, p_checks = [AuthorizeIf (CkEq ''title'' (CStr ''a''))]\<rparr>]\<rparr>"

definition sample_input :: plan_input where
  "sample_input = \<lparr>pi_actor = None, pi_tenant = None, pi_sets = [(''title'', VString ''b'')], pi_arguments = [],
     pi_expected_versions = Some (VUuid 1, [(''version'', 1)]), pi_collect_hooks = False, pi_can_raise = True\<rparr>"

definition sample_plan :: atomic_plan where
  "sample_plan = (case plan_update sample_external no_atomics [] sample_policed sample_edit sample_input of
     Inr (Inr plan) \<Rightarrow> plan
   | _ \<Rightarrow> \<lparr>pl_update = empty_update, pl_guards = no_guards, pl_after_actions = [], pl_after_transactions = []\<rparr>)"

lemma sample_planned: "plan_update sample_external no_atomics [] sample_policed sample_edit sample_input = Inr (Inr sample_plan)"
proof -
  have "case plan_update sample_external no_atomics [] sample_policed sample_edit sample_input of
      Inr (Inr plan) \<Rightarrow> True | _ \<Rightarrow> False" by code_simp
  then show ?thesis by (auto simp: sample_plan_def split: sum.splits)
qed

lemma sample_atomic:
  "run_atomic_update (memory_layer sample_external [sample_policed]) context_new sample_policed sample_edit (VUuid 1)
     (pl_update sample_plan) (guards_filter (pl_guards sample_plan)) None (world_of (sample_store ''a'' 1)) =
   (Inr (Some (sample_row ''b'' 2)), world_of (sample_store ''b'' 2))"
  by code_simp

lemma atomic_update_authorized_witness:
  "\<exists>before \<in> set (tb_rows (table_or_default (mem_store (sample_store ''a'' 1)) ''Post'')).
     row_matches_filter sample_external [sample_policed] (mem_store (sample_store ''a'' 1)) None sample_policed
       (write_filter sample_policed sample_edit None) before \<and>
     holds_version sample_external sample_policed before (''version'', 1)"
proof -
  let ?q = "atomic_query context_new sample_policed sample_edit (VUuid 1) None"
  have pk: "pk_name sample_policed = Inr ''id''" and tk: "table_key sample_policed None = ''Post''"
    and col: "attribute sample_policed ''version'' \<noteq> None" by code_simp+
  have "case ?q of Inr q \<Rightarrow> plain_query sample_policed
      (q\<lparr>q_filter := and_filters (q_filter q) (guards_filter (pl_guards sample_plan))\<rparr>) | Inl _ \<Rightarrow> True" by code_simp
  then have plain: "\<forall>q. ?q = Inr q \<longrightarrow> plain_query sample_policed
      (q\<lparr>q_filter := and_filters (q_filter q) (guards_filter (pl_guards sample_plan))\<rparr>)" by auto
  have versions: "pi_expected_versions sample_input = Some (VUuid 1, [(''version'', 1)]) \<or>
      pi_expected_versions sample_input = None \<and> [(''version'', 1)] = []"
    and columns: "\<forall>(field, n) \<in> set [(''version'', 1)]. attribute sample_policed field \<noteq> None"
    using col by (simp_all add: sample_input_def)
  from atomic_update_authorized [OF sample_planned sample_atomic pk versions plain columns] show ?thesis
    by (auto simp: context_new_def tk world_of_def sample_input_def)
qed

end
