(* ===== verification/AshChangeset.thy ===== *)
theory AshChangeset
  imports AshPlanFacts
begin

text \<open>
  Prepared writes (\<open>crates/ash-core/src/changeset/dynamic.rs\<close> and \<open>changeset/managed.rs\<close>): a
  changeset in fields, built from an action's input by its changes and validations, what a
  form validating it finds wrong, and the plan of one as a single statement.

  A before-action hook works on the changeset without its before-action hooks, as the code
  takes them before it runs them.
\<close>

section \<open>Managed relationships\<close>

record managed_spec =
  ms_relationship :: string
  ms_rel_type :: managed_rel_type
  ms_inputs :: "fields list"

definition managed_inputs :: "Value \<Rightarrow> fields list" where
  "managed_inputs v =
     (case v of
        VArray items \<Rightarrow> List.map_filter (\<lambda>it. case it of VMap m \<Rightarrow> Some m | _ \<Rightarrow> None) items
      | VMap m \<Rightarrow> [m]
      | _ \<Rightarrow> [])"

definition managed_by_change :: "fields \<Rightarrow> change \<Rightarrow> managed_spec option" where
  "managed_by_change arguments change =
     (case change of
        ManageRelationship rel ty \<Rightarrow>
          map_option (\<lambda>v. \<lparr>ms_relationship = rel, ms_rel_type = ty, ms_inputs = managed_inputs v\<rparr>) (fm_get arguments rel)
      | _ \<Rightarrow> None)"

definition managed_by_name :: "fields \<Rightarrow> relationship_def \<Rightarrow> managed_spec list \<Rightarrow> managed_spec list" where
  "managed_by_name arguments rel specs =
     (if list_ex (\<lambda>m. ms_relationship m = rel_name rel) specs then specs
      else (case fm_get arguments (rel_name rel) of
              Some v \<Rightarrow>
                if managed_inputs v = [] then specs
                else specs @ [\<lparr>ms_relationship = rel_name rel, ms_rel_type = ManagedDirectControl,
                               ms_inputs = managed_inputs v\<rparr>]
            | None \<Rightarrow> specs))"

definition extract_managed_relationships :: "resource_def \<Rightarrow> action_def \<Rightarrow> fields \<Rightarrow> managed_spec list" where
  "extract_managed_relationships r action arguments =
     fold (managed_by_name arguments) (r_relationships r)
       (List.map_filter (managed_by_change arguments) (act_changes action))"

section \<open>Changesets\<close>

record changeset_core =
  cs_resource :: resource_def
  cs_action :: action_def
  cs_fields :: fields
  cs_arguments :: fields
  cs_tenant :: "string option"
  cs_metadata :: fields
  cs_existing :: "fields option"
  cs_upsert :: "(string \<times> string list) option"
  cs_after_actions :: "field_hook list"
  cs_after_transactions :: "transaction_hook list"
  cs_managed :: "managed_spec list"

type_synonym changeset_hook = "changeset_core \<Rightarrow> changeset_core res"

record changeset = changeset_core +
  cs_before_actions :: "changeset_hook list"

definition core_of :: "changeset \<Rightarrow> changeset_core" where
  "core_of cs = changeset_core.truncate cs"

definition changeset_new ::
    "resource_def \<Rightarrow> action_def \<Rightarrow> fields \<Rightarrow> fields \<Rightarrow> fields option \<Rightarrow> changeset" where
  "changeset_new r action fs arguments existing =
     \<lparr>cs_resource = r, cs_action = action, cs_fields = fs, cs_arguments = arguments, cs_tenant = None,
      cs_metadata = [], cs_existing = existing, cs_upsert = None, cs_after_actions = [],
      cs_after_transactions = [], cs_managed = [], cs_before_actions = []\<rparr>"

definition change_action_context :: "ash_context \<Rightarrow> fields \<Rightarrow> action_context" where
  "change_action_context ctx arguments =
     \<lparr>ac_actor = ctx_actor ctx, ac_tenant = ctx_tenant ctx, ac_metadata = ctx_metadata ctx, ac_arguments = arguments\<rparr>"

definition on_attributes :: "field_hook \<Rightarrow> changeset_hook" where
  "on_attributes hook cs = bindE (hook (cs_fields cs)) (\<lambda>fs. Inr (cs\<lparr>cs_fields := fs\<rparr>))"

definition changeset_changes :: "external \<Rightarrow> ash_context \<Rightarrow> changeset \<Rightarrow> changeset res" where
  "changeset_changes x ctx cs =
     bindE (apply_changes_with_context x (cs_action cs) (change_action_context ctx (cs_arguments cs))
       \<lparr>cx_fields = cs_fields cs, cx_before_actions = [], cx_after_actions = cs_after_actions cs,
        cx_after_transactions = cs_after_transactions cs\<rparr>) (\<lambda>cx.
       Inr (cs\<lparr>cs_fields := cx_fields cx, cs_after_actions := cx_after_actions cx,
               cs_after_transactions := cx_after_transactions cx,
               cs_before_actions := cs_before_actions cs @ map on_attributes (cx_before_actions cx)\<rparr>))"

definition changeset_validations :: "external \<Rightarrow> ash_context \<Rightarrow> 'a changeset_core_scheme \<Rightarrow> unit res" where
  "changeset_validations x ctx cs =
     run_validations_with_context x (cs_action cs) (cs_existing cs) (cs_fields cs)
       (change_action_context ctx (cs_arguments cs))"

definition changeset_with_context :: "ash_context \<Rightarrow> changeset \<Rightarrow> changeset" where
  "changeset_with_context ctx cs =
     cs\<lparr>cs_tenant := ctx_tenant ctx, cs_metadata := ctx_metadata ctx,
        cs_managed := extract_managed_relationships (cs_resource cs) (cs_action cs) (cs_arguments cs)\<rparr>"

section \<open>Building one\<close>

definition create_changeset ::
    "external \<Rightarrow> uuid \<Rightarrow> string \<Rightarrow> ash_context \<Rightarrow> resource_def \<Rightarrow> action_def \<Rightarrow> fields \<Rightarrow> fields \<Rightarrow> changeset res" where
  "create_changeset x new_v4 now ctx r action input forced =
     bindE (expect_kind action Create) (\<lambda>_.
     bindE (split_input r action input) (\<lambda>(fs, arguments).
     bindE (changeset_changes x ctx
       (changeset_new r action (prepare_create_fields new_v4 now r (fm_extend fs forced)) arguments None)) (\<lambda>cs.
     bindE (apply_tenant_to_fields r (cs_fields cs) (ctx_tenant ctx) True) (\<lambda>fs.
     let cs = cs\<lparr>cs_fields := fs\<rparr>
     in bindE (changeset_validations x ctx cs) (\<lambda>_.
        bindE (validate x r (cs_fields cs)) (\<lambda>fs.
          Inr (changeset_with_context ctx (cs\<lparr>cs_fields := fs\<rparr>))))))))"

text \<open>A field its reader may not see isn't written back: a typed record holds a null there.\<close>

definition drop_hidden ::
    "external \<Rightarrow> registry \<Rightarrow> ash_context \<Rightarrow> resource_def \<Rightarrow> fields \<Rightarrow> fields \<Rightarrow> fields \<Rightarrow> fields" where
  "drop_hidden x reg ctx r accepted existing fs =
     fold (\<lambda>fp fs. if \<not> fm_contains accepted (fp_field fp) \<and>
                      \<not> eval_policy_effects x reg (ctx_actor ctx) (Some existing) (fp_checks fp)
                   then fm_remove (fp_field fp) fs else fs) (r_field_policies r) fs"

definition update_changeset ::
    "external \<Rightarrow> registry \<Rightarrow> string \<Rightarrow> ash_context \<Rightarrow> resource_def \<Rightarrow> action_def \<Rightarrow> fields \<Rightarrow> fields \<Rightarrow> fields \<Rightarrow>
     changeset res" where
  "update_changeset x reg now ctx r action existing input forced =
     bindE (expect_kind action Update) (\<lambda>_.
     bindE (split_input r action input) (\<lambda>(accepted, arguments).
     bindE (prepare_update_fields x now r action existing (fm_extend (fm_extend existing accepted) forced)) (\<lambda>fs.
     bindE (changeset_changes x ctx (changeset_new r action fs arguments (Some existing))) (\<lambda>cs.
     bindE (apply_tenant_to_fields r (cs_fields cs) (ctx_tenant ctx) False) (\<lambda>fs.
     let cs = cs\<lparr>cs_fields := fs\<rparr>
     in bindE (changeset_validations x ctx cs) (\<lambda>_.
        bindE (validate_given x r (cs_fields cs)) (\<lambda>fs.
          Inr (changeset_with_context ctx
            (cs\<lparr>cs_fields := drop_hidden x reg ctx r accepted existing fs\<rparr>)))))))))"

definition destroy_changeset ::
    "external \<Rightarrow> ash_context \<Rightarrow> resource_def \<Rightarrow> action_def \<Rightarrow> fields \<Rightarrow> fields \<Rightarrow> changeset res" where
  "destroy_changeset x ctx r action existing input =
     bindE (expect_kind action Destroy) (\<lambda>_.
     bindE (split_input r action input) (\<lambda>(accepted, arguments).
     bindE (changeset_changes x ctx
       (changeset_new r action (fm_extend existing accepted) arguments (Some existing))) (\<lambda>cs.
     bindE (changeset_validations x ctx cs) (\<lambda>_.
       Inr (changeset_with_context ctx cs)))))"

section \<open>Without a context or data layer\<close>

definition apply_create :: "external \<Rightarrow> uuid \<Rightarrow> string \<Rightarrow> resource_def \<Rightarrow> action_def \<Rightarrow> fields \<Rightarrow> fields res" where
  "apply_create x new_v4 now r action input =
     bindE (expect_kind action Create) (\<lambda>_.
     bindE (split_input r action input) (\<lambda>(fs, arguments).
     bindE (apply_changes x (prepare_create_fields new_v4 now r fs) action None arguments) (\<lambda>fs.
     bindE (validate x r fs) (\<lambda>fs.
     bindE (run_validations x action None fs arguments) (\<lambda>_. Inr fs)))))"

definition apply_update ::
    "external \<Rightarrow> string \<Rightarrow> resource_def \<Rightarrow> action_def \<Rightarrow> fields \<Rightarrow> fields \<Rightarrow> fields res" where
  "apply_update x now r action existing input =
     bindE (expect_kind action Update) (\<lambda>_.
     bindE (split_input r action input) (\<lambda>(accepted, arguments).
     bindE (prepare_update_fields x now r action existing (fm_extend existing accepted)) (\<lambda>fs.
     bindE (apply_changes x fs action None arguments) (\<lambda>fs.
     bindE (validate x r fs) (\<lambda>fs.
     bindE (run_validations x action (Some existing) fs arguments) (\<lambda>_. Inr fs))))))"

section \<open>What a form finds wrong\<close>

definition split_taken :: "resource_def \<Rightarrow> action_def \<Rightarrow> fields \<times> fields \<Rightarrow> string \<times> Value \<Rightarrow> fields \<times> fields" where
  "split_taken r action = (\<lambda>(accepted, arguments) (name, v).
     if name \<in> set (act_accept action) then
       (fm_insert name (case attribute r name of Some a \<Rightarrow> cast_text (a_ty a) v | None \<Rightarrow> v) accepted, arguments)
     else (case List.find (\<lambda>arg. arg_name arg = name) (act_arguments action) of
             Some arg \<Rightarrow> (accepted, fm_insert name (cast_text (arg_ty arg) v) arguments)
           | None \<Rightarrow> (accepted, arguments)))"

definition missing_arguments :: "action_def \<Rightarrow> fields \<Rightarrow> error list" where
  "missing_arguments action arguments =
     map (\<lambda>arg. EMissing (arg_name arg))
       (filter (\<lambda>arg. \<not> arg_allow_nil arg \<and> is_nil_or_missing (fm_get arguments (arg_name arg))) (act_arguments action))"

definition attribute_problems :: "external \<Rightarrow> bool \<Rightarrow> fields \<Rightarrow> fields \<Rightarrow> attribute_def \<Rightarrow> error list" where
  "attribute_problems x creating accepted fs a =
     (case non_null (fm_get fs (a_name a)) of
        None \<Rightarrow> if a_allow_nil a \<or> assigned_on_insert a \<or> \<not> (creating \<or> fm_contains accepted (a_name a))
                then [] else [EMissing (a_name a)]
      | Some v \<Rightarrow> (case check_type x a v of Inl e \<Rightarrow> [e] | Inr _ \<Rightarrow> []))"

definition problems ::
    "external \<Rightarrow> uuid \<Rightarrow> string \<Rightarrow> ash_context \<Rightarrow> resource_def \<Rightarrow> action_def \<Rightarrow> fields option \<Rightarrow> fields \<Rightarrow> error list res" where
  "problems x new_v4 now ctx r action existing input =
     (let (accepted, arguments) = fold (\<lambda>e acc. split_taken r action acc e) input ([], []);
          arguments = apply_argument_defaults (act_arguments action) arguments;
          missing = missing_arguments action arguments;
          creating = (existing = None)
      in bindE (case existing of
                  Some existing \<Rightarrow> prepare_update_fields x now r action existing (fm_extend existing accepted)
                | None \<Rightarrow> Inr (prepare_create_fields new_v4 now r accepted)) (\<lambda>fs.
         (case changeset_changes x ctx (changeset_new r action fs arguments existing) of
            Inl e \<Rightarrow> Inr (missing @ [e])
          | Inr cs \<Rightarrow>
              let cs = (case apply_tenant_to_fields r (cs_fields cs) (ctx_tenant ctx) creating of
                          Inr fs \<Rightarrow> cs\<lparr>cs_fields := fs\<rparr> | Inl _ \<Rightarrow> cs)
              in Inr (missing
                  @ (case changeset_validations x ctx cs of Inl e \<Rightarrow> into_each e | Inr _ \<Rightarrow> [])
                  @ (if act_kind action \<noteq> Destroy
                     then concat (map (attribute_problems x creating accepted (cs_fields cs)) (r_attributes r))
                     else [])))))"

section \<open>A changeset's builders\<close>

definition with_upsert :: "changeset \<Rightarrow> string \<Rightarrow> string list \<Rightarrow> changeset" where
  "with_upsert cs ident update_fields = cs\<lparr>cs_upsert := Some (ident, update_fields)\<rparr>"

definition before_action :: "changeset \<Rightarrow> changeset_hook \<Rightarrow> changeset" where
  "before_action cs hook = cs\<lparr>cs_before_actions := cs_before_actions cs @ [hook]\<rparr>"

definition after_action :: "changeset \<Rightarrow> field_hook \<Rightarrow> changeset" where
  "after_action cs hook = cs\<lparr>cs_after_actions := cs_after_actions cs @ [hook]\<rparr>"

definition after_transaction :: "changeset \<Rightarrow> transaction_hook \<Rightarrow> changeset" where
  "after_transaction cs hook = cs\<lparr>cs_after_transactions := cs_after_transactions cs @ [hook]\<rparr>"

definition manage_relationship :: "changeset \<Rightarrow> string \<Rightarrow> fields list \<Rightarrow> managed_rel_type \<Rightarrow> changeset" where
  "manage_relationship cs rel inputs ty =
     cs\<lparr>cs_managed := cs_managed cs @ [\<lparr>ms_relationship = rel, ms_rel_type = ty, ms_inputs = inputs\<rparr>]\<rparr>"

section \<open>Authorizing and planning one\<close>

definition changeset_authorize :: "external \<Rightarrow> registry \<Rightarrow> ash_context \<Rightarrow> 'a changeset_core_scheme \<Rightarrow> unit res" where
  "changeset_authorize x reg ctx cs =
     authorize_write x reg (cs_resource cs) (cs_action cs) (ctx_actor ctx)
       (Some (case cs_existing cs of Some existing \<Rightarrow> existing | None \<Rightarrow> cs_fields cs))"

text \<open>What an update writes: what differs from the record it started from.\<close>

definition differing :: "fields \<Rightarrow> fields \<Rightarrow> fields" where
  "differing existing fs =
     filter (\<lambda>(name, v). case fm_get existing name of Some u \<Rightarrow> \<not> value_eq u v | None \<Rightarrow> True) fs"

definition changes_of :: "'a changeset_core_scheme \<Rightarrow> fields \<Rightarrow> fields" where
  "changes_of cs fs = (case cs_existing cs of Some existing \<Rightarrow> differing existing fs | None \<Rightarrow> fs)"

definition writes_beyond_record :: "'a changeset_core_scheme \<Rightarrow> bool" where
  "writes_beyond_record cs \<longleftrightarrow> cs_managed cs \<noteq> [] \<or>
     act_kind (cs_action cs) = Destroy \<and>
     list_ex (\<lambda>rel. rel_kind_of rel \<noteq> BelongsTo) (r_relationships (cs_resource cs))"

fun lock_versions :: "fields \<Rightarrow> string list \<Rightarrow> (string \<times> i64) list option" where
  "lock_versions existing [] = Some []"
| "lock_versions existing (v # vs) =
     Option.bind (Option.bind (fm_get existing v) as_int) (\<lambda>n. map_option (\<lambda>rest. (v, n) # rest) (lock_versions existing vs))"

text \<open>The single statement a changeset runs as; none where it runs record by record.\<close>

definition changeset_plan ::
    "external \<Rightarrow> atomics \<Rightarrow> string \<Rightarrow> 'd data_layer \<Rightarrow> ash_context \<Rightarrow> changeset \<Rightarrow> atomic_plan option res" where
  "changeset_plan x ats now dl ctx cs =
     (let r = cs_resource cs; action = cs_action cs
      in case cs_existing cs of
           None \<Rightarrow> Inr None
         | Some existing \<Rightarrow>
             if \<not> (act_kind action = Update \<or> act_kind action = Destroy \<and> act_soft action) \<or>
                \<not> dl_can_update_atomically dl r
             then Inr None
             else bindE (if cs_before_actions cs \<noteq> [] then Inr (Some (Inl ''it has a before_action hook''))
                else if cs_managed cs \<noteq> [] then Inr (Some (Inl ''it manages relationships''))
                else bindE (pk_name r) (\<lambda>pk. bindE (required_pk existing pk) (\<lambda>key.
                  case lock_versions existing (optimistic_locks action) of
                    None \<Rightarrow> Inr None
                  | Some versions \<Rightarrow> bindE (plan_update x ats now r action
                      \<lparr>pi_actor = ctx_actor ctx, pi_tenant = ctx_tenant ctx, pi_sets = changes_of cs (cs_fields cs),
                       pi_arguments = cs_arguments cs,
                       pi_expected_versions = (if has_optimistic_lock action then Some (key, versions) else None),
                       pi_collect_hooks = False, pi_can_raise = dl_can_raise_atomically dl r\<rparr>) (\<lambda>p. Inr (Some p))))) (\<lambda>p.
               case p of
                 None \<Rightarrow> Inr None
               | Some (Inr plan) \<Rightarrow> Inr (Some plan)
               | Some (Inl reason) \<Rightarrow>
                   if act_require_atomic action then Inl (EMustBeAtomic (r_name r) (act_name action) reason)
                   else Inr None))"

definition first_of :: "'a list \<Rightarrow> 'a option" where
  "first_of xs = (case xs of [] \<Rightarrow> None | x # _ \<Rightarrow> Some x)"

definition primary_action :: "resource_def \<Rightarrow> action_kind \<Rightarrow> action_def option" where
  "primary_action r kind =
     (let of_kind = filter (\<lambda>a. act_kind a = kind) (r_actions r)
      in case List.find act_primary of_kind of Some a \<Rightarrow> Some a | None \<Rightarrow> first_of of_kind)"

definition upsert_identity :: "resource_def \<Rightarrow> string \<Rightarrow> identity_def res" where
  "upsert_identity r name =
     ok_or (identity_of r name) (EInvalid (''unknown identity `'' @ name @ ''` for upsert on '' @ r_name r))"

end
