(* ===== verification/AshManaged.thy ===== *)
theory AshManaged
  imports AshChangeset
begin

text \<open>
  Destroys that cascade and managed relationships (\<open>crates/ash-core/src/engine/managed.rs\<close>).
  A related record is written by a commit of its own, so the two call each other: the
  operations here are given the commit as \<open>calls\<close>, and the commit is tied to them with fuel
  where it's defined.

  The records a destroy has entered are \<open>w_visited\<close>, which a destroy of its own starts empty.
  A map or set keyed by values is a list compared by value; a map is gone through in the order
  its keys were first put.
\<close>

section \<open>What the engine works with\<close>

record 'd engine =
  en_env :: env
  en_layer :: "'d data_layer"
  en_transactor :: "('d, fields) transactor option"

record 'd calls =
  call_commit :: "ash_context \<Rightarrow> changeset \<Rightarrow> bool \<Rightarrow> ('d, fields) operation"
  call_deletes :: "ash_context \<Rightarrow> resource_def \<Rightarrow> Value \<Rightarrow> fields \<Rightarrow> bool \<Rightarrow> ('d, unit) operation"

definition destination_of :: "'d engine \<Rightarrow> relationship_def \<Rightarrow> resource_def res" where
  "destination_of eng rel = ok_or (destination (e_registry (en_env eng)) rel) (EPanic ''unresolved relationship'')"

definition through_of :: "'d engine \<Rightarrow> string \<Rightarrow> resource_def res" where
  "through_of eng name = ok_or (resource_named (e_registry (en_env eng)) name) (EPanic ''unresolved relationship'')"

definition for_create_forcing ::
    "'d engine \<Rightarrow> ash_context \<Rightarrow> resource_def \<Rightarrow> action_def \<Rightarrow> fields \<Rightarrow> fields \<Rightarrow> ('d, changeset) operation" where
  "for_create_forcing eng ctx r action input forced =
     bindS (draw_uuid (en_env eng)) (\<lambda>new_v4.
     bindS (draw_now (en_env eng)) (\<lambda>now.
       lift_res (create_changeset (e_external (en_env eng)) new_v4 now ctx r action input forced)))"

definition for_update_forcing ::
    "'d engine \<Rightarrow> ash_context \<Rightarrow> resource_def \<Rightarrow> action_def \<Rightarrow> fields \<Rightarrow> fields \<Rightarrow> fields \<Rightarrow> ('d, changeset) operation" where
  "for_update_forcing eng ctx r action existing input forced =
     bindS (draw_now (en_env eng)) (\<lambda>now.
       lift_res (update_changeset (e_external (en_env eng)) (e_registry (en_env eng)) now ctx r action existing input forced))"

definition for_destroy_with ::
    "'d engine \<Rightarrow> ash_context \<Rightarrow> resource_def \<Rightarrow> action_def \<Rightarrow> fields \<Rightarrow> fields \<Rightarrow> ('d, changeset) operation" where
  "for_destroy_with eng ctx r action existing input =
     lift_res (destroy_changeset (e_external (en_env eng)) ctx r action existing input)"

text \<open>The rows of \<open>r\<close> the filter finds, as the writer's tenant reads them.\<close>

definition rows_where :: "'d engine \<Rightarrow> ash_context \<Rightarrow> resource_def \<Rightarrow> Filter \<Rightarrow> ('d, fields list) operation" where
  "rows_where eng ctx r f =
     reading (\<lambda>d. dl_run_query (en_layer eng) d r (default_query\<lparr>q_filter := Some f, q_tenant := ctx_tenant ctx\<rparr>))"

definition create_row :: "'d engine \<Rightarrow> ash_context \<Rightarrow> resource_def \<Rightarrow> Value \<Rightarrow> fields \<Rightarrow> ('d, fields) operation" where
  "create_row eng ctx r key fs = writing (\<lambda>d. dl_create (en_layer eng) d r (ctx_tenant ctx) key fs)"

definition update_row :: "'d engine \<Rightarrow> ash_context \<Rightarrow> resource_def \<Rightarrow> Value \<Rightarrow> fields \<Rightarrow> ('d, fields) operation" where
  "update_row eng ctx r key fs = writing (\<lambda>d. dl_update (en_layer eng) d r (ctx_tenant ctx) key fs)"

definition destroy_row :: "'d engine \<Rightarrow> ash_context \<Rightarrow> resource_def \<Rightarrow> Value \<Rightarrow> ('d, unit) operation" where
  "destroy_row eng ctx r key = writing (\<lambda>d. dl_destroy (en_layer eng) d r (ctx_tenant ctx) key)"

text \<open>A row written with no action, its key made when the resource makes one.\<close>

definition create_bare :: "'d engine \<Rightarrow> ash_context \<Rightarrow> resource_def \<Rightarrow> fields \<Rightarrow> ('d, fields) operation" where
  "create_bare eng ctx r fs =
     bindS (draw_uuid (en_env eng)) (\<lambda>new_v4.
     let fs = generate_pk new_v4 r fs
     in bindS (lift_res (new_pk r fs)) (\<lambda>key. create_row eng ctx r key fs))"

section \<open>Cascades\<close>

definition visited :: "string \<Rightarrow> Value \<Rightarrow> (string \<times> Value) list \<Rightarrow> bool" where
  "visited name key vs \<longleftrightarrow> list_ex (\<lambda>(n, k). n = name \<and> value_eq k key) vs"

definition enter :: "resource_def \<Rightarrow> Value \<Rightarrow> ('d, bool) operation" where
  "enter r key = (\<lambda>w. if visited (r_name r) key (w_visited w) then (Inr False, w)
     else (Inr True, w\<lparr>w_visited := (r_name r, key) # w_visited w\<rparr>))"

text \<open>\<open>Cascade::new\<close>, for the work of one destroy.\<close>

definition new_cascade :: "('d, 'a) operation \<Rightarrow> ('d, 'a) operation" where
  "new_cascade work = (\<lambda>w. let (result, w') = work (w\<lparr>w_visited := []\<rparr>) in (result, w'\<lparr>w_visited := w_visited w\<rparr>))"

definition or_insert :: "fields \<Rightarrow> string \<Rightarrow> Value \<Rightarrow> fields" where
  "or_insert fs key v = (if fm_contains fs key then fs else fm_insert key v fs)"

definition with_primary_key :: "resource_def \<Rightarrow> Value \<Rightarrow> fields \<Rightarrow> fields res" where
  "with_primary_key r key fs = bindE (pk_name r) (\<lambda>pk. Inr (or_insert fs pk key))"

definition child_destroy_action :: "resource_def \<Rightarrow> bool \<Rightarrow> action_def option" where
  "child_destroy_action dest hard =
     (let destroys = filter (\<lambda>a. act_kind a = Destroy \<and> \<not> (hard \<and> act_soft a)) (r_actions dest)
      in case List.find act_primary destroys of Some a \<Rightarrow> Some a | None \<Rightarrow> first_of destroys)"

definition destroy_dynamic_input ::
    "'d engine \<Rightarrow> 'd calls \<Rightarrow> ash_context \<Rightarrow> resource_def \<Rightarrow> action_def \<Rightarrow> Value \<Rightarrow> fields \<Rightarrow> fields \<Rightarrow> bool \<Rightarrow>
     ('d, fields) operation" where
  "destroy_dynamic_input eng calls ctx r action key existing input notify =
     bindS (lift_res (with_primary_key r key existing)) (\<lambda>existing.
     bindS (for_destroy_with eng ctx r action existing input) (\<lambda>cs.
       call_commit calls ctx cs notify))"

definition destroy_dynamic_with ::
    "'d engine \<Rightarrow> 'd calls \<Rightarrow> ash_context \<Rightarrow> resource_def \<Rightarrow> action_def \<Rightarrow> Value \<Rightarrow> fields \<Rightarrow> bool \<Rightarrow>
     ('d, fields) operation" where
  "destroy_dynamic_with eng calls ctx r action key existing notify =
     destroy_dynamic_input eng calls ctx r action key existing [] notify"

definition destroy_child ::
    "'d engine \<Rightarrow> 'd calls \<Rightarrow> ash_context \<Rightarrow> resource_def \<Rightarrow> bool \<Rightarrow> bool \<Rightarrow> string \<Rightarrow> fields \<Rightarrow> ('d, unit) operation" where
  "destroy_child eng calls ctx dest hard notify pk row =
     bindS (lift_res (required_pk row pk)) (\<lambda>key.
       case child_destroy_action dest hard of
         Some action \<Rightarrow> bindS (destroy_dynamic_with eng calls ctx dest action key row notify) (\<lambda>_. give ())
       | None \<Rightarrow> bindS (enter dest key) (\<lambda>entered.
           if entered
           then bindS (call_deletes calls ctx dest key row notify) (\<lambda>_. destroy_row eng ctx dest key)
           else give ()))"

definition destroy_children ::
    "'d engine \<Rightarrow> 'd calls \<Rightarrow> ash_context \<Rightarrow> resource_def \<Rightarrow> bool \<Rightarrow> bool \<Rightarrow> Filter \<Rightarrow> ('d, unit) operation" where
  "destroy_children eng calls ctx dest hard notify f =
     bindS (rows_where eng ctx dest f) (\<lambda>rows.
     bindS (lift_res (pk_name dest)) (\<lambda>pk.
       for_each (destroy_child eng calls ctx dest hard notify pk) rows))"

definition cascade_relationship :: "resource_def \<Rightarrow> string \<Rightarrow> relationship_def res" where
  "cascade_relationship r name =
     bindE (ok_or (relationship r name)
       (EInvalid (''cascade_destroy names unknown relationship `'' @ name @ ''` on '' @ r_name r))) (\<lambda>rel.
       if rel_kind_of rel = HasMany \<or> rel_kind_of rel = HasOne then Inr rel
       else Inl (EInvalid (''cascade_destroy supports has_many and has_one, but `'' @ name @ ''` on '' @ r_name r @ '' is not'')))"

definition cascade_destroy_one ::
    "'d engine \<Rightarrow> 'd calls \<Rightarrow> ash_context \<Rightarrow> resource_def \<Rightarrow> bool \<Rightarrow> bool \<Rightarrow> fields \<Rightarrow> string \<Rightarrow> ('d, unit) operation" where
  "cascade_destroy_one eng calls ctx r hard notify parent name =
     bindS (lift_res (cascade_relationship r name)) (\<lambda>rel.
     bindS (lift_res (destination_of eng rel)) (\<lambda>dest.
       if list_all (\<lambda>a. act_kind a \<noteq> Destroy) (r_actions dest)
       then lift_res (Inl (EInvalid (''cascade_destroy needs a destroy action on '' @ r_name dest)))
       else (case destination_filter rel parent of
          None \<Rightarrow> give ()
        | Some related \<Rightarrow> destroy_children eng calls ctx dest hard notify
            (filter_and (related # opt_list (if hard then None else primary_read_filter dest))))))"

definition cascade_destroy_related ::
    "'d engine \<Rightarrow> 'd calls \<Rightarrow> ash_context \<Rightarrow> resource_def \<Rightarrow> action_def \<Rightarrow> Value \<Rightarrow> fields \<Rightarrow> bool \<Rightarrow> ('d, unit) operation" where
  "cascade_destroy_related eng calls ctx r action key fs notify =
     bindS (lift_res (with_primary_key r key fs)) (\<lambda>parent.
       for_each (cascade_destroy_one eng calls ctx r (\<not> act_soft action) notify parent) (act_cascade_destroy action))"

text \<open>Each relationship's \<open>on_delete\<close>, before the record is deleted.\<close>

definition restrict_deletes ::
    "'d engine \<Rightarrow> ash_context \<Rightarrow> resource_def \<Rightarrow> relationship_def \<Rightarrow> resource_def \<Rightarrow> Filter \<Rightarrow> ('d, unit) operation" where
  "restrict_deletes eng ctx r rel dest f =
     bindS (rows_where eng ctx dest f) (\<lambda>rows.
       if rows = [] then give () else lift_res (Inl (EDeleteRestricted (r_name r) (rel_name rel) (length rows))))"

definition nilify_row :: "'d engine \<Rightarrow> ash_context \<Rightarrow> relationship_def \<Rightarrow> resource_def \<Rightarrow> string \<Rightarrow> fields \<Rightarrow> ('d, unit) operation" where
  "nilify_row eng ctx rel dest pk row =
     bindS (lift_res (required_pk row pk)) (\<lambda>key.
     bindS (update_row eng ctx dest key (fold (\<lambda>column. fm_insert column VNull) (destination_columns rel) [])) (\<lambda>_.
       give ()))"

definition nilify_deletes ::
    "'d engine \<Rightarrow> ash_context \<Rightarrow> relationship_def \<Rightarrow> resource_def \<Rightarrow> Filter \<Rightarrow> ('d, unit) operation" where
  "nilify_deletes eng ctx rel dest f =
     bindS (rows_where eng ctx dest f) (\<lambda>rows.
     bindS (lift_res (pk_name dest)) (\<lambda>pk. for_each (nilify_row eng ctx rel dest pk) rows))"

definition has_deletes ::
    "'d engine \<Rightarrow> 'd calls \<Rightarrow> ash_context \<Rightarrow> resource_def \<Rightarrow> relationship_def \<Rightarrow> fields \<Rightarrow> bool \<Rightarrow> ('d, unit) operation" where
  "has_deletes eng calls ctx r rel parent notify =
     (if rel_on_delete rel = OnDeleteNothing then give ()
      else bindS (lift_res (destination_of eng rel)) (\<lambda>dest.
        case destination_filter rel parent of
          None \<Rightarrow> give ()
        | Some f \<Rightarrow>
            (case rel_on_delete rel of
               OnDeleteNothing \<Rightarrow> give ()
             | OnDeleteRestrict \<Rightarrow> restrict_deletes eng ctx r rel dest f
             | OnDeleteCascade \<Rightarrow> destroy_children eng calls ctx dest True notify f
             | OnDeleteNilify \<Rightarrow> nilify_deletes eng ctx rel dest f)))"

definition through_deletes ::
    "'d engine \<Rightarrow> 'd calls \<Rightarrow> ash_context \<Rightarrow> resource_def \<Rightarrow> relationship_def \<Rightarrow> Value \<Rightarrow> fields \<Rightarrow> bool \<Rightarrow> ('d, unit) operation" where
  "through_deletes eng calls ctx r rel key fs notify =
     (case rel_through rel of
        None \<Rightarrow> give ()
      | Some name \<Rightarrow> bindS (lift_res (through_of eng name)) (\<lambda>through.
          let f = FEq (case rel_source_attribute_on_join rel of Some a \<Rightarrow> a | None \<Rightarrow> ''source_id'')
                      (case fm_get fs (rel_source_attribute rel) of Some v \<Rightarrow> v | None \<Rightarrow> key)
          in case rel_on_delete rel of
               OnDeleteNothing \<Rightarrow> give ()
             | OnDeleteRestrict \<Rightarrow> restrict_deletes eng ctx r rel through f
             | OnDeleteCascade \<Rightarrow> destroy_children eng calls ctx through True notify f
             | OnDeleteNilify \<Rightarrow> give ()))"

definition cascade_deletes ::
    "'d engine \<Rightarrow> 'd calls \<Rightarrow> ash_context \<Rightarrow> resource_def \<Rightarrow> Value \<Rightarrow> fields \<Rightarrow> bool \<Rightarrow> ('d, unit) operation" where
  "cascade_deletes eng calls ctx r key fs notify =
     bindS (lift_res (with_primary_key r key fs)) (\<lambda>parent.
       for_each (\<lambda>rel. case rel_kind_of rel of
           BelongsTo \<Rightarrow> give ()
         | ManyToMany \<Rightarrow> through_deletes eng calls ctx r rel key fs notify
         | _ \<Rightarrow> has_deletes eng calls ctx r rel parent notify) (r_relationships r))"

definition handle_cascading_deletes ::
    "'d engine \<Rightarrow> 'd calls \<Rightarrow> ash_context \<Rightarrow> resource_def \<Rightarrow> Value \<Rightarrow> fields \<Rightarrow> ('d, unit) operation" where
  "handle_cascading_deletes eng calls ctx r key fs =
     new_cascade (bindS (enter r key) (\<lambda>_. cascade_deletes eng calls ctx r key fs True))"

section \<open>Destroying a record\<close>

definition cascades :: "resource_def \<Rightarrow> action_def \<Rightarrow> bool" where
  "cascades r action \<longleftrightarrow> act_cascade_destroy action \<noteq> [] \<or>
     list_ex (\<lambda>rel. (rel_kind_of rel = HasMany \<or> rel_kind_of rel = HasOne) \<and> rel_on_delete rel \<noteq> OnDeleteNothing)
       (r_relationships r)"

definition soft_destroy_changes ::
    "external \<Rightarrow> string \<Rightarrow> resource_def \<Rightarrow> action_def \<Rightarrow> fields \<Rightarrow> fields \<Rightarrow> fields res" where
  "soft_destroy_changes x now r action existing fs = prepare_update_fields x now r action existing (differing existing fs)"

definition persist_soft_destroy ::
    "'d engine \<Rightarrow> 'd calls \<Rightarrow> ash_context \<Rightarrow> resource_def \<Rightarrow> action_def \<Rightarrow> Value \<Rightarrow> fields \<Rightarrow> fields \<Rightarrow> lock option \<Rightarrow> bool \<Rightarrow>
     ('d, fields) operation" where
  "persist_soft_destroy eng calls ctx r action key existing fs lock notify =
     bindS (draw_now (en_env eng)) (\<lambda>now.
     bindS (lift_res (soft_destroy_changes (e_external (en_env eng)) now r action existing fs)) (\<lambda>changes.
     bindS (update_guarded (en_layer eng) ctx r key changes lock) (\<lambda>stored.
     bindS (cascade_destroy_related eng calls ctx r action key existing notify) (\<lambda>_. give stored))))"

definition persist_hard_destroy ::
    "'d engine \<Rightarrow> 'd calls \<Rightarrow> ash_context \<Rightarrow> resource_def \<Rightarrow> action_def \<Rightarrow> Value \<Rightarrow> fields \<Rightarrow> lock option \<Rightarrow> bool \<Rightarrow>
     ('d, fields) operation" where
  "persist_hard_destroy eng calls ctx r action key existing lock notify =
     bindS (case lock of
              Some l \<Rightarrow> if cascades r action then check_lock (en_layer eng) ctx r key l else give ()
            | None \<Rightarrow> give ()) (\<lambda>_.
     bindS (cascade_destroy_related eng calls ctx r action key existing notify) (\<lambda>_.
     bindS (cascade_deletes eng calls ctx r key existing notify) (\<lambda>_.
     bindS (destroy_guarded (en_layer eng) ctx r key lock) (\<lambda>_. give existing))))"

definition persist_destroy ::
    "'d engine \<Rightarrow> 'd calls \<Rightarrow> ash_context \<Rightarrow> resource_def \<Rightarrow> action_def \<Rightarrow> Value \<Rightarrow> fields \<Rightarrow> fields \<Rightarrow> bool \<Rightarrow>
     ('d, fields) operation" where
  "persist_destroy eng calls ctx r action key existing fs notify =
     bindS (enter r key) (\<lambda>entered.
       if \<not> entered then give existing
       else bindS (lift_res (lock_of (e_external (en_env eng)) action existing)) (\<lambda>lock.
         if act_soft action then persist_soft_destroy eng calls ctx r action key existing fs lock notify
         else persist_hard_destroy eng calls ctx r action key existing lock notify))"

section \<open>Managed relationships\<close>

definition commit_new :: "'d calls \<Rightarrow> ash_context \<Rightarrow> changeset \<Rightarrow> ('d, fields) operation" where
  "commit_new calls ctx cs = new_cascade (call_commit calls ctx cs True)"

definition create_child ::
    "'d engine \<Rightarrow> 'd calls \<Rightarrow> ash_context \<Rightarrow> resource_def \<Rightarrow> action_def \<Rightarrow> fields \<Rightarrow> fields \<Rightarrow> ('d, fields) operation" where
  "create_child eng calls ctx dest action input link =
     bindS (for_create_forcing eng ctx dest action input (fm_extend [] link)) (commit_new calls ctx)"

definition update_child ::
    "'d engine \<Rightarrow> 'd calls \<Rightarrow> ash_context \<Rightarrow> resource_def \<Rightarrow> action_def \<Rightarrow> fields \<Rightarrow> fields \<Rightarrow> fields \<Rightarrow> ('d, fields) operation" where
  "update_child eng calls ctx dest action existing input link =
     bindS (for_update_forcing eng ctx dest action existing input (fm_extend [] link)) (commit_new calls ctx)"

definition create_dynamic ::
    "'d engine \<Rightarrow> 'd calls \<Rightarrow> ash_context \<Rightarrow> resource_def \<Rightarrow> action_def \<Rightarrow> fields \<Rightarrow> ('d, fields) operation" where
  "create_dynamic eng calls ctx r action input =
     bindS (for_create_forcing eng ctx r action input []) (commit_new calls ctx)"

definition destroy_dynamic ::
    "'d engine \<Rightarrow> 'd calls \<Rightarrow> ash_context \<Rightarrow> resource_def \<Rightarrow> action_def \<Rightarrow> Value \<Rightarrow> fields \<Rightarrow> ('d, unit) operation" where
  "destroy_dynamic eng calls ctx r action key existing =
     bindS (new_cascade (destroy_dynamic_with eng calls ctx r action key existing True)) (\<lambda>_. give ())"

type_synonym 'a value_map = "(Value \<times> 'a) list"

definition value_get :: "Value \<Rightarrow> 'a value_map \<Rightarrow> 'a option" where
  "value_get key m = map_option snd (List.find (\<lambda>(k, _). value_eq k key) m)"

fun value_put :: "Value \<Rightarrow> 'a \<Rightarrow> 'a value_map \<Rightarrow> 'a value_map" where
  "value_put key v [] = [(key, v)]"
| "value_put key v ((k, u) # m) = (if value_eq k key then (k, v) # m else (k, u) # value_put key v m)"

definition value_in :: "Value \<Rightarrow> Value list \<Rightarrow> bool" where
  "value_in v vs \<longleftrightarrow> list_ex (value_eq v) vs"

definition key_type :: "resource_def \<Rightarrow> attr_type" where
  "key_type r = (case primary_key r of Some pk \<Rightarrow> a_ty pk | None \<Rightarrow> TUuid)"

text \<open>What an input's key names, as the related resource's key is stored.\<close>

definition given_key :: "'d engine \<Rightarrow> resource_def \<Rightarrow> Value option \<Rightarrow> Value option" where
  "given_key eng dest v = Option.bind v (pk_cast (e_external (en_env eng)) (key_type dest))"

definition parent_link :: "relationship_def \<Rightarrow> fields \<Rightarrow> fields" where
  "parent_link rel parent = map (\<lambda>(source, destination). (destination, or_null (fm_get parent source))) (key_pairs rel)"

definition create_related ::
    "'d engine \<Rightarrow> 'd calls \<Rightarrow> ash_context \<Rightarrow> resource_def \<Rightarrow> fields \<Rightarrow> fields \<Rightarrow> ('d, fields) operation" where
  "create_related eng calls ctx dest link input =
     (case primary_action dest Create of
        Some action \<Rightarrow> create_child eng calls ctx dest action input link
      | None \<Rightarrow> create_bare eng ctx dest (fm_extend input link))"

definition update_related ::
    "'d engine \<Rightarrow> 'd calls \<Rightarrow> ash_context \<Rightarrow> resource_def \<Rightarrow> string \<Rightarrow> fields \<Rightarrow> Value \<Rightarrow> fields \<Rightarrow> fields \<Rightarrow>
     ('d, fields) operation" where
  "update_related eng calls ctx dest pk link key existing input =
     (case primary_action dest Update of
        Some action \<Rightarrow> update_child eng calls ctx dest action existing (fm_remove pk input) link
      | None \<Rightarrow> update_row eng ctx dest key (fm_extend input link))"

definition rows_by_key :: "string \<Rightarrow> fields list \<Rightarrow> fields value_map" where
  "rows_by_key pk rows = fold (\<lambda>row m. case required_pk row pk of Inr key \<Rightarrow> value_put key row m | Inl _ \<Rightarrow> m) rows []"

text \<open>One of the inputs a relationship is to hold: the child it names, else a new one. Its key is kept.\<close>

definition control_child ::
    "'d engine \<Rightarrow> 'd calls \<Rightarrow> ash_context \<Rightarrow> resource_def \<Rightarrow> string \<Rightarrow> fields \<Rightarrow> fields value_map \<Rightarrow> Value list \<Rightarrow> fields \<Rightarrow>
     ('d, Value list) operation" where
  "control_child eng calls ctx dest pk link existing kept input =
     (case Option.bind (given_key eng dest (fm_get input pk))
             (\<lambda>key. map_option (\<lambda>row. (key, row)) (value_get key existing)) of
        Some (key, row) \<Rightarrow> bindS (update_related eng calls ctx dest pk link key row input) (\<lambda>_. give (key # kept))
      | None \<Rightarrow>
          bindS (create_related eng calls ctx dest link (fm_remove pk input)) (\<lambda>stored.
          bindS (lift_res (required_pk stored pk)) (\<lambda>key. give (key # kept))))"

definition remove_omitted ::
    "'d engine \<Rightarrow> 'd calls \<Rightarrow> ash_context \<Rightarrow> resource_def \<Rightarrow> relationship_def \<Rightarrow> fields \<Rightarrow> Value \<Rightarrow> fields \<Rightarrow>
     ('d, unit) operation" where
  "remove_omitted eng calls ctx dest rel link key row =
     (let unlink = map (\<lambda>(column, _). (column, VNull)) link
      in if rel_on_delete rel = OnDeleteNilify then
           (case primary_action dest Update of
              Some action \<Rightarrow> bindS (update_child eng calls ctx dest action row [] unlink) (\<lambda>_. give ())
            | None \<Rightarrow> bindS (update_row eng ctx dest key (fm_extend row unlink)) (\<lambda>_. give ()))
         else
           (case primary_action dest Destroy of
              Some action \<Rightarrow> destroy_dynamic eng calls ctx dest action key row
            | None \<Rightarrow> destroy_row eng ctx dest key))"

definition control_children ::
    "'d engine \<Rightarrow> 'd calls \<Rightarrow> ash_context \<Rightarrow> resource_def \<Rightarrow> relationship_def \<Rightarrow> string \<Rightarrow> fields \<Rightarrow> fields \<Rightarrow> fields list \<Rightarrow>
     ('d, unit) operation" where
  "control_children eng calls ctx dest rel pk parent link inputs =
     bindS (rows_where eng ctx dest (case destination_filter rel parent of Some f \<Rightarrow> f | None \<Rightarrow> FFalse)) (\<lambda>rows.
     let existing = rows_by_key pk rows
     in bindS (fold_ops (control_child eng calls ctx dest pk link existing) [] inputs) (\<lambda>kept.
          for_each (\<lambda>(key, row). if value_in key kept then give ()
            else remove_omitted eng calls ctx dest rel link key row) existing))"

definition manage_has ::
    "'d engine \<Rightarrow> 'd calls \<Rightarrow> ash_context \<Rightarrow> relationship_def \<Rightarrow> fields \<Rightarrow> managed_spec \<Rightarrow> ('d, unit) operation" where
  "manage_has eng calls ctx rel parent managed =
     bindS (lift_res (destination_of eng rel)) (\<lambda>dest.
     let link = parent_link rel parent
     in bindS (lift_res (pk_name dest)) (\<lambda>pk.
          if ms_rel_type managed = ManagedDirectControl
          then control_children eng calls ctx dest rel pk parent link (ms_inputs managed)
          else for_each (\<lambda>input. bindS (create_related eng calls ctx dest link input) (\<lambda>_. give ())) (ms_inputs managed)))"

text \<open>Through a join resource: the related record's key, then the row that joins it.\<close>

definition target_key ::
    "'d engine \<Rightarrow> 'd calls \<Rightarrow> ash_context \<Rightarrow> resource_def \<Rightarrow> string \<Rightarrow> fields \<Rightarrow> ('d, Value) operation" where
  "target_key eng calls ctx dest pk input =
     (case required_pk input pk of
        Inr key \<Rightarrow> give key
      | Inl _ \<Rightarrow>
          bindS (case primary_action dest Create of
                   Some action \<Rightarrow> create_dynamic eng calls ctx dest action input
                 | None \<Rightarrow> create_bare eng ctx dest input) (\<lambda>stored.
            lift_res (required_pk stored pk)))"

definition join_row :: "'d engine \<Rightarrow> ash_context \<Rightarrow> resource_def \<Rightarrow> string \<Rightarrow> string \<Rightarrow> Value \<Rightarrow> Value \<Rightarrow> ('d, unit) operation" where
  "join_row eng ctx through source_fk dest_fk parent_key target =
     bindS (create_bare eng ctx through (fm_insert dest_fk target (fm_insert source_fk parent_key []))) (\<lambda>_. give ())"

definition joins_by_target ::
    "'d engine \<Rightarrow> resource_def \<Rightarrow> string \<Rightarrow> string \<Rightarrow> fields list \<Rightarrow> (Value \<times> fields) value_map" where
  "joins_by_target eng dest dest_fk join_pk rows =
     fold (\<lambda>row m. case (required_pk row join_pk, given_key eng dest (fm_get row dest_fk)) of
             (Inr key, Some target) \<Rightarrow> value_put target (key, row) m
           | _ \<Rightarrow> m) rows []"

definition control_target ::
    "'d engine \<Rightarrow> 'd calls \<Rightarrow> ash_context \<Rightarrow> resource_def \<Rightarrow> resource_def \<Rightarrow> string \<Rightarrow> string \<Rightarrow> string \<Rightarrow> Value \<Rightarrow>
     (Value \<times> fields) value_map \<Rightarrow> Value list \<Rightarrow> fields \<Rightarrow> ('d, Value list) operation" where
  "control_target eng calls ctx through dest source_fk dest_fk dest_pk parent_key existing kept input =
     bindS (target_key eng calls ctx dest dest_pk input) (\<lambda>target.
     bindS (if value_get target existing = None then join_row eng ctx through source_fk dest_fk parent_key target
            else give ()) (\<lambda>_. give (target # kept)))"

definition manage_through ::
    "'d engine \<Rightarrow> 'd calls \<Rightarrow> ash_context \<Rightarrow> relationship_def \<Rightarrow> string \<Rightarrow> Value \<Rightarrow> managed_spec \<Rightarrow> ('d, unit) operation" where
  "manage_through eng calls ctx rel through_name parent_key managed =
     bindS (lift_res (through_of eng through_name)) (\<lambda>through.
     bindS (lift_res (destination_of eng rel)) (\<lambda>dest.
     let source_fk = (case rel_source_attribute_on_join rel of Some a \<Rightarrow> a | None \<Rightarrow> ''source_id'');
         dest_fk = (case rel_destination_attribute_on_join rel of Some a \<Rightarrow> a | None \<Rightarrow> ''dest_id'')
     in bindS (lift_res (pk_name through)) (\<lambda>join_pk.
        bindS (lift_res (pk_name dest)) (\<lambda>dest_pk.
        if ms_rel_type managed = ManagedDirectControl then
          bindS (rows_where eng ctx through (FEq source_fk parent_key)) (\<lambda>rows.
          let existing = joins_by_target eng dest dest_fk join_pk rows
          in bindS (fold_ops (control_target eng calls ctx through dest source_fk dest_fk dest_pk parent_key existing) []
               (ms_inputs managed)) (\<lambda>kept.
             for_each (\<lambda>(target, (key, row)). if value_in target kept then give ()
               else (case primary_action through Destroy of
                       Some action \<Rightarrow> destroy_dynamic eng calls ctx through action key row
                     | None \<Rightarrow> destroy_row eng ctx through key)) existing))
        else for_each (\<lambda>input.
          bindS (target_key eng calls ctx dest dest_pk input) (\<lambda>target.
            join_row eng ctx through source_fk dest_fk parent_key target)) (ms_inputs managed)))))"

definition manage_one ::
    "'d engine \<Rightarrow> 'd calls \<Rightarrow> ash_context \<Rightarrow> resource_def \<Rightarrow> Value \<Rightarrow> fields \<Rightarrow> managed_spec \<Rightarrow> ('d, unit) operation" where
  "manage_one eng calls ctx r parent_key parent managed =
     bindS (lift_res (ok_or (relationship r (ms_relationship managed))
       (EInvalid (''unknown relationship `'' @ ms_relationship managed @ ''` on '' @ r_name r)))) (\<lambda>rel.
       case rel_kind_of rel of
         BelongsTo \<Rightarrow> give ()
       | ManyToMany \<Rightarrow> (case rel_through rel of
             None \<Rightarrow> give ()
           | Some through_name \<Rightarrow> manage_through eng calls ctx rel through_name parent_key managed)
       | _ \<Rightarrow> manage_has eng calls ctx rel parent managed)"

definition handle_managed_relationships ::
    "'d engine \<Rightarrow> 'd calls \<Rightarrow> ash_context \<Rightarrow> resource_def \<Rightarrow> Value \<Rightarrow> fields \<Rightarrow> managed_spec list \<Rightarrow> ('d, unit) operation" where
  "handle_managed_relationships eng calls ctx r parent_key fs managed =
     bindS (lift_res (with_primary_key r parent_key fs)) (\<lambda>parent.
       for_each (manage_one eng calls ctx r parent_key parent) managed)"

end
