(* ===== verification/AshCommit.thy ===== *)
theory AshCommit
  imports AshManaged
begin

text \<open>
  Running a prepared write (the commit of \<open>crates/ash-core/src/changeset/dynamic.rs\<close>): what is
  checked before it's written, the records it belongs to, writing it, its managed
  relationships and notification.

  \<open>commit_body\<close> is the code's \<open>commit_within\<close>, given what its related writes call;
  \<open>engine_calls\<close> ties the two, as deep as its fuel allows.
\<close>

section \<open>Before it's written\<close>

definition run_before_actions :: "changeset \<Rightarrow> changeset_core res" where
  "run_before_actions cs = foldE (\<lambda>cs hook. hook cs) (core_of cs) (cs_before_actions cs)"

definition managed_input_action :: "resource_def \<Rightarrow> string \<Rightarrow> managed_spec \<Rightarrow> fields \<Rightarrow> action_def option" where
  "managed_input_action dest pk managed input =
     primary_action dest
       (if fm_contains input pk \<and> ms_rel_type managed = ManagedDirectControl then Update else Create)"

definition validate_managed_input :: "external \<Rightarrow> resource_def \<Rightarrow> string \<Rightarrow> managed_spec \<Rightarrow> fields \<Rightarrow> unit res" where
  "validate_managed_input x dest pk managed input =
     (case managed_input_action dest pk managed input of
        Some action \<Rightarrow> run_validations x action None input []
      | None \<Rightarrow> Inr ())"

definition validate_managed ::
    "'d engine \<Rightarrow> resource_def \<Rightarrow> managed_spec \<Rightarrow> unit res" where
  "validate_managed eng r managed =
     (case relationship r (ms_relationship managed) of
        None \<Rightarrow> Inr ()
      | Some rel \<Rightarrow>
          bindE (destination_of eng rel) (\<lambda>dest.
          bindE (pk_name dest) (\<lambda>pk.
            foldE (\<lambda>_ input. validate_managed_input (e_external (en_env eng)) dest pk managed input) () (ms_inputs managed))))"

definition validate_managed_inputs :: "'d engine \<Rightarrow> changeset_core \<Rightarrow> unit res" where
  "validate_managed_inputs eng cs = foldE (\<lambda>_. validate_managed eng (cs_resource cs)) () (cs_managed cs)"

text \<open>The row a managed \<open>belongs_to\<close> relates, so every key column can be copied from it.\<close>

definition related_row ::
    "'d engine \<Rightarrow> 'd calls \<Rightarrow> ash_context \<Rightarrow> relationship_def \<Rightarrow> resource_def \<Rightarrow> string \<Rightarrow> fields \<Rightarrow> ('d, fields) operation" where
  "related_row eng calls ctx rel dest pk input =
     (case required_pk input pk of
        Inr key \<Rightarrow>
          if destination_columns rel = [pk] then give input
          else bindS (rows_where eng ctx dest (FEq pk key)) (\<lambda>rows. lift_res (ok_or (first_row rows) ENotFound))
      | Inl _ \<Rightarrow>
          (case primary_action dest Create of
             Some action \<Rightarrow> bindS (for_create_forcing eng ctx dest action input []) (commit_new calls ctx)
           | None \<Rightarrow>
               bindS (draw_uuid (en_env eng)) (\<lambda>new_v4.
               let input = generate_pk new_v4 dest input
               in bindS (lift_res (required_pk input pk)) (\<lambda>key. create_row eng ctx dest key input))))"

definition attach_one ::
    "'d engine \<Rightarrow> 'd calls \<Rightarrow> ash_context \<Rightarrow> changeset_core \<Rightarrow> managed_spec \<Rightarrow>
     ('d, changeset_core \<times> managed_spec) operation" where
  "attach_one eng calls ctx cs managed =
     (case relationship (cs_resource cs) (ms_relationship managed) of
        None \<Rightarrow> give (cs, managed)
      | Some rel \<Rightarrow>
          if rel_kind_of rel \<noteq> BelongsTo then give (cs, managed)
          else bindS (lift_res (destination_of eng rel)) (\<lambda>dest.
               bindS (lift_res (pk_name dest)) (\<lambda>pk.
                 case rev (ms_inputs managed) of
                   [] \<Rightarrow> give (cs, managed)
                 | input # before \<Rightarrow>
                     bindS (related_row eng calls ctx rel dest pk input) (\<lambda>related.
                       give (cs\<lparr>cs_fields := fold (\<lambda>(source, destination) fs.
                                 fm_insert source (or_null (fm_get related destination)) fs) (key_pairs rel) (cs_fields cs)\<rparr>,
                             managed\<lparr>ms_inputs := rev before\<rparr>)))))"

definition attach_belongs_to ::
    "'d engine \<Rightarrow> 'd calls \<Rightarrow> ash_context \<Rightarrow> changeset_core \<Rightarrow> ('d, changeset_core) operation" where
  "attach_belongs_to eng calls ctx cs =
     bindS (fold_ops (\<lambda>(cs, done). \<lambda>managed. bindS (attach_one eng calls ctx cs managed) (\<lambda>(cs, managed).
         give (cs, done @ [managed]))) (cs, []) (cs_managed cs)) (\<lambda>(cs, done).
       give (cs\<lparr>cs_managed := done\<rparr>))"

text \<open>What is checked before anything is written: hooks, validations, the write policy, managed inputs.\<close>

definition check_write :: "'d engine \<Rightarrow> ash_context \<Rightarrow> changeset \<Rightarrow> changeset_core res" where
  "check_write eng ctx cs =
     (let x = e_external (en_env eng)
      in bindE (run_before_actions cs) (\<lambda>cs.
         bindE (changeset_validations x ctx cs) (\<lambda>_.
         bindE (if act_kind (cs_action cs) = Destroy then Inr cs
                else bindE (validate x (cs_resource cs) (cs_fields cs)) (\<lambda>fs. Inr (cs\<lparr>cs_fields := fs\<rparr>))) (\<lambda>cs.
         bindE (expect_persist (cs_action cs) PersistDataLayer) (\<lambda>_.
         bindE (changeset_authorize x (e_registry (en_env eng)) ctx cs) (\<lambda>_.
         bindE (validate_managed_inputs eng cs) (\<lambda>_. Inr cs)))))))"

definition write_key :: "changeset_core \<Rightarrow> Value res" where
  "write_key cs =
     (if act_kind (cs_action cs) = Create then new_pk (cs_resource cs) (cs_fields cs)
      else bindE (pk_name (cs_resource cs)) (required_pk (cs_fields cs)))"

definition prepare ::
    "'d engine \<Rightarrow> 'd calls \<Rightarrow> ash_context \<Rightarrow> changeset \<Rightarrow> ('d, Value \<times> changeset_core) operation" where
  "prepare eng calls ctx cs =
     bindS (lift_res (check_write eng ctx cs)) (\<lambda>cs.
     bindS (attach_belongs_to eng calls ctx cs) (\<lambda>cs.
     bindS (lift_res (apply_tenant_to_fields (cs_resource cs) (cs_fields cs) (ctx_tenant ctx)
       (act_kind (cs_action cs) = Create))) (\<lambda>fs.
     let cs = cs\<lparr>cs_fields := fs\<rparr>
     in bindS (lift_res (write_key cs)) (\<lambda>key. give (key, cs)))))"

section \<open>Writing it\<close>

definition persist ::
    "'d engine \<Rightarrow> 'd calls \<Rightarrow> ash_context \<Rightarrow> changeset_core \<Rightarrow> Value \<Rightarrow> bool \<Rightarrow> ('d, fields) operation" where
  "persist eng calls ctx cs key notify =
     (let r = cs_resource cs; action = cs_action cs; fs = cs_fields cs
      in case act_kind action of
           Create \<Rightarrow>
             (case cs_upsert cs of
                Some (name, update_fields) \<Rightarrow>
                  bindS (lift_res (upsert_identity r name)) (\<lambda>ident.
                    writing (\<lambda>d. dl_upsert (en_layer eng) d r (ctx_tenant ctx) key fs ident update_fields))
              | None \<Rightarrow> create_row eng ctx r key fs)
         | Update \<Rightarrow>
             bindS (case cs_existing cs of
                      Some existing \<Rightarrow> lift_res (lock_of (e_external (en_env eng)) action existing)
                    | None \<Rightarrow> give None) (\<lambda>lock.
               update_guarded (en_layer eng) ctx r key (changes_of cs fs) lock)
         | Destroy \<Rightarrow>
             persist_destroy eng calls ctx r action key
               (case cs_existing cs of Some existing \<Rightarrow> existing | None \<Rightarrow> fs) fs notify
         | kind \<Rightarrow> lift_res (Inl (EWrongActionKind (act_name action) ''create, update, or destroy'' (kind_name kind))))"

section \<open>After it's written\<close>

definition notification_of :: "ash_context \<Rightarrow> changeset_core \<Rightarrow> Value \<Rightarrow> fields \<Rightarrow> notification" where
  "notification_of ctx cs key stored =
     (notification_new (r_name (cs_resource cs)) (act_name (cs_action cs)) (act_kind (cs_action cs)) key stored
        (cs_existing cs) (ctx_actor ctx) (fm_extend (fm_extend (ctx_metadata ctx) (cs_metadata cs)) (cs_arguments cs)))
       \<lparr>n_tenant := (case cs_tenant cs of Some t \<Rightarrow> Some t | None \<Rightarrow> ctx_tenant ctx)\<rparr>"

text \<open>A create its managed relationships fail is undone, whatever comes of that.\<close>

definition undoing_create ::
    "'d engine \<Rightarrow> ash_context \<Rightarrow> changeset_core \<Rightarrow> Value \<Rightarrow> ('d, unit) operation \<Rightarrow> ('d, unit) operation" where
  "undoing_create eng ctx cs key work = (\<lambda>w.
     case work w of
       (Inr u, w') \<Rightarrow> (Inr u, w')
     | (Inl e, w') \<Rightarrow> (Inl e, if act_kind (cs_action cs) = Create
         then snd (destroy_row eng ctx (cs_resource cs) key w') else w'))"

definition finish ::
    "'d engine \<Rightarrow> 'd calls \<Rightarrow> ash_context \<Rightarrow> changeset_core \<Rightarrow> Value \<Rightarrow> fields \<Rightarrow> bool \<Rightarrow> ('d, fields) operation" where
  "finish eng calls ctx cs key stored notify =
     (let r = cs_resource cs
      in bindS (lift_res (if key = VNull then bindE (pk_name r) (required_pk stored) else Inr key)) (\<lambda>key.
         bindS (undoing_create eng ctx cs key
           (handle_managed_relationships eng calls ctx r key stored (cs_managed cs))) (\<lambda>_.
         bindS (lift_res (foldE (\<lambda>fs hook. hook fs) stored (cs_after_actions cs))) (\<lambda>stored.
         bindS (if notify then dispatch_notification (en_env eng) ctx r (notification_of ctx cs key stored) else give ()) (\<lambda>_.
           give (redact_fields (e_external (en_env eng)) (e_registry (en_env eng)) r (ctx_actor ctx) stored))))))"

section \<open>As one statement\<close>

definition update_planned ::
    "'d engine \<Rightarrow> ash_context \<Rightarrow> resource_def \<Rightarrow> action_def \<Rightarrow> Value \<Rightarrow> atomic_plan \<Rightarrow> Filter option \<Rightarrow>
     (guards \<Rightarrow> 'd \<Rightarrow> error) \<Rightarrow> ('d, fields) operation" where
  "update_planned eng ctx r action key plan scope gone =
     bindS (run_atomic_update (en_layer eng) ctx r action key (pl_update plan) (guards_filter (pl_guards plan)) scope)
       (\<lambda>row. case row of Some stored \<Rightarrow> give stored | None \<Rightarrow> reading (\<lambda>d. Inl (gone (pl_guards plan) d)))"

definition persist_atomically ::
    "'d engine \<Rightarrow> 'd calls \<Rightarrow> ash_context \<Rightarrow> changeset_core \<Rightarrow> atomic_plan \<Rightarrow> bool \<Rightarrow> ('d, fields) operation" where
  "persist_atomically eng calls ctx cs plan notify =
     (let r = cs_resource cs; action = cs_action cs; destroy = (act_kind action = Destroy)
      in bindS (lift_res (ok_or (cs_existing cs) ENotFound)) (\<lambda>existing.
         bindS (lift_res (bindE (pk_name r) (required_pk existing))) (\<lambda>key.
         bindS (if destroy then enter r key else give True) (\<lambda>entered.
         bindS (if \<not> entered then give existing
                else bindS (update_planned eng ctx r action key plan None (\<lambda>g d.
                       if guards_filter g \<noteq> None then guards_unchanged (en_layer eng) ctx r key g d
                       else EStaleRecord (r_name r) key)) (\<lambda>stored.
                     bindS (if destroy then cascade_destroy_related eng calls ctx r action key stored notify else give ()) (\<lambda>_.
                       give stored))) (\<lambda>stored.
           finish eng calls ctx (cs\<lparr>cs_after_actions := cs_after_actions cs @ pl_after_actions plan\<rparr>) key stored notify)))))"

section \<open>Committing\<close>

definition commit_work ::
    "'d engine \<Rightarrow> 'd calls \<Rightarrow> changeset \<Rightarrow> bool \<Rightarrow> ash_context \<Rightarrow> ('d, fields) operation" where
  "commit_work eng calls cs notify ctx =
     bindS (draw_now (en_env eng)) (\<lambda>now.
     bindS (lift_res (changeset_plan (e_external (en_env eng)) (e_atomics (en_env eng)) now (en_layer eng) ctx cs)) (\<lambda>plan.
       case plan of
         Some plan \<Rightarrow> persist_atomically eng calls ctx (core_of cs) plan notify
       | None \<Rightarrow>
           bindS (prepare eng calls ctx cs) (\<lambda>(key, cs).
           bindS (persist eng calls ctx cs key notify) (\<lambda>stored.
             finish eng calls ctx cs key stored notify))))"

definition running_after :: "transaction_hook list \<Rightarrow> ('d, fields) operation \<Rightarrow> ('d, fields) operation" where
  "running_after hooks work = (\<lambda>w. let (result, w') = work w
     in (result, w'\<lparr>w_events := w_events w' @ concat (map (\<lambda>hook. hook result) hooks)\<rparr>))"

definition commit_body ::
    "'d engine \<Rightarrow> 'd calls \<Rightarrow> ash_context \<Rightarrow> changeset \<Rightarrow> bool \<Rightarrow> ('d, fields) operation" where
  "commit_body eng calls ctx cs notify =
     running_after (cs_after_transactions cs)
       (if writes_beyond_record cs then atomically (en_transactor eng) ctx (commit_work eng calls cs notify)
        else commit_work eng calls cs notify ctx)"

definition out_of_fuel :: "('d, 'a) operation" where
  "out_of_fuel = lift_res (Inl (EPanic ''stack overflow''))"

definition no_calls :: "'d calls" where
  "no_calls = \<lparr>call_commit = (\<lambda>_ _ _. out_of_fuel), call_deletes = (\<lambda>_ _ _ _ _. out_of_fuel)\<rparr>"

definition one_deeper :: "'d engine \<Rightarrow> 'd calls \<Rightarrow> 'd calls" where
  "one_deeper eng calls = \<lparr>call_commit = commit_body eng calls, call_deletes = cascade_deletes eng calls\<rparr>"

primrec engine_calls :: "'d engine \<Rightarrow> nat \<Rightarrow> 'd calls" where
  "engine_calls eng 0 = no_calls"
| "engine_calls eng (Suc fuel) = one_deeper eng (engine_calls eng fuel)"

definition commit_changeset :: "'d engine \<Rightarrow> nat \<Rightarrow> ash_context \<Rightarrow> changeset \<Rightarrow> ('d, fields) operation" where
  "commit_changeset eng fuel ctx cs = commit_new (engine_calls eng fuel) ctx cs"

end
