(* ===== verification/AshLifecycle.thy ===== *)
theory AshLifecycle
  imports AshCommit
begin

text \<open>
  Actions by name on any resource (\<open>crates/ash-core/src/engine/lifecycle.rs\<close>), the commit by
  id they may run as (\<open>commit_atomic_by_id\<close> of \<open>changeset/dynamic.rs\<close>), and generic actions
  (\<open>engine/generic.rs\<close>).
\<close>

section \<open>By id, as one statement\<close>

definition by_id_changeset :: "resource_def \<Rightarrow> action_def \<Rightarrow> fields \<Rightarrow> atomic_plan \<Rightarrow> changeset_core" where
  "by_id_changeset r action arguments plan =
     (core_of (changeset_new r action [] arguments None))\<lparr>cs_after_actions := pl_after_actions plan\<rparr>"

definition update_by_id ::
    "'d engine \<Rightarrow> ash_context \<Rightarrow> resource_def \<Rightarrow> action_def \<Rightarrow> Value \<Rightarrow> atomic_plan \<Rightarrow> Filter option \<Rightarrow> ('d, fields) operation" where
  "update_by_id eng ctx r action key plan scope =
     update_planned eng ctx r action key plan scope (guards_unchanged (en_layer eng) ctx r key)"

definition write_by_id ::
    "'d engine \<Rightarrow> 'd calls \<Rightarrow> ash_context \<Rightarrow> resource_def \<Rightarrow> action_def \<Rightarrow> Value \<Rightarrow> fields \<Rightarrow> atomic_plan \<Rightarrow> Filter option \<Rightarrow>
     ('d, fields) operation" where
  "write_by_id eng calls ctx r action key arguments plan scope =
     (let cs = by_id_changeset r action arguments plan
      in if act_kind action = Destroy \<and> \<not> act_soft action then
           bindS (run_atomic_destroy (en_layer eng) ctx r action key (au_conditions (pl_update plan)) scope) (\<lambda>row.
           bindS (lift_res (ok_or row ENotFound)) (\<lambda>destroyed.
             finish eng calls ctx (cs\<lparr>cs_existing := Some destroyed\<rparr>) key destroyed True))
         else if act_kind action = Destroy then
           bindS (enter r key) (\<lambda>_.
           bindS (update_by_id eng ctx r action key plan scope) (\<lambda>stored.
           bindS (cascade_destroy_related eng calls ctx r action key stored True) (\<lambda>_.
             finish eng calls ctx cs key stored True)))
         else
           bindS (update_by_id eng ctx r action key plan scope) (\<lambda>stored.
             finish eng calls ctx cs key stored True))"

definition commit_atomic_by_id ::
    "'d engine \<Rightarrow> 'd calls \<Rightarrow> ash_context \<Rightarrow> resource_def \<Rightarrow> action_def \<Rightarrow> Value \<Rightarrow> fields \<Rightarrow> atomic_plan \<Rightarrow> Filter option \<Rightarrow>
     ('d, fields) operation" where
  "commit_atomic_by_id eng calls ctx r action key arguments plan scope =
     running_after (pl_after_transactions plan)
       (new_cascade (write_by_id eng calls ctx r action key arguments plan scope))"

section \<open>Finding the record\<close>

definition visible_query :: "ash_context \<Rightarrow> resource_def \<Rightarrow> Value \<Rightarrow> Filter option \<Rightarrow> compiled_query res" where
  "visible_query ctx r key scope =
     bindE (pk_name r) (\<lambda>pk.
     bindE (case scope of
              Some scope \<Rightarrow>
                bindE (apply_tenant_scope r (Some (FEq pk key)) (ctx_tenant ctx)) (\<lambda>(f, tenant).
                  Inr (and_filters f (Some scope), tenant))
            | None \<Rightarrow> visible_scope r (Some (FEq pk key)) (ctx_tenant ctx)) (\<lambda>(f, tenant).
       Inr (default_query\<lparr>q_filter := f, q_tenant := tenant, q_actor := ctx_actor ctx\<rparr>)))"

definition read_visible ::
    "'d engine \<Rightarrow> ash_context \<Rightarrow> resource_def \<Rightarrow> Value \<Rightarrow> Filter option \<Rightarrow> ('d, fields) operation" where
  "read_visible eng ctx r key scope =
     bindS (lift_res (visible_query ctx r key scope)) (\<lambda>q.
     bindS (reading (\<lambda>d. dl_run_query (en_layer eng) d r q)) (\<lambda>rows.
       lift_res (ok_or (first_row rows) ENotFound)))"

text \<open>A plan its policies forbid whatever the record is: it's found first, so one its reader can't see isn't there.\<close>

definition found_first ::
    "'d engine \<Rightarrow> ash_context \<Rightarrow> resource_def \<Rightarrow> Value \<Rightarrow> Filter option \<Rightarrow> 'a res \<Rightarrow> ('d, 'a) operation" where
  "found_first eng ctx r key scope result =
     (case result of
        Inl EForbidden \<Rightarrow> bindS (read_visible eng ctx r key scope) (\<lambda>_. lift_res result)
      | _ \<Rightarrow> lift_res result)"

fun gone_error :: "error \<Rightarrow> error" where
  "gone_error (EStaleRecord _ _) = ENotFound"
| "gone_error e = e"

definition changed_is_gone :: "('d, 'a) operation \<Rightarrow> ('d, 'a) operation" where
  "changed_is_gone work = (\<lambda>w. case work w of (Inl e, w') \<Rightarrow> (Inl (gone_error e), w') | (Inr a, w') \<Rightarrow> (Inr a, w'))"

definition plan_by_id ::
    "'d engine \<Rightarrow> string \<Rightarrow> ash_context \<Rightarrow> resource_def \<Rightarrow> action_def \<Rightarrow> fields \<Rightarrow> ((string + atomic_plan) \<times> fields) res" where
  "plan_by_id eng now ctx r action input =
     bindE (split_input r action input) (\<lambda>(accepted, arguments).
     bindE (plan_update (e_external (en_env eng)) (e_atomics (en_env eng)) now r action
       \<lparr>pi_actor = ctx_actor ctx, pi_tenant = ctx_tenant ctx, pi_sets = accepted, pi_arguments = arguments,
        pi_expected_versions = None, pi_collect_hooks = True,
        pi_can_raise = dl_can_raise_atomically (en_layer eng) r\<rparr>) (\<lambda>plan. Inr (plan, arguments)))"

definition finding_scope :: "ash_context \<Rightarrow> resource_def \<Rightarrow> action_def option \<Rightarrow> action_def \<Rightarrow> Filter option res" where
  "finding_scope ctx r read action =
     bindE (case read of Some read \<Rightarrow> Inr (Some read) | None \<Rightarrow> finding_read r action) (\<lambda>read.
       read_scope r read (ctx_actor ctx))"

text \<open>Either way of running by id: planned, or else (\<open>must\<close> it be atomic, failing) read first.\<close>

definition run_by_id ::
    "'d engine \<Rightarrow> 'd calls \<Rightarrow> ash_context \<Rightarrow> resource_def \<Rightarrow> action_def \<Rightarrow> Value \<Rightarrow> fields \<Rightarrow> Filter option \<Rightarrow> bool \<Rightarrow> bool \<Rightarrow>
     ('d, fields) operation \<Rightarrow> ('d, fields) operation" where
  "run_by_id eng calls ctx r action key input scope atomic must read_first =
     (if atomic then
        bindS (draw_now (en_env eng)) (\<lambda>now.
        bindS (found_first eng ctx r key scope (plan_by_id eng now ctx r action input)) (\<lambda>(plan, arguments).
          case plan of
            Inr plan \<Rightarrow> commit_atomic_by_id eng calls ctx r action key arguments plan scope
          | Inl reason \<Rightarrow>
              if must then lift_res (Inl (EMustBeAtomic (r_name r) (act_name action) reason)) else read_first))
      else read_first)"

section \<open>Actions on any resource\<close>

definition update_existing_dynamic ::
    "'d engine \<Rightarrow> 'd calls \<Rightarrow> ash_context \<Rightarrow> resource_def \<Rightarrow> action_def \<Rightarrow> fields \<Rightarrow> fields \<Rightarrow> ('d, fields) operation" where
  "update_existing_dynamic eng calls ctx r action existing input =
     bindS (lift_res (expect_kind action Update)) (\<lambda>_.
     bindS (for_update_forcing eng ctx r action existing input []) (commit_new calls ctx))"

definition update_dynamic_via ::
    "'d engine \<Rightarrow> 'd calls \<Rightarrow> ash_context \<Rightarrow> resource_def \<Rightarrow> action_def option \<Rightarrow> action_def \<Rightarrow> Value \<Rightarrow> fields \<Rightarrow>
     ('d, fields) operation" where
  "update_dynamic_via eng calls ctx r read action key input =
     bindS (lift_res (expect_kind action Update)) (\<lambda>_.
     bindS (lift_res (finding_scope ctx r read action)) (\<lambda>scope.
       run_by_id eng calls ctx r action key input scope
         (\<not> has_optimistic_lock action \<and> dl_can_update_atomically (en_layer eng) r) (act_require_atomic action)
         (bindS (read_visible eng ctx r key scope) (\<lambda>existing.
            changed_is_gone (update_existing_dynamic eng calls ctx r action existing input)))))"

definition update_dynamic ::
    "'d engine \<Rightarrow> 'd calls \<Rightarrow> ash_context \<Rightarrow> resource_def \<Rightarrow> action_def \<Rightarrow> Value \<Rightarrow> fields \<Rightarrow> ('d, fields) operation" where
  "update_dynamic eng calls ctx r action key input = update_dynamic_via eng calls ctx r None action key input"

definition destroy_dynamic_via ::
    "'d engine \<Rightarrow> 'd calls \<Rightarrow> ash_context \<Rightarrow> resource_def \<Rightarrow> action_def option \<Rightarrow> action_def \<Rightarrow> Value \<Rightarrow> fields \<Rightarrow>
     ('d, fields) operation" where
  "destroy_dynamic_via eng calls ctx r read action key input =
     bindS (lift_res (expect_kind action Destroy)) (\<lambda>_.
     bindS (lift_res (finding_scope ctx r read action)) (\<lambda>scope.
       run_by_id eng calls ctx r action key input scope
         (\<not> has_optimistic_lock action \<and>
            (if act_soft action then dl_can_update_atomically (en_layer eng) r
             else dl_can_destroy_atomically (en_layer eng) r))
         (act_soft action \<and> act_require_atomic action)
         (bindS (read_visible eng ctx r key scope) (\<lambda>existing.
            changed_is_gone (new_cascade (destroy_dynamic_input eng calls ctx r action key existing input True))))))"

definition destroy_dynamic_by_id ::
    "'d engine \<Rightarrow> 'd calls \<Rightarrow> ash_context \<Rightarrow> resource_def \<Rightarrow> action_def \<Rightarrow> Value \<Rightarrow> ('d, fields) operation" where
  "destroy_dynamic_by_id eng calls ctx r action key = destroy_dynamic_via eng calls ctx r None action key []"

section \<open>Generic actions\<close>

definition run_generic ::
    "'d engine \<Rightarrow> ash_context \<Rightarrow> resource_def \<Rightarrow> string \<Rightarrow> ('d, 'a) operation \<Rightarrow> ('d, 'a) operation" where
  "run_generic eng ctx r name f =
     bindS (lift_res (action_named r name)) (\<lambda>action.
     bindS (lift_res (expect_kind action Generic)) (\<lambda>_.
     bindS (lift_res (authorize_write (e_external (en_env eng)) (e_registry (en_env eng)) r action (ctx_actor ctx) None)) (\<lambda>_.
     bindS f (\<lambda>result.
     bindS (dispatch_notification (en_env eng) ctx r
       ((notification_new (r_name r) (act_name action) Generic (VUuid 0) [] None (ctx_actor ctx) (ctx_metadata ctx))
          \<lparr>n_tenant := ctx_tenant ctx\<rparr>)) (\<lambda>_.
       give result)))))"

end
