(* ===== verification/AshCascade.thy ===== *)
theory AshCascade
  imports AshLifecycle
begin

text \<open>
  Destroys end. A record a destroy has entered isn't entered again, so a cascade goes no
  deeper than there are records it can reach, whatever cycles their relationships make.
\<close>

section \<open>Works that do the same\<close>

definition entered :: "'d world \<Rightarrow> (string \<times> Value) set" where
  "entered w = {(name, key). visited name key (w_visited w)}"

text \<open>
  Two works do the same from any state that keeps \<open>I\<close> and has entered the records of \<open>V\<close>;
  they keep \<open>I\<close> and leave what was entered entered.
\<close>

definition alike ::
    "('d \<Rightarrow> bool) \<Rightarrow> (string \<times> Value) set \<Rightarrow> ('d, 'a) operation \<Rightarrow> ('d, 'a) operation \<Rightarrow> bool" where
  "alike I V m m' \<longleftrightarrow> (\<forall>w. I (w_data w) \<and> V \<subseteq> entered w \<longrightarrow>
     m w = m' w \<and> I (w_data (snd (m w))) \<and> entered w \<subseteq> entered (snd (m w)))"

named_theorems alike_intros

lemma alikeD:
  assumes "alike I V m m'" "I (w_data w)" "V \<subseteq> entered w"
  shows "m w = m' w" "I (w_data (snd (m w)))" "entered w \<subseteq> entered (snd (m w))"
  using assms unfolding alike_def by blast+

lemma alike_quiet:
  assumes "\<And>w. w_data (snd (m w)) = w_data w" "\<And>w. w_visited (snd (m w)) = w_visited w"
  shows "alike I V m m"
  using assms by (simp add: alike_def entered_def)

lemma alike_give [alike_intros]: "alike I V (give a) (give a)"
  by (rule alike_quiet) (simp_all add: give_def)

lemma alike_lift [alike_intros]: "alike I V (lift_res r) (lift_res r)"
  by (rule alike_quiet) (simp_all add: lift_res_def)

lemma alike_reading [alike_intros]: "alike I V (reading f) (reading f)"
  by (rule alike_quiet) (simp_all add: reading_def)

lemma alike_draw [alike_intros]:
  "alike I V (draw_now env) (draw_now env)" "alike I V (draw_uuid env) (draw_uuid env)"
  by (rule alike_quiet; simp add: draw_now_def draw_uuid_def)+

lemma alike_dispatch [alike_intros]:
  "alike I V (dispatch_notification env ctx r n) (dispatch_notification env ctx r n)"
  by (rule alike_quiet) (auto simp: dispatch_notification_def Let_def)

lemma alike_writing:
  assumes "\<And>d. I d \<Longrightarrow> I (snd (f d))"
  shows "alike I V (writing f) (writing f)"
  using assms by (auto simp: alike_def writing_def entered_def split: prod.split) (metis snd_conv)

lemma alike_bind:
  assumes "alike I V m m'" "\<And>a. alike I V (f a) (f' a)"
  shows "alike I V (bindS m f) (bindS m' f')"
  unfolding alike_def
proof (intro allI impI)
  fix w assume w: "I (w_data w) \<and> V \<subseteq> entered w"
  obtain r w1 where r: "m w = (r, w1)" by (cases "m w")
  then have m: "m' w = (r, w1)" "I (w_data w1)" "entered w \<subseteq> entered w1"
    using w alikeD [OF assms(1), of w] by auto
  show "bindS m f w = bindS m' f' w \<and> I (w_data (snd (bindS m f w))) \<and> entered w \<subseteq> entered (snd (bindS m f w))"
  proof (cases r)
    case (Inl e)
    then show ?thesis using m r by (simp add: bindS_def)
  next
    case (Inr a)
    have "V \<subseteq> entered w1" using w m(3) by blast
    then have "f a w1 = f' a w1" "I (w_data (snd (f a w1)))" "entered w1 \<subseteq> entered (snd (f a w1))"
      using alikeD [OF assms(2) m(2)] by auto
    then show ?thesis using m r Inr by (auto simp: bindS_def)
  qed
qed

lemma alike_bind_lift:
  assumes "\<And>a. r = Inr a \<Longrightarrow> alike I V (f a) (f' a)"
  shows "alike I V (bindS (lift_res r) f) (bindS (lift_res r) f')"
proof (cases r)
  case (Inr a)
  then have "bindS (lift_res r) g = g a" for g :: "'a \<Rightarrow> ('b, 'c) operation" by (intro ext) simp
  then show ?thesis using assms [OF Inr] by simp
qed (simp add: alike_def)

lemma alike_bind_reading:
  assumes "\<And>d a. I d \<Longrightarrow> g d = Inr a \<Longrightarrow> alike I V (f a) (f' a)"
  shows "alike I V (bindS (reading g) f) (bindS (reading g) f')"
  unfolding alike_def
proof (intro allI impI)
  fix w assume w: "I (w_data w) \<and> V \<subseteq> entered w"
  show "bindS (reading g) f w = bindS (reading g) f' w \<and> I (w_data (snd (bindS (reading g) f w))) \<and>
      entered w \<subseteq> entered (snd (bindS (reading g) f w))"
  proof (cases "g (w_data w)")
    case (Inr a)
    then show ?thesis using assms [of "w_data w" a] w alikeD [of I V "f a" "f' a" w] by simp
  qed (use w in simp)
qed

lemma alike_for_each:
  "(\<And>x. x \<in> set xs \<Longrightarrow> alike I V (f x) (f' x)) \<Longrightarrow> alike I V (for_each f xs) (for_each f' xs)"
  by (induction xs) (auto intro!: alike_bind alike_give)

lemma visited_mono: "visited name key vs \<Longrightarrow> visited name key (v # vs)"
  by (simp add: visited_def)

lemma alike_enter:
  assumes "alike I V (f False) (f' False)" "alike I (insert (r_name r, key) V) (f True) (f' True)"
  shows "alike I V (bindS (enter r key) f) (bindS (enter r key) f')"
  unfolding alike_def
proof (intro allI impI)
  fix w assume w: "I (w_data w) \<and> V \<subseteq> entered w"
  show "bindS (enter r key) f w = bindS (enter r key) f' w \<and> I (w_data (snd (bindS (enter r key) f w))) \<and>
      entered w \<subseteq> entered (snd (bindS (enter r key) f w))"
  proof (cases "visited (r_name r) key (w_visited w)")
    case True
    then show ?thesis using w alikeD [OF assms(1), of w] by (simp add: bindS_def enter_def)
  next
    case False
    let ?w = "w\<lparr>w_visited := (r_name r, key) # w_visited w\<rparr>"
    have more: "entered w \<subseteq> entered ?w" by (auto simp: entered_def visited_mono)
    have "visited (r_name r) key (w_visited ?w)" by (simp add: visited_def)
    then have "insert (r_name r, key) V \<subseteq> entered ?w" using w more by (auto simp: entered_def)
    then show ?thesis using False w more alikeD [OF assms(2), of ?w] by (auto simp: bindS_def enter_def)
  qed
qed

text \<open>A record already entered, when only one not entered goes on.\<close>

lemma alike_enter_new:
  assumes "(r_name r, key) \<notin> V \<Longrightarrow> alike I (insert (r_name r, key) V) (f True) (f' True)"
    and "alike I V (f False) (f' False)"
  shows "alike I V (bindS (enter r key) f) (bindS (enter r key) f')"
proof (cases "(r_name r, key) \<in> V")
  case True
  have "bindS (enter r key) g w = g False w" if "V \<subseteq> entered w" for g and w :: "'a world"
    using True that by (auto simp: bindS_def enter_def entered_def)
  then show ?thesis using assms(2) unfolding alike_def by metis
next
  case False
  then show ?thesis using assms by (intro alike_enter) auto
qed

lemma alike_after:
  assumes "alike I V m m'"
  shows "alike I V (running_after hooks m) (running_after hooks m')"
  unfolding alike_def
proof (intro allI impI)
  fix w assume w: "I (w_data w) \<and> V \<subseteq> entered w"
  obtain r w1 where r: "m w = (r, w1)" by (cases "m w")
  then have "m' w = (r, w1)" "I (w_data w1)" "entered w \<subseteq> entered w1"
    using w alikeD [OF assms, of w] by auto
  then show "running_after hooks m w = running_after hooks m' w \<and> I (w_data (snd (running_after hooks m w))) \<and>
      entered w \<subseteq> entered (snd (running_after hooks m w))"
    using r by (auto simp: running_after_def entered_def)
qed

lemma flush_visited: "w_visited (snd (flush_queued ctx w)) = w_visited w"
  by (simp add: flush_queued_def)

lemma alike_atomically:
  assumes "alike I V (f ctx) (f' ctx)" "alike I V (f (ctx\<lparr>ctx_queueing := True\<rparr>)) (f' (ctx\<lparr>ctx_queueing := True\<rparr>))"
    and "\<And>run m m'. tx = Some run \<Longrightarrow> alike I V m m' \<Longrightarrow> alike I V (run m) (run m')"
  shows "alike I V (atomically tx ctx f) (atomically tx ctx f')"
proof (cases "ctx_queueing ctx")
  case True
  then show ?thesis using assms(1) by (simp add: atomically_def)
next
  case False
  define g where "g = (\<lambda>f. case tx of Some run \<Rightarrow> run (f (ctx\<lparr>ctx_queueing := True\<rparr>)) | None \<Rightarrow> f ctx)"
  have g: "alike I V (g f) (g f')" using assms by (cases tx) (auto simp: g_def)
  show ?thesis
    unfolding alike_def
  proof (intro allI impI)
    fix w assume w: "I (w_data w) \<and> V \<subseteq> entered w"
    obtain r w1 where r: "g f (w\<lparr>w_queue := []\<rparr>) = (r, w1)" by (cases "g f (w\<lparr>w_queue := []\<rparr>)")
    have at: "atomically tx ctx h w = (let (result, w') = g h (w\<lparr>w_queue := []\<rparr>) in
        (result, (case result of Inr _ \<Rightarrow> snd (flush_queued ctx w') | Inl _ \<Rightarrow> w'\<lparr>w_queue := []\<rparr>)\<lparr>w_queue := w_queue w\<rparr>))" for h
      using False by (cases tx) (simp_all add: atomically_def Let_def g_def)
    have "I (w_data (w\<lparr>w_queue := []\<rparr>))" "V \<subseteq> entered (w\<lparr>w_queue := []\<rparr>)" using w by (simp_all add: entered_def)
    note al = alikeD [OF g this]
    have m: "g f' (w\<lparr>w_queue := []\<rparr>) = (r, w1)" using al(1) r by simp
    have m2: "I (w_data w1)" "entered w \<subseteq> entered w1" using al(2,3) unfolding r by (simp_all add: entered_def)
    show "atomically tx ctx f w = atomically tx ctx f' w \<and> I (w_data (snd (atomically tx ctx f w))) \<and>
        entered w \<subseteq> entered (snd (atomically tx ctx f w))"
      using m2 unfolding at r m by (cases r) (simp_all add: entered_def flush_visited)
  qed
qed

section \<open>What a cascade reaches\<close>

text \<open>
  The records a cascade may reach are among the finitely many of \<open>U\<close>: those whose rows the
  layer finds while it keeps \<open>I\<close>, which its writes do. A destroy takes no arguments, so it
  manages no relationships, and what it checks keeps the record's key.
\<close>

definition keeps_key :: "'d engine \<Rightarrow> resource_def \<Rightarrow> action_def \<Rightarrow> bool" where
  "keeps_key eng r action \<longleftrightarrow> (\<forall>ctx existing input cs cs1 fs pk key key'.
     destroy_changeset (e_external (en_env eng)) ctx r action existing input = Inr cs \<longrightarrow>
     check_write eng ctx cs = Inr cs1 \<longrightarrow>
     apply_tenant_to_fields r (cs_fields cs1) (ctx_tenant ctx) False = Inr fs \<longrightarrow>
     pk_name r = Inr pk \<longrightarrow> required_pk existing pk = Inr key \<longrightarrow> required_pk fs pk = Inr key' \<longrightarrow> key' = key)"

definition destroys_by_key :: "'d engine \<Rightarrow> resource_def \<Rightarrow> bool" where
  "destroys_by_key eng r \<longleftrightarrow> (\<forall>a \<in> set (r_actions r). act_kind a = Destroy \<longrightarrow> act_arguments a = [] \<and> keeps_key eng r a)"

definition finds_within :: "'d engine \<Rightarrow> ('d \<Rightarrow> bool) \<Rightarrow> (string \<times> Value) set \<Rightarrow> bool" where
  "finds_within eng I U \<longleftrightarrow> (\<forall>d r q rows row pk key.
     I d \<longrightarrow> r \<in> set (e_registry (en_env eng)) \<longrightarrow> dl_run_query (en_layer eng) d r q = Inr rows \<longrightarrow> row \<in> set rows \<longrightarrow>
     pk_name r = Inr pk \<longrightarrow> required_pk row pk = Inr key \<longrightarrow> (r_name r, key) \<in> U)"

definition writes_keep :: "'d engine \<Rightarrow> ('d \<Rightarrow> bool) \<Rightarrow> bool" where
  "writes_keep eng I \<longleftrightarrow> (\<forall>d. I d \<longrightarrow>
     (\<forall>r t key fs. I (snd (dl_update (en_layer eng) d r t key fs))) \<and>
     (\<forall>r t key. I (snd (dl_destroy (en_layer eng) d r t key))) \<and>
     (\<forall>r q u. I (snd (dl_update_atomic (en_layer eng) d r q u))) \<and>
     (\<forall>r q conditions. I (snd (dl_destroy_atomic (en_layer eng) d r q conditions))))"

definition transacts_alike :: "'d engine \<Rightarrow> ('d \<Rightarrow> bool) \<Rightarrow> bool" where
  "transacts_alike eng I \<longleftrightarrow> (\<forall>run V m m'. en_transactor eng = Some run \<longrightarrow> alike I V m m' \<longrightarrow> alike I V (run m) (run m'))"

text \<open>A destroy a cascade may run: its record is among those.\<close>

definition destroying ::
    "'d engine \<Rightarrow> (string \<times> Value) set \<Rightarrow> ash_context \<Rightarrow> changeset \<Rightarrow> bool" where
  "destroying eng U ctx cs \<longleftrightarrow> (\<exists>r action existing input pk key.
     r \<in> set (e_registry (en_env eng)) \<and> action \<in> set (r_actions r) \<and> act_kind action = Destroy \<and>
     destroy_changeset (e_external (en_env eng)) ctx r action existing input = Inr cs \<and>
     pk_name r = Inr pk \<and> required_pk existing pk = Inr key \<and> (r_name r, key) \<in> U)"

text \<open>
  Calls that do the same for every destroy that has entered \<open>V\<close>, and for what goes before
  deleting a record it enters next.
\<close>

definition calls_alike ::
    "'d engine \<Rightarrow> ('d \<Rightarrow> bool) \<Rightarrow> (string \<times> Value) set \<Rightarrow> (string \<times> Value) set \<Rightarrow> 'd calls \<Rightarrow> 'd calls \<Rightarrow> bool" where
  "calls_alike eng I U V c c' \<longleftrightarrow>
     (\<forall>ctx cs notify. destroying eng U ctx cs \<longrightarrow> alike I V (call_commit c ctx cs notify) (call_commit c' ctx cs notify)) \<and>
     (\<forall>ctx r key fs notify. r \<in> set (e_registry (en_env eng)) \<longrightarrow> (r_name r, key) \<in> U - V \<longrightarrow>
        alike I (insert (r_name r, key) V) (call_deletes c ctx r key fs notify) (call_deletes c' ctx r key fs notify))"

lemma first_of_in: "first_of xs = Some x \<Longrightarrow> x \<in> set xs"
  by (cases xs) (auto simp: first_of_def)

lemma child_destroy_action_in:
  assumes "child_destroy_action dest hard = Some a"
  shows "a \<in> set (r_actions dest)" "act_kind a = Destroy"
proof -
  let ?destroys = "filter (\<lambda>a. act_kind a = Destroy \<and> \<not> (hard \<and> act_soft a)) (r_actions dest)"
  have "a \<in> set ?destroys"
    using assms by (auto simp: child_destroy_action_def Let_def simp del: set_filter split: option.splits
        dest: first_of_in find_SomeD)
  then show "a \<in> set (r_actions dest)" "act_kind a = Destroy" by auto
qed

lemma resolved_in:
  "destination_of eng rel = Inr dest \<Longrightarrow> dest \<in> set (e_registry (en_env eng))"
  "through_of eng name = Inr dest \<Longrightarrow> dest \<in> set (e_registry (en_env eng))"
  by (auto simp: destination_of_def through_of_def destination_def ok_or_def split: option.splits dest: resource_named_in)

lemma required_or_insert: "required_pk row pk = Inr key \<Longrightarrow> required_pk (or_insert row pk other) pk = Inr key"
  by (auto simp: required_pk_def or_insert_def fm_contains_def split: option.splits Value.splits)

text \<open>The steps of a cascade do alike when what they call does.\<close>

lemma alike_writes:
  assumes "writes_keep eng I"
  shows "alike I V (writing (\<lambda>d. dl_update (en_layer eng) d r t key fs)) (writing (\<lambda>d. dl_update (en_layer eng) d r t key fs))"
    "alike I V (writing (\<lambda>d. dl_destroy (en_layer eng) d r t key)) (writing (\<lambda>d. dl_destroy (en_layer eng) d r t key))"
    "alike I V (writing (\<lambda>d. dl_update_atomic (en_layer eng) d r q u)) (writing (\<lambda>d. dl_update_atomic (en_layer eng) d r q u))"
    "alike I V (writing (\<lambda>d. dl_destroy_atomic (en_layer eng) d r q cs)) (writing (\<lambda>d. dl_destroy_atomic (en_layer eng) d r q cs))"
  using assms by (auto simp: writes_keep_def intro!: alike_writing)

lemma alike_rows_written:
  assumes "writes_keep eng I"
  shows "alike I V (update_row eng ctx r key fs) (update_row eng ctx r key fs)"
    "alike I V (destroy_row eng ctx r key) (destroy_row eng ctx r key)"
  using alike_writes [OF assms] by (simp_all add: update_row_def destroy_row_def)

lemma alike_fail_stale [alike_intros]: "alike I V (fail_stale dl ctx r key) (fail_stale dl ctx r key)"
  unfolding fail_stale_def by (rule alike_reading)

lemma alike_check_lock [alike_intros]: "alike I V (check_lock dl ctx r key l) (check_lock dl ctx r key l)"
  unfolding check_lock_def by (auto intro!: alike_bind alike_intros split: if_split)

lemma alike_guarded:
  assumes "writes_keep eng I"
  shows "alike I V (update_guarded (en_layer eng) ctx r key fs l) (update_guarded (en_layer eng) ctx r key fs l)"
    "alike I V (destroy_guarded (en_layer eng) ctx r key l) (destroy_guarded (en_layer eng) ctx r key l)"
  unfolding update_guarded_def destroy_guarded_def Let_def
  by (auto intro!: alike_bind alike_intros alike_writes [OF assms] split: option.split if_split list.split)

lemma alike_update_planned:
  assumes "writes_keep eng I"
  shows "alike I V (update_planned eng ctx r action key plan scope gone) (update_planned eng ctx r action key plan scope gone)"
  unfolding update_planned_def run_atomic_update_def
  by (auto intro!: alike_bind alike_intros alike_writes [OF assms] split: option.split)

lemma alike_rows_where:
  assumes "finds_within eng I U" "dest \<in> set (e_registry (en_env eng))"
    and "\<And>rows. (\<And>row pk key. row \<in> set rows \<Longrightarrow> pk_name dest = Inr pk \<Longrightarrow> required_pk row pk = Inr key \<Longrightarrow>
      (r_name dest, key) \<in> U) \<Longrightarrow> alike I V (f rows) (f' rows)"
  shows "alike I V (bindS (rows_where eng ctx dest flt) f) (bindS (rows_where eng ctx dest flt) f')"
  unfolding rows_where_def
proof (rule alike_bind_reading)
  fix d rows
  assume "I d" "dl_run_query (en_layer eng) d dest (default_query\<lparr>q_filter := Some flt, q_tenant := ctx_tenant ctx\<rparr>) = Inr rows"
  then show "alike I V (f rows) (f' rows)"
    using assms(1,2) unfolding finds_within_def by (intro assms(3)) metis
qed

lemma alike_rows_any [alike_intros]: "alike I V (rows_where eng ctx dest flt) (rows_where eng ctx dest flt)"
  unfolding rows_where_def by (rule alike_reading)

lemma calls_alike_commit:
  "calls_alike eng I U V c c' \<Longrightarrow> destroying eng U ctx cs \<Longrightarrow> alike I V (call_commit c ctx cs notify) (call_commit c' ctx cs notify)"
  by (simp add: calls_alike_def)

lemma calls_alike_deletes:
  "calls_alike eng I U V c c' \<Longrightarrow> r \<in> set (e_registry (en_env eng)) \<Longrightarrow> (r_name r, key) \<in> U \<Longrightarrow> (r_name r, key) \<notin> V \<Longrightarrow>
   alike I (insert (r_name r, key) V) (call_deletes c ctx r key fs notify) (call_deletes c' ctx r key fs notify)"
  by (simp add: calls_alike_def)

lemma alike_destroy_child:
  assumes c: "calls_alike eng I U V c c'" and W: "writes_keep eng I"
    and dest: "dest \<in> set (e_registry (en_env eng))" and pk: "pk_name dest = Inr pk"
    and row: "\<And>key. required_pk row pk = Inr key \<Longrightarrow> (r_name dest, key) \<in> U"
  shows "alike I V (destroy_child eng c ctx dest hard notify pk row) (destroy_child eng c' ctx dest hard notify pk row)"
  unfolding destroy_child_def
proof (rule alike_bind_lift)
  fix key assume key: "required_pk row pk = Inr key"
  show "alike I V
      (case child_destroy_action dest hard of
         Some action \<Rightarrow> bindS (destroy_dynamic_with eng c ctx dest action key row notify) (\<lambda>_. give ())
       | None \<Rightarrow> bindS (enter dest key) (\<lambda>entered. if entered
           then bindS (call_deletes c ctx dest key row notify) (\<lambda>_. destroy_row eng ctx dest key) else give ()))
      (case child_destroy_action dest hard of
         Some action \<Rightarrow> bindS (destroy_dynamic_with eng c' ctx dest action key row notify) (\<lambda>_. give ())
       | None \<Rightarrow> bindS (enter dest key) (\<lambda>entered. if entered
           then bindS (call_deletes c' ctx dest key row notify) (\<lambda>_. destroy_row eng ctx dest key) else give ()))"
  proof (cases "child_destroy_action dest hard")
    case None
    then show ?thesis
      by (auto intro!: alike_enter_new alike_give
          alike_bind [OF calls_alike_deletes [OF c dest row [OF key]] alike_rows_written(2) [OF W]])
  next
    case (Some action)
    note in_dest = child_destroy_action_in [OF Some]
    have "destroying eng U ctx cs"
      if "with_primary_key dest key row = Inr existing"
        "destroy_changeset (e_external (en_env eng)) ctx dest action existing [] = Inr cs" for existing cs
    proof -
      have "existing = or_insert row pk key" using that(1) pk by (simp add: with_primary_key_def)
      then have "required_pk existing pk = Inr key" using key by (simp add: required_or_insert)
      then show ?thesis using that(2) dest in_dest pk row [OF key] unfolding destroying_def by blast
    qed
    then show ?thesis using Some
      by (auto simp: destroy_dynamic_with_def destroy_dynamic_input_def for_destroy_with_def
          intro!: alike_bind alike_bind_lift alike_give calls_alike_commit [OF c])
  qed
qed

lemma alike_destroy_children:
  assumes "calls_alike eng I U V c c'" "writes_keep eng I" "finds_within eng I U" "dest \<in> set (e_registry (en_env eng))"
  shows "alike I V (destroy_children eng c ctx dest hard notify flt) (destroy_children eng c' ctx dest hard notify flt)"
  unfolding destroy_children_def
  by (intro alike_rows_where [OF assms(3,4)] alike_bind_lift alike_for_each alike_destroy_child [OF assms(1,2,4)]) auto

lemma alike_cascade_destroy_related:
  assumes "calls_alike eng I U V c c'" "writes_keep eng I" "finds_within eng I U"
  shows "alike I V (cascade_destroy_related eng c ctx r action key fs notify) (cascade_destroy_related eng c' ctx r action key fs notify)"
  unfolding cascade_destroy_related_def cascade_destroy_one_def
  by (auto intro!: alike_bind_lift alike_for_each alike_give alike_lift alike_destroy_children [OF assms]
      dest: resolved_in split: option.split if_split)

lemma alike_cascade_deletes:
  assumes "calls_alike eng I U V c c'" "writes_keep eng I" "finds_within eng I U"
  shows "alike I V (cascade_deletes eng c ctx r key fs notify) (cascade_deletes eng c' ctx r key fs notify)"
proof -
  have has: "alike I V (has_deletes eng c ctx r rel parent notify) (has_deletes eng c' ctx r rel parent notify)" for rel parent
    unfolding has_deletes_def restrict_deletes_def nilify_deletes_def nilify_row_def
    by (auto intro!: alike_bind_lift alike_bind alike_for_each alike_intros alike_rows_written [OF assms(2)]
        alike_destroy_children [OF assms] dest: resolved_in split: option.split on_delete.split if_split)
  have through: "alike I V (through_deletes eng c ctx r rel key fs notify) (through_deletes eng c' ctx r rel key fs notify)" for rel
    unfolding through_deletes_def restrict_deletes_def Let_def
    by (auto intro!: alike_bind_lift alike_bind alike_intros alike_destroy_children [OF assms]
        dest: resolved_in split: option.split on_delete.split if_split)
  show ?thesis
    unfolding cascade_deletes_def
    by (auto intro!: alike_bind_lift alike_for_each alike_give has through split: rel_kind.split)
qed

section \<open>Destroys end\<close>

lemma before_actions_fields:
  assumes "foldE (\<lambda>cs hook. hook cs) cs (map on_attributes hooks) = Inr cs'"
  shows "\<exists>fs. cs' = cs\<lparr>cs_fields := fs\<rparr>"
  using assms
proof (induction hooks arbitrary: cs)
  case Nil
  then show ?case by (auto intro: exI [of _ "cs_fields cs"])
next
  case (Cons hook hooks)
  then obtain fs where "foldE (\<lambda>cs hook. hook cs) (cs\<lparr>cs_fields := fs\<rparr>) (map on_attributes hooks) = Inr cs'"
    by (auto simp: bindE_eq_Inr on_attributes_def [abs_def])
  from Cons.IH [OF this] show ?case by auto
qed

lemma no_arguments:
  assumes "split_input r action input = Inr (accepted, arguments)" "act_arguments action = []"
  shows "arguments = []"
proof -
  have "snd acc' = []" if "foldE (split_entry r action) acc input = Inr acc'" "snd acc = []" for acc acc'
    using that
  proof (induction input arbitrary: acc)
    case (Cons e input)
    then obtain acc1 where "split_entry r action acc e = Inr acc1" "foldE (split_entry r action) acc1 input = Inr acc'"
      by (auto simp: bindE_eq_Inr)
    moreover have "snd acc1 = []"
      using calculation(1) assms(2) Cons.prems(2)
      by (auto simp: split_entry_def argument_def split: if_splits prod.splits option.splits)
    ultimately show ?case using Cons.IH by blast
  qed simp
  then show ?thesis using assms
    by (auto simp: split_input_def bindE_eq_Inr apply_argument_defaults_def)
qed

lemma no_managed: "act_changes action = cs \<Longrightarrow> extract_managed_relationships r action [] = []"
proof -
  have "managed_by_change [] c = None" for c by (cases c) (simp_all add: managed_by_change_def fm_get_def)
  moreover have "fold (managed_by_name []) rels [] = []" for rels
    by (induction rels) (simp_all add: managed_by_name_def fm_get_def)
  ultimately show ?thesis by (simp add: extract_managed_relationships_def List.map_filter_def)
qed

lemma destroy_changeset_shape:
  assumes "destroy_changeset x ctx r action existing input = Inr cs" "act_arguments action = []"
  shows "cs_resource cs = r" "cs_action cs = action" "cs_existing cs = Some existing" "cs_managed cs = []"
    "\<exists>hooks. cs_before_actions cs = map on_attributes hooks"
proof -
  obtain cs1 hooks where "cs = changeset_with_context ctx cs1" "cs_resource cs1 = r" "cs_action cs1 = action"
    "cs_existing cs1 = Some existing" "cs_arguments cs1 = []" "cs_before_actions cs1 = map on_attributes hooks"
    using assms no_arguments
    by (fastforce simp: destroy_changeset_def bindE_eq_Inr changeset_changes_def changeset_new_def)
  then show "cs_resource cs = r" "cs_action cs = action" "cs_existing cs = Some existing" "cs_managed cs = []"
    "\<exists>hooks. cs_before_actions cs = map on_attributes hooks"
    by (auto simp: changeset_with_context_def no_managed)
qed

lemma check_write_shape:
  assumes "check_write eng ctx cs = Inr cs1" "act_kind (cs_action cs) = Destroy"
    and "cs_before_actions cs = map on_attributes hooks"
  shows "\<exists>fs. cs1 = (core_of cs)\<lparr>cs_fields := fs\<rparr>"
proof -
  obtain cs0 where "run_before_actions cs = Inr cs0" "cs1 = cs0 \<or> act_kind (cs_action cs0) \<noteq> Destroy"
    using assms(1) by (auto simp: check_write_def Let_def bindE_eq_Inr split: if_splits)
  moreover obtain fs where "cs0 = (core_of cs)\<lparr>cs_fields := fs\<rparr>"
    using before_actions_fields [of "core_of cs" hooks cs0] calculation(1) assms(3)
    unfolding run_before_actions_def by metis
  moreover have "act_kind (cs_action ((core_of cs)\<lparr>cs_fields := fs\<rparr>)) = Destroy"
    using assms(2) by (simp add: core_of_def changeset_core.truncate_def)
  ultimately show ?thesis by blast
qed

lemma alike_finish:
  assumes "cs_managed cs = []" "act_kind (cs_action cs) = Destroy"
  shows "alike I V (finish eng c ctx cs key stored notify) (finish eng c' ctx cs key stored notify)"
proof -
  have u: "undoing_create eng ctx cs key work = work" for key and work :: "('a, unit) operation"
    by (intro ext) (auto simp: undoing_create_def assms(2) split: prod.split sum.split)
  show ?thesis
    unfolding finish_def Let_def u assms(1) handle_managed_relationships_def for_each.simps
    by (auto intro!: alike_bind alike_bind_lift alike_intros)
qed

text \<open>A record is entered before anything it cascades to.\<close>

lemma alike_persist_destroy:
  assumes c: "(r_name r, key) \<notin> V \<Longrightarrow> calls_alike eng I U (insert (r_name r, key) V) c c'"
    and W: "writes_keep eng I" and F: "finds_within eng I U"
  shows "alike I V (persist_destroy eng c ctx r action key existing fs notify) (persist_destroy eng c' ctx r action key existing fs notify)"
  unfolding persist_destroy_def persist_soft_destroy_def persist_hard_destroy_def
  by (rule alike_enter_new)
    (auto intro!: alike_bind alike_bind_lift alike_intros alike_guarded [OF W]
      alike_cascade_destroy_related [OF c W F] alike_cascade_deletes [OF c W F] split: option.split)

lemma alike_persist_atomically:
  assumes c: "(r_name (cs_resource cs), key) \<notin> V \<Longrightarrow> calls_alike eng I U (insert (r_name (cs_resource cs), key) V) c c'"
    and W: "writes_keep eng I" and F: "finds_within eng I U"
    and cs: "cs_managed cs = []" "act_kind (cs_action cs) = Destroy" "cs_existing cs = Some existing"
    and pk: "pk_name (cs_resource cs) = Inr pk" "required_pk existing pk = Inr key"
  shows "alike I V (persist_atomically eng c ctx cs plan notify) (persist_atomically eng c' ctx cs plan notify)"
proof -
  have fin: "alike I V' (finish eng c ctx (cs\<lparr>cs_after_actions := hooks\<rparr>) key stored notify)
      (finish eng c' ctx (cs\<lparr>cs_after_actions := hooks\<rparr>) key stored notify)" for V' hooks stored
    by (rule alike_finish) (simp_all add: cs)
  show ?thesis
    unfolding persist_atomically_def Let_def cs(2,3)
    by (simp add: pk ok_or_def, rule alike_bind_lift, rule alike_bind_lift, simp, rule alike_enter_new)
      (auto simp: pk intro!: alike_bind alike_intros fin alike_update_planned [OF W] alike_cascade_destroy_related [OF c W F])
qed

lemma alike_commit_body:
  assumes c: "\<And>u. u \<in> U - V \<Longrightarrow> calls_alike eng I U (insert u V) c c'"
    and W: "writes_keep eng I" and F: "finds_within eng I U" and T: "transacts_alike eng I"
    and D: "\<forall>r \<in> set (e_registry (en_env eng)). destroys_by_key eng r"
    and cs: "destroying eng U ctx cs"
  shows "alike I V (commit_body eng c ctx cs notify) (commit_body eng c' ctx cs notify)"
proof -
  obtain r action existing input pk key where d:
    "r \<in> set (e_registry (en_env eng))" "action \<in> set (r_actions r)" "act_kind action = Destroy"
    "destroy_changeset (e_external (en_env eng)) ctx r action existing input = Inr cs"
    "pk_name r = Inr pk" "required_pk existing pk = Inr key" "(r_name r, key) \<in> U"
    using cs unfolding destroying_def by blast
  have keyed: "act_arguments action = []" "keeps_key eng r action"
    using D d(1-3) by (auto simp: destroys_by_key_def)
  note shape = destroy_changeset_shape [OF d(4) keyed(1)]
  have core: "cs_resource (core_of cs) = r" "cs_action (core_of cs) = action" "cs_existing (core_of cs) = Some existing"
    "cs_managed (core_of cs) = []" using shape by (simp_all add: core_of_def changeset_core.truncate_def)
  have call: "(r_name r, key) \<notin> V \<Longrightarrow> calls_alike eng I U (insert (r_name r, key) V) c c'" using c d(7) by blast
  have planned: "alike I V (persist_atomically eng c ctx' (core_of cs) plan notify) (persist_atomically eng c' ctx' (core_of cs) plan notify)"
    for ctx' plan
    by (rule alike_persist_atomically [where key = key and pk = pk and existing = existing])
      (use call W F d core in auto)
  have recorded: "alike I V
      (bindS (prepare eng c ctx' cs) (\<lambda>(key, cs). bindS (persist eng c ctx' cs key notify) (\<lambda>stored. finish eng c ctx' cs key stored notify)))
      (bindS (prepare eng c' ctx' cs) (\<lambda>(key, cs). bindS (persist eng c' ctx' cs key notify) (\<lambda>stored. finish eng c' ctx' cs key stored notify)))"
    if tenant: "ctx_tenant ctx' = ctx_tenant ctx" and checked: "check_write eng ctx' cs = check_write eng ctx cs" for ctx'
    unfolding prepare_def bindS_assoc Let_def bindS_give
  proof (rule alike_bind_lift)
    fix cs1 assume "check_write eng ctx' cs = Inr cs1"
    then have w: "check_write eng ctx cs = Inr cs1" by (simp add: checked)
    obtain fs1 where cs1: "cs1 = (core_of cs)\<lparr>cs_fields := fs1\<rparr>"
      using check_write_shape [OF w] shape d(3) by auto
    then have core1: "cs_resource cs1 = r" "cs_action cs1 = action" "cs_existing cs1 = Some existing" "cs_managed cs1 = []"
      using core by simp_all
    have same: "cs1\<lparr>cs_managed := []\<rparr> = cs1" using core1(4) by (cases cs1) simp
    have attach: "attach_belongs_to eng calls ctx' cs1 = give cs1" for calls
      unfolding attach_belongs_to_def core1 by (simp add: same)
    show "alike I V
      (bindS (attach_belongs_to eng c ctx' cs1) (\<lambda>cs. bindS (lift_res (apply_tenant_to_fields (cs_resource cs) (cs_fields cs)
         (ctx_tenant ctx') (act_kind (cs_action cs) = Create))) (\<lambda>fs. bindS (lift_res (write_key (cs\<lparr>cs_fields := fs\<rparr>)))
         (\<lambda>key. case (key, cs\<lparr>cs_fields := fs\<rparr>) of (key, cs) \<Rightarrow>
           bindS (persist eng c ctx' cs key notify) (\<lambda>stored. finish eng c ctx' cs key stored notify)))))
      (bindS (attach_belongs_to eng c' ctx' cs1) (\<lambda>cs. bindS (lift_res (apply_tenant_to_fields (cs_resource cs) (cs_fields cs)
         (ctx_tenant ctx') (act_kind (cs_action cs) = Create))) (\<lambda>fs. bindS (lift_res (write_key (cs\<lparr>cs_fields := fs\<rparr>)))
         (\<lambda>key. case (key, cs\<lparr>cs_fields := fs\<rparr>) of (key, cs) \<Rightarrow>
           bindS (persist eng c' ctx' cs key notify) (\<lambda>stored. finish eng c' ctx' cs key stored notify)))))"
      unfolding attach bindS_give prod.case
    proof (rule alike_bind_lift, rule alike_bind_lift)
      fix fs key'
      assume fs: "apply_tenant_to_fields (cs_resource cs1) (cs_fields cs1) (ctx_tenant ctx') (act_kind (cs_action cs1) = Create) = Inr fs"
        and "write_key (cs1\<lparr>cs_fields := fs\<rparr>) = Inr key'"
      then have "required_pk fs pk = Inr key'" by (simp add: write_key_def core1 d(3,5))
      moreover have "apply_tenant_to_fields r (cs_fields cs1) (ctx_tenant ctx) False = Inr fs"
        using fs by (simp add: core1 d(3) tenant)
      ultimately have key': "key' = key"
        using keyed(2) d(4-6) w unfolding keeps_key_def by blast
      show "alike I V
        (bindS (persist eng c ctx' (cs1\<lparr>cs_fields := fs\<rparr>) key' notify) (\<lambda>stored. finish eng c ctx' (cs1\<lparr>cs_fields := fs\<rparr>) key' stored notify))
        (bindS (persist eng c' ctx' (cs1\<lparr>cs_fields := fs\<rparr>) key' notify) (\<lambda>stored. finish eng c' ctx' (cs1\<lparr>cs_fields := fs\<rparr>) key' stored notify))"
        unfolding persist_def Let_def key'
        by (simp add: core1 d(3)) (intro alike_bind alike_persist_destroy [OF call W F] alike_finish; simp add: core1 d(3))
    qed
  qed
  have work: "alike I V (commit_work eng c cs notify ctx') (commit_work eng c' cs notify ctx')"
    if tenant: "ctx_tenant ctx' = ctx_tenant ctx" and checked: "check_write eng ctx' cs = check_write eng ctx cs" for ctx'
    unfolding commit_work_def
    by (intro alike_bind alike_intros) (auto intro!: alike_bind alike_intros planned recorded that split: option.split)
  have checked: "check_write eng (ctx\<lparr>ctx_queueing := True\<rparr>) cs = check_write eng ctx cs"
    by (simp add: check_write_def Let_def changeset_validations_def change_action_context_def changeset_authorize_def)
  have "alike I V (atomically (en_transactor eng) ctx (commit_work eng c cs notify))
      (atomically (en_transactor eng) ctx (commit_work eng c' cs notify))"
    by (rule alike_atomically) (use work checked T in \<open>auto simp: transacts_alike_def\<close>)
  then show ?thesis
    unfolding commit_body_def by (auto intro!: alike_after work)
qed

lemma calls_alike_deeper:
  assumes "writes_keep eng I" "finds_within eng I U" "transacts_alike eng I"
    and "\<forall>r \<in> set (e_registry (en_env eng)). destroys_by_key eng r" "finite U" "card (U - V) < n"
  shows "calls_alike eng I U V ((one_deeper eng ^^ n) c) ((one_deeper eng ^^ n) c')"
  using assms(6)
proof (induction n arbitrary: V)
  case (Suc n)
  have more: "calls_alike eng I U (insert u V) ((one_deeper eng ^^ n) c) ((one_deeper eng ^^ n) c')" if "u \<in> U - V" for u
  proof (rule Suc.IH)
    have "U - insert u V \<subset> U - V" using that by auto
    then have "card (U - insert u V) < card (U - V)" using assms(5) by (intro psubset_card_mono) auto
    then show "card (U - insert u V) < n" using Suc.prems by simp
  qed
  show ?case
    unfolding calls_alike_def
    by (auto simp: one_deeper_def intro!: alike_commit_body [OF more assms(1-4)]
        alike_cascade_deletes [OF more assms(1,2)])
qed simp

section \<open>The bound\<close>


text \<open>A node that is its own child, in a layer of that one row which logs the keys destroyed.\<close>

definition sample_node :: resource_def where
  "sample_node = sample_resource
     \<lparr>r_name := ''Node'',
      r_attributes := [uuid_pk ''id'', attr_required ''parent_id'' TUuid],
      r_relationships := [(rel_base HasMany ''children'' ''Node'' ''id'' ''parent_id'')\<lparr>rel_on_delete := OnDeleteCascade\<rparr>],
      r_actions := [destroy_action ''destroy'']\<rparr>"

definition sample_cycle :: fields where
  "sample_cycle = [(''id'', VUuid 1), (''parent_id'', VUuid 1)]"

definition cycle_layer :: "Value list data_layer" where
  "cycle_layer = default_layer (\<lambda>d r _ _ fs. (Inr fs, d)) (\<lambda>d r _ _ fs. (Inr fs, d))
     (\<lambda>d r _ key. (Inr (), d @ [key])) (\<lambda>d r _. Inr [sample_cycle])"

definition cycle_engine :: "Value list engine" where
  "cycle_engine = \<lparr>en_env = sample_env\<lparr>e_registry := [sample_node]\<rparr>, en_layer = cycle_layer, en_transactor = None\<rparr>"

definition cycle_changeset :: changeset where
  "cycle_changeset = changeset_new sample_node (destroy_action ''destroy'') sample_cycle [] (Some sample_cycle)"

lemma cycle_engine_simps [simp]:
  "e_registry (en_env cycle_engine) = [sample_node]" "en_layer cycle_engine = cycle_layer" "en_transactor cycle_engine = None"
  by (simp_all add: cycle_engine_def)

lemma cycle_commits: "fst (commit_changeset cycle_engine 2 context_new cycle_changeset (world_of [])) = Inr sample_cycle"
  and cycle_destroyed: "w_data (snd (commit_changeset cycle_engine 2 context_new cycle_changeset (world_of []))) = [VUuid 1]"
  by code_simp+

text \<open>A destroy that accepts nothing and changes nothing keeps its record's key.\<close>

lemma nothing_accepted:
  assumes "split_input r action input = Inr (accepted, arguments)" "act_accept action = []"
  shows "accepted = []"
proof -
  have "fst acc' = []" if "foldE (split_entry r action) acc input = Inr acc'" "fst acc = []" for acc acc'
    using that
  proof (induction input arbitrary: acc)
    case (Cons e input)
    then obtain acc1 where "split_entry r action acc e = Inr acc1" "foldE (split_entry r action) acc1 input = Inr acc'"
      by (auto simp: bindE_eq_Inr)
    moreover have "fst acc1 = []"
      using calculation(1) assms(2) Cons.prems(2) by (auto simp: split_entry_def split: prod.splits option.splits)
    ultimately show ?case using Cons.IH by blast
  qed simp
  then show ?thesis using assms by (auto simp: split_input_def bindE_eq_Inr Let_def)
qed

lemma plain_destroy_keeps_key:
  assumes "act_kind action = Destroy" "act_accept action = []" "act_changes action = []" "r_multitenancy r = None"
  shows "keeps_key eng r action"
proof -
  have "fs = existing"
    if cs: "destroy_changeset (e_external (en_env eng)) ctx r action existing input = Inr cs"
      and w: "check_write eng ctx cs = Inr cs1"
      and t: "apply_tenant_to_fields r (cs_fields cs1) (ctx_tenant ctx) False = Inr fs" for ctx existing input cs cs1 fs
  proof -
    have c: "cs_fields cs = existing" "cs_before_actions cs = []" "cs_action cs = action"
      using cs assms nothing_accepted
      by (fastforce simp: destroy_changeset_def bindE_eq_Inr changeset_changes_def changeset_new_def
          apply_changes_with_context_def changeset_with_context_def fm_extend_def)+
    then have "cs1 = core_of cs"
      using w assms(1) by (auto simp: check_write_def Let_def bindE_eq_Inr run_before_actions_def core_of_def
          changeset_core.truncate_def split: if_splits)
    then show ?thesis using t c assms(4) by (simp add: apply_tenant_to_fields_def core_of_def changeset_core.truncate_def)
  qed
  then show ?thesis unfolding keeps_key_def by (metis sum.inject(2))
qed


end
