(* ===== verification/AshCommitFacts.thy ===== *)
theory AshCommitFacts
  imports AshCascade
begin

text \<open>
  What a commit keeps: a write its policies refuse changes nothing. And where it doesn't: the
  key an upsert is finished with, the join rows a planned destroy leaves, the targets of a
  managed \<open>many_to_many\<close> given as text.
\<close>

section \<open>A refused write\<close>

text \<open>A transaction whose work fails, wherever it runs, having changed nothing, changes nothing.\<close>

definition fails_cleanly :: "('d, 'a) transactor option \<Rightarrow> bool" where
  "fails_cleanly tx \<longleftrightarrow> (case tx of None \<Rightarrow> True | Some run \<Rightarrow>
     (\<forall>m w. (\<forall>d. \<exists>e w'. m (w\<lparr>w_data := d\<rparr>) = (Inl e, w') \<and> w_data w' = d \<and> w_sent w' = w_sent w \<and> w_queue w' = w_queue w) \<longrightarrow>
        (\<exists>e w'. run m w = (Inl e, w') \<and> w_data w' = w_data w \<and> w_sent w' = w_sent w \<and> w_queue w' = w_queue w)))"

lemma memory_fails_cleanly: "fails_cleanly (Some (memory_transactor x (\<lambda>m. m) :: (memory, 'a) transactor))"
proof -
  have "\<exists>e w'. memory_transactor x (\<lambda>m. m) m w = (Inl e, w') \<and> w_data w' = w_data w \<and> w_sent w' = w_sent w \<and> w_queue w' = w_queue w"
    if m: "\<forall>d. \<exists>e w'. m (w\<lparr>w_data := d\<rparr>) = (Inl e, w') \<and> w_data w' = d \<and> w_sent w' = w_sent w \<and> w_queue w' = w_queue w"
    for m :: "(memory, 'a) operation" and w
  proof (cases "mem_poisoned (w_data w)")
    case False
    obtain e w' where "m (w\<lparr>w_data := from_tables (mem_store (w_data w))\<rparr>) = (Inl e, w')" "w_sent w' = w_sent w" "w_queue w' = w_queue w"
      using m by blast
    then show ?thesis using False by (simp add: memory_transactor_def mem_transaction_def)
  qed (simp add: memory_transactor_def)
  then show ?thesis by (simp add: fails_cleanly_def)
qed

definition changes_nothing :: "('d, 'a) operation \<Rightarrow> 'd world \<Rightarrow> bool" where
  "changes_nothing m w \<longleftrightarrow>
     (\<exists>e w'. m w = (Inl e, w') \<and> w_data w' = w_data w \<and> w_sent w' = w_sent w \<and> w_queue w' = w_queue w)"

lemma fails_cleanlyD:
  assumes "fails_cleanly (Some run)" "\<And>d. changes_nothing m (w\<lparr>w_data := d\<rparr>)"
  shows "changes_nothing (run m) w"
proof -
  have "\<forall>d. \<exists>e w'. m (w\<lparr>w_data := d\<rparr>) = (Inl e, w') \<and> w_data w' = d \<and> w_sent w' = w_sent w \<and> w_queue w' = w_queue w"
    using assms(2) by (simp add: changes_nothing_def)
  then show ?thesis using assms(1) unfolding fails_cleanly_def changes_nothing_def option.case by blast
qed

lemma atomically_changes_nothing:
  assumes "fails_cleanly tx" "\<And>ctx' w. ctx' = ctx \<or> ctx' = ctx\<lparr>ctx_queueing := True\<rparr> \<Longrightarrow> changes_nothing (f ctx') w"
  shows "changes_nothing (atomically tx ctx f) w"
proof (cases "ctx_queueing ctx")
  case True
  then show ?thesis using assms(2) by (simp add: atomically_def)
next
  case False
  let ?w = "w\<lparr>w_queue := []\<rparr>"
  have work: "changes_nothing (f ctx') (w'\<lparr>w_data := d\<rparr>)" if "ctx' = ctx \<or> ctx' = ctx\<lparr>ctx_queueing := True\<rparr>" for ctx' w' d
    using assms(2) [OF that] by blast
  have "changes_nothing (case tx of Some run \<Rightarrow> run (f (ctx\<lparr>ctx_queueing := True\<rparr>)) | None \<Rightarrow> f ctx) ?w"
  proof (cases tx)
    case None
    then show ?thesis using assms(2) by simp
  next
    case (Some run)
    have "changes_nothing (run (f (ctx\<lparr>ctx_queueing := True\<rparr>))) ?w"
      by (rule fails_cleanlyD [OF assms(1) [unfolded Some]]) (rule work, simp)
    then show ?thesis by (simp add: Some)
  qed
  then obtain e w' where "(case tx of Some run \<Rightarrow> run (f (ctx\<lparr>ctx_queueing := True\<rparr>)) | None \<Rightarrow> f ctx) ?w = (Inl e, w')"
    "w_data w' = w_data w" "w_sent w' = w_sent w"
    by (auto simp: changes_nothing_def)
  then show ?thesis using False by (cases tx) (auto simp: changes_nothing_def atomically_def)
qed


definition memory_engine :: "registry \<Rightarrow> memory engine" where
  "memory_engine reg = \<lparr>en_env = sample_env\<lparr>e_registry := reg\<rparr>, en_layer = memory_layer sample_external reg,
     en_transactor = Some (memory_transactor sample_external (\<lambda>m. m))\<rparr>"

definition sample_refusing :: resource_def where
  "sample_refusing = sample_unique
     \<lparr>r_policies := [\<lparr>p_bypass = False, p_when = WhenActionName ''read'', p_checks = []\<rparr>]\<rparr>"

definition refused_changeset :: changeset where
  "refused_changeset = changeset_new sample_refusing (create_action ''open'') [(''title'', VString ''a'')] [] None"


section \<open>The key an upsert is finished with\<close>

text \<open>
  A create's key is made before it's written. An upsert that finds its row keeps that row's
  key, and is finished with the one made: its notification names a record that isn't there.
\<close>

definition upserting :: changeset where
  "upserting = with_upsert (changeset_new sample_unique (create_action ''open'')
     [(''id'', VUuid 100), (''title'', VString ''a'')] [] None) ''title'' [''title'']"

definition stored_title :: memory where
  "stored_title = from_tables [(''Post'', [(VUuid 1, [(''id'', VUuid 1), (''title'', VString ''a'')])])]"

lemma upsert_notifies_made_key:
  "case commit_changeset (memory_engine [sample_unique]) 1 context_new upserting (world_of stored_title) of
     (Inr stored, w) \<Rightarrow> required_pk stored ''id'' = Inr (VUuid 1) \<and> map (n_id \<circ> snd) (w_sent w) = [VUuid 100]
   | _ \<Rightarrow> False"
  by code_simp

section \<open>A planned destroy of a record with join rows\<close>

text \<open>
  A destroy of a record in hand removes the rows that join it to others, as its
  relationship's \<open>on_delete\<close> says. By id it's one statement, which leaves them: only
  \<open>has_many\<close> and \<open>has_one\<close> keep a destroy from being planned.
\<close>

definition sample_joined :: resource_def where
  "sample_joined = sample_resource
     \<lparr>r_attributes := [uuid_pk ''id''],
      r_relationships := [(many_to_many ''tags'' ''Tag'' ''PostTag'' ''post_id'' ''tag_id'')\<lparr>rel_on_delete := OnDeleteCascade\<rparr>],
      r_actions := [destroy_action ''destroy'']\<rparr>"

definition sample_join :: resource_def where
  "sample_join = sample_resource
     \<lparr>r_name := ''PostTag'', r_attributes := [uuid_pk ''id'', attr_required ''post_id'' TUuid, attr_required ''tag_id'' TUuid]\<rparr>"

definition joined_store :: memory where
  "joined_store = from_tables
     [(''Post'', [(VUuid 1, [(''id'', VUuid 1)])]),
      (''PostTag'', [(VUuid 2, [(''id'', VUuid 2), (''post_id'', VUuid 1), (''tag_id'', VUuid 3)])])]"

definition joined_engine :: "memory engine" where
  "joined_engine = memory_engine [sample_joined, sample_join]"

definition joins_left :: "memory world \<Rightarrow> nat \<times> nat" where
  "joins_left w = (length (tb_rows (table_or_default (mem_store (w_data w)) ''Post'')),
     length (tb_rows (table_or_default (mem_store (w_data w)) ''PostTag'')))"

lemma destroy_in_hand_removes_joins:
  "joins_left (snd (commit_changeset joined_engine 3 context_new
     (changeset_new sample_joined (destroy_action ''destroy'') [(''id'', VUuid 1)] [] (Some [(''id'', VUuid 1)]))
     (world_of joined_store))) = (0, 0)"
  by code_simp

lemma destroy_by_id_leaves_joins:
  "joins_left (snd (destroy_dynamic_by_id joined_engine (engine_calls joined_engine 3) context_new sample_joined
     (destroy_action ''destroy'') (VUuid 1) (world_of joined_store))) = (0, 1)"
  by code_simp

section \<open>Targets given as text\<close>

text \<open>
  The inputs of a managed \<open>many_to_many\<close> name their targets as they are given, the stored
  join rows as the target's key is stored: one named by its text is joined again, where a
  managed child is found.
\<close>

lemma text_target_joined_again:
  assumes "x_uuid_parse (e_external (en_env eng)) text = Some u" "key_type dest = TUuid" "fm_get input pk = Some (VString text)"
    and "\<And>v. v \<in> set (map fst existing) \<Longrightarrow> v = VUuid u"
  shows "given_key eng dest (fm_get input pk) = Some (VUuid u)"
    and "target_key eng calls ctx dest pk input = give (VString text)" "value_get (VString text) existing = None"
proof -
  show "given_key eng dest (fm_get input pk) = Some (VUuid u)" using assms(1-3) by (simp add: given_key_def)
  show "target_key eng calls ctx dest pk input = give (VString text)" using assms(3) by (simp add: target_key_def required_pk_def)
  have "\<not> value_eq v (VString text)" if "v \<in> set (map fst existing)" for v
    using assms(4) [OF that] by (simp add: value_eq_def value_cmp.simps)
  then show "value_get (VString text) existing = None"
    by (force simp: value_get_def find_None_iff)
qed

end
