(* ===== verification/AshBulk.thy ===== *)
theory AshBulk
  imports AshCommitFacts
begin

text \<open>
  Bulk creates, updates and destroys (\<open>crates/ash-core/src/bulk.rs\<close>): rows prepared as single
  writes are, written in batches, each in a transaction, all in one or none, and counted.

  A transaction of a data layer works for any result; here it's one for a batch's outcomes and
  one for the action's result. The resource's generated \<open>from_fields\<close> is a parameter.
\<close>

section \<open>Options and results\<close>

datatype bulk_transaction = BulkAll | BulkBatch | BulkOff

record bulk_options =
  bo_batch_size :: "nat option"
  bo_return_records :: bool
  bo_stop_on_error :: bool
  bo_notify :: bool
  bo_transaction :: bulk_transaction

record bulk_create_options = bulk_options +
  bo_upsert :: "(string \<times> string list) option"

definition bulk_defaults :: bulk_options where
  "bulk_defaults = \<lparr>bo_batch_size = None, bo_return_records = True, bo_stop_on_error = True, bo_notify = True,
     bo_transaction = BulkBatch\<rparr>"

definition bulk_create_defaults :: bulk_create_options where
  "bulk_create_defaults = bulk_options.extend bulk_defaults \<lparr>bo_upsert = None\<rparr>"

record 'r bulk_result =
  br_records :: "'r list"
  br_errors :: "string list"
  br_error_count :: nat
  br_count :: nat

definition empty_result :: "'r bulk_result" where
  "empty_result = \<lparr>br_records = [], br_errors = [], br_error_count = 0, br_count = 0\<rparr>"

definition is_success :: "'r bulk_result \<Rightarrow> bool" where
  "is_success result \<longleftrightarrow> br_error_count result = 0"

definition fail_row :: "external \<Rightarrow> 'r bulk_result \<Rightarrow> error \<Rightarrow> bool \<Rightarrow> 'r bulk_result res" where
  "fail_row x result e stop =
     (if stop then Inl e
      else Inr (result\<lparr>br_errors := br_errors result @ [error_display x e], br_error_count := Suc (br_error_count result)\<rparr>))"

section \<open>Transactions\<close>

record ('d, 'r) bulk_engine =
  be_engine :: "'d engine"
  be_can_transact :: bool
  be_batch :: "('d, fields res list) transactor"
  be_whole :: "('d, 'r bulk_result) transactor"
  be_from_fields :: "fields \<Rightarrow> 'r res"

record bulk_scope =
  sc_per_batch :: bool
  sc_whole :: bool
  sc_stop :: bool

definition scope_new :: "('d, 'r) bulk_engine \<Rightarrow> bulk_transaction \<Rightarrow> bool \<Rightarrow> bulk_scope" where
  "scope_new be tx stop =
     \<lparr>sc_per_batch = (be_can_transact be \<and> tx = BulkBatch), sc_whole = (be_can_transact be \<and> tx = BulkAll), sc_stop = stop\<rparr>"

definition transactional :: "bulk_scope \<Rightarrow> bool" where
  "transactional scope \<longleftrightarrow> sc_per_batch scope \<or> sc_whole scope"

definition reject :: "external \<Rightarrow> bulk_scope \<Rightarrow> 'r bulk_result \<Rightarrow> error \<Rightarrow> 'r bulk_result res" where
  "reject x scope result e = (if sc_whole scope then Inl e else fail_row x result e (sc_stop scope))"

text \<open>A step whose failure is a value.\<close>

definition attempt :: "('d, 'a) operation \<Rightarrow> ('d, 'a res) operation" where
  "attempt m = (\<lambda>w. let (r, w') = m w in (Inr r, w'))"

definition engine_display :: "('d, 'r) bulk_engine \<Rightarrow> error \<Rightarrow> string" where
  "engine_display be e = error_display (e_external (en_env (be_engine be))) e"

definition in_scope ::
    "('d, 'r) bulk_engine \<Rightarrow> ash_context \<Rightarrow> bulk_scope \<Rightarrow> nat \<Rightarrow> (ash_context \<Rightarrow> ('d, 'r bulk_result) operation) \<Rightarrow>
     ('d, 'r bulk_result) operation" where
  "in_scope be ctx scope rows action =
     (if \<not> sc_whole scope then action ctx
      else bindS (attempt (context_transaction (be_whole be) ctx action)) (\<lambda>r. case r of
             Inr result \<Rightarrow> give result
           | Inl e \<Rightarrow>
               if sc_stop scope then lift_res (Inl e)
               else give (empty_result\<lparr>br_errors := [engine_display be e], br_error_count := rows\<rparr>)))"

definition in_batch ::
    "('d, 'r) bulk_engine \<Rightarrow> ash_context \<Rightarrow> bulk_scope \<Rightarrow> (ash_context \<Rightarrow> ('d, fields res list) operation) \<Rightarrow>
     ('d, fields res list) operation" where
  "in_batch be ctx scope write =
     (if sc_per_batch scope then context_transaction (be_batch be) ctx write else write ctx)"

section \<open>Rows\<close>

record prepared_row =
  pr_id :: Value
  pr_changeset :: changeset_core
  pr_hooks :: "transaction_hook list"

definition conclude :: "transaction_hook list \<Rightarrow> fields res \<Rightarrow> ('d, unit) operation" where
  "conclude hooks outcome = (\<lambda>w. (Inr (), w\<lparr>w_events := w_events w @ concat (map (\<lambda>hook. hook outcome) hooks)\<rparr>))"

definition prepare_row ::
    "('d, 'r) bulk_engine \<Rightarrow> 'd calls \<Rightarrow> ash_context \<Rightarrow> bulk_scope \<Rightarrow> ('i \<Rightarrow> ('d, changeset) operation) \<Rightarrow>
     'r bulk_result \<times> prepared_row list \<Rightarrow> 'i \<Rightarrow> ('d, 'r bulk_result \<times> prepared_row list) operation" where
  "prepare_row be calls ctx scope changeset_for = (\<lambda>(result, prepared) input.
     let eng = be_engine be; rejecting = (\<lambda>e. lift_res (reject (e_external (en_env eng)) scope result e))
     in bindS (attempt (changeset_for input)) (\<lambda>r. case r of
          Inl e \<Rightarrow> bindS (rejecting e) (\<lambda>result. give (result, prepared))
        | Inr cs \<Rightarrow> bindS (attempt (prepare eng calls ctx cs)) (\<lambda>r. case r of
              Inr (key, core) \<Rightarrow>
                give (result, prepared @ [\<lparr>pr_id = key, pr_changeset = core, pr_hooks = cs_after_transactions cs\<rparr>])
            | Inl e \<Rightarrow> bindS (conclude (cs_after_transactions cs) (Inl e)) (\<lambda>_.
                bindS (rejecting e) (\<lambda>result. give (result, prepared))))))"

definition prepare_rows ::
    "('d, 'r) bulk_engine \<Rightarrow> 'd calls \<Rightarrow> ash_context \<Rightarrow> bulk_scope \<Rightarrow> ('i \<Rightarrow> ('d, changeset) operation) \<Rightarrow> 'i list \<Rightarrow>
     ('d, 'r bulk_result \<times> prepared_row list) operation" where
  "prepare_rows be calls ctx scope changeset_for inputs =
     fold_ops (prepare_row be calls ctx scope changeset_for) (empty_result, []) inputs"

definition is_stale :: "error \<Rightarrow> bool" where
  "is_stale e \<longleftrightarrow> (case e of EStaleRecord _ _ \<Rightarrow> True | _ \<Rightarrow> False)"

text \<open>A row's outcome among the batch's: in a transaction a failure other than a stale record ends it.\<close>

definition add_outcome :: "bool \<Rightarrow> fields res list \<Rightarrow> fields res \<Rightarrow> ('d, fields res list) operation" where
  "add_outcome tx outcomes outcome =
     (case outcome of
        Inl e \<Rightarrow> if tx \<and> \<not> is_stale e then lift_res (Inl e) else give (outcomes @ [outcome])
      | Inr _ \<Rightarrow> give (outcomes @ [outcome]))"

definition finish_row ::
    "'d engine \<Rightarrow> 'd calls \<Rightarrow> ash_context \<Rightarrow> bool \<Rightarrow> bool \<Rightarrow> fields res list \<Rightarrow> (Value \<times> changeset_core) \<times> fields res \<Rightarrow>
     ('d, fields res list) operation" where
  "finish_row eng calls ctx notify tx outcomes = (\<lambda>((key, cs), stored).
     bindS (attempt (bindS (lift_res stored) (\<lambda>stored. finish eng calls ctx cs key stored notify)))
       (add_outcome tx outcomes))"

definition finish_rows ::
    "'d engine \<Rightarrow> 'd calls \<Rightarrow> ash_context \<Rightarrow> (Value \<times> changeset_core) list \<Rightarrow> fields res list \<Rightarrow> bool \<Rightarrow> bool \<Rightarrow>
     ('d, fields res list) operation" where
  "finish_rows eng calls ctx rows stored notify tx =
     fold_ops (finish_row eng calls ctx notify tx) [] (zip rows stored)"

definition settle_one ::
    "('d, 'r) bulk_engine \<Rightarrow> bulk_scope \<Rightarrow> bool \<Rightarrow> 'r bulk_result \<Rightarrow> fields res \<Rightarrow> 'r bulk_result res" where
  "settle_one be scope return_records result outcome =
     (case outcome of
        Inr stored \<Rightarrow>
          bindE (if return_records then bindE (be_from_fields be stored) (\<lambda>r. Inr (br_records result @ [r]))
                 else Inr (br_records result)) (\<lambda>records.
            Inr (result\<lparr>br_records := records, br_count := Suc (br_count result)\<rparr>))
      | Inl e \<Rightarrow> if is_stale e then Inr result
                 else fail_row (e_external (en_env (be_engine be))) result e (sc_stop scope))"

definition settle ::
    "('d, 'r) bulk_engine \<Rightarrow> bulk_scope \<Rightarrow> bool \<Rightarrow> 'r bulk_result \<Rightarrow> transaction_hook list list \<Rightarrow> fields res list res \<Rightarrow>
     ('d, 'r bulk_result) operation" where
  "settle be scope return_records result hooks outcomes =
     (case outcomes of
        Inl e \<Rightarrow>
          bindS (for_each (\<lambda>row. conclude row (Inl e)) hooks) (\<lambda>_.
            if sc_whole scope \<or> sc_stop scope then lift_res (Inl e)
            else give (result\<lparr>br_errors := br_errors result @ [engine_display be e],
                             br_error_count := br_error_count result + length hooks\<rparr>))
      | Inr outcomes \<Rightarrow>
          bindS (for_each (\<lambda>(row, outcome). conclude row outcome) (zip hooks outcomes)) (\<lambda>_.
            lift_res (foldE (settle_one be scope return_records) result outcomes)))"

function chunks_of :: "nat \<Rightarrow> 'a list \<Rightarrow> 'a list list" where
  "chunks_of n xs = (if xs = [] then [] else take (max n 1) xs # chunks_of n (drop (max n 1) xs))"
  by auto
termination by (relation "measure (\<lambda>(n, xs). length xs)") auto

declare chunks_of.simps [simp del]

definition batches :: "'o bulk_options_scheme \<Rightarrow> 'a list \<Rightarrow> 'a list list" where
  "batches opts rows = chunks_of (case bo_batch_size opts of Some n \<Rightarrow> n | None \<Rightarrow> length rows) rows"

definition run_batch ::
    "('d, 'r) bulk_engine \<Rightarrow> ash_context \<Rightarrow> bulk_scope \<Rightarrow> 'o bulk_options_scheme \<Rightarrow>
     ((Value \<times> changeset_core) list \<Rightarrow> ash_context \<Rightarrow> ('d, fields res list) operation) \<Rightarrow>
     'r bulk_result \<Rightarrow> prepared_row list \<Rightarrow> ('d, 'r bulk_result) operation" where
  "run_batch be ctx scope opts write result rows =
     bindS (attempt (in_batch be ctx scope (write (map (\<lambda>row. (pr_id row, pr_changeset row)) rows)))) (\<lambda>outcomes.
       settle be scope (bo_return_records opts) result (map pr_hooks rows) outcomes)"

definition run_batches ::
    "('d, 'r) bulk_engine \<Rightarrow> ash_context \<Rightarrow> bulk_scope \<Rightarrow> 'o bulk_options_scheme \<Rightarrow>
     ((Value \<times> changeset_core) list \<Rightarrow> ash_context \<Rightarrow> ('d, fields res list) operation) \<Rightarrow>
     'r bulk_result \<Rightarrow> prepared_row list \<Rightarrow> ('d, 'r bulk_result) operation" where
  "run_batches be ctx scope opts write result rows = fold_ops (run_batch be ctx scope opts write) result (batches opts rows)"

section \<open>Creating\<close>

definition persist_each ::
    "'d engine \<Rightarrow> 'd calls \<Rightarrow> ash_context \<Rightarrow> bool \<Rightarrow> fields res list \<Rightarrow> Value \<times> changeset_core \<Rightarrow> ('d, fields res list) operation" where
  "persist_each eng calls ctx notify stored = (\<lambda>(key, cs).
     bindS (attempt (persist eng calls ctx cs key notify)) (\<lambda>r. give (stored @ [r])))"

definition write_creates ::
    "'d engine \<Rightarrow> 'd calls \<Rightarrow> resource_def \<Rightarrow> bulk_create_options \<Rightarrow> bool \<Rightarrow> (Value \<times> changeset_core) list \<Rightarrow> ash_context \<Rightarrow>
     ('d, fields res list) operation" where
  "write_creates eng calls r opts tx batch ctx =
     bindS (if bo_upsert opts \<noteq> None
            then new_cascade (fold_ops (persist_each eng calls ctx (bo_notify opts)) [] batch)
            else bindS (writing (\<lambda>d. dl_bulk_create (en_layer eng) d r (ctx_tenant ctx)
                   (map (\<lambda>(key, cs). (key, cs_fields cs)) batch))) (\<lambda>stored. give (map Inr stored))) (\<lambda>stored.
       finish_rows eng calls ctx batch stored (bo_notify opts) tx)"

definition create_for_bulk ::
    "'d engine \<Rightarrow> ash_context \<Rightarrow> resource_def \<Rightarrow> action_def \<Rightarrow> bulk_create_options \<Rightarrow> fields \<Rightarrow> ('d, changeset) operation" where
  "create_for_bulk eng ctx r action opts input =
     bindS (for_create_forcing eng ctx r action input []) (\<lambda>cs.
       give (case bo_upsert opts of Some (ident, fs) \<Rightarrow> with_upsert cs ident fs | None \<Rightarrow> cs))"

definition check_bulk :: "resource_def \<Rightarrow> string \<Rightarrow> action_kind \<Rightarrow> action_def res" where
  "check_bulk r name kind =
     bindE (action_named r name) (\<lambda>action.
     bindE (expect_kind action kind) (\<lambda>_.
     bindE (expect_persist action PersistDataLayer) (\<lambda>_. Inr action)))"

definition bulk_create ::
    "('d, 'r) bulk_engine \<Rightarrow> 'd calls \<Rightarrow> ash_context \<Rightarrow> resource_def \<Rightarrow> string \<Rightarrow> fields list \<Rightarrow> bulk_create_options \<Rightarrow>
     ('d, 'r bulk_result) operation" where
  "bulk_create be calls ctx r name inputs opts =
     (let eng = be_engine be; scope = scope_new be (bo_transaction opts) (bo_stop_on_error opts)
      in bindS (lift_res (check_bulk r name Create)) (\<lambda>action.
         bindS (lift_res (case bo_upsert opts of Some (ident, _) \<Rightarrow> bindE (upsert_identity r ident) (\<lambda>_. Inr ()) | None \<Rightarrow> Inr ())) (\<lambda>_.
           in_scope be ctx scope (length inputs) (\<lambda>ctx.
             bindS (prepare_rows be calls ctx scope (create_for_bulk eng ctx r action opts) inputs) (\<lambda>(result, rows).
               run_batches be ctx scope opts (write_creates eng calls r opts (transactional scope)) result rows)))))"

section \<open>Updating\<close>

definition row_lock :: "'d engine \<Rightarrow> action_def \<Rightarrow> Value \<times> changeset_core \<Rightarrow> lock option res" where
  "row_lock eng action = (\<lambda>(_, cs). case cs_existing cs of
     Some existing \<Rightarrow> lock_of (e_external (en_env eng)) action existing | None \<Rightarrow> Inr None)"

definition update_locked ::
    "'d engine \<Rightarrow> ash_context \<Rightarrow> resource_def \<Rightarrow> fields res list \<Rightarrow> (Value \<times> changeset_core) \<times> lock option \<Rightarrow>
     ('d, fields res list) operation" where
  "update_locked eng ctx r stored = (\<lambda>((key, cs), lock).
     bindS (attempt (update_guarded (en_layer eng) ctx r key (changes_of cs (cs_fields cs)) lock)) (\<lambda>r.
       give (stored @ [r])))"

definition write_updates ::
    "'d engine \<Rightarrow> 'd calls \<Rightarrow> resource_def \<Rightarrow> action_def \<Rightarrow> 'o bulk_options_scheme \<Rightarrow> bool \<Rightarrow> (Value \<times> changeset_core) list \<Rightarrow>
     ash_context \<Rightarrow> ('d, fields res list) operation" where
  "write_updates eng calls r action opts tx batch ctx =
     bindS (if has_optimistic_lock action
            then bindS (lift_res (mapE (row_lock eng action) batch)) (\<lambda>locks.
                   fold_ops (update_locked eng ctx r) [] (zip batch locks))
            else writing (\<lambda>d. dl_bulk_update (en_layer eng) d r (ctx_tenant ctx)
                   (map (\<lambda>(key, cs). (key, changes_of cs (cs_fields cs))) batch))) (\<lambda>stored.
       finish_rows eng calls ctx batch stored (bo_notify opts) tx)"

definition bulk_update ::
    "('d, 'r) bulk_engine \<Rightarrow> 'd calls \<Rightarrow> ash_context \<Rightarrow> resource_def \<Rightarrow> string \<Rightarrow> (fields \<times> fields) list \<Rightarrow>
     'o bulk_options_scheme \<Rightarrow> ('d, 'r bulk_result) operation" where
  "bulk_update be calls ctx r name updates opts =
     (let eng = be_engine be; scope = scope_new be (bo_transaction opts) (bo_stop_on_error opts)
      in bindS (lift_res (check_bulk r name Update)) (\<lambda>action.
           in_scope be ctx scope (length updates) (\<lambda>ctx.
             bindS (prepare_rows be calls ctx scope (\<lambda>(row, input). for_update_forcing eng ctx r action row input []) updates)
               (\<lambda>(result, rows). run_batches be ctx scope opts (write_updates eng calls r action opts (transactional scope)) result rows))))"

section \<open>Destroying\<close>

text \<open>A record changed since it was read is left out before anything runs for it.\<close>

definition check_row_lock :: "'d engine \<Rightarrow> ash_context \<Rightarrow> resource_def \<Rightarrow> action_def \<Rightarrow> Value \<Rightarrow> fields \<Rightarrow> ('d, unit) operation" where
  "check_row_lock eng ctx r action key row =
     bindS (lift_res (lock_of (e_external (en_env eng)) action row)) (\<lambda>lock.
       case lock of None \<Rightarrow> give () | Some l \<Rightarrow> check_lock (en_layer eng) ctx r key l)"

definition destroy_each ::
    "'d engine \<Rightarrow> 'd calls \<Rightarrow> ash_context \<Rightarrow> resource_def \<Rightarrow> action_def \<Rightarrow> string \<Rightarrow> bool \<Rightarrow> bool \<Rightarrow> fields res list \<Rightarrow> fields \<Rightarrow>
     ('d, fields res list) operation" where
  "destroy_each eng calls ctx r action pk notify tx outcomes row =
     bindS (lift_res (required_pk row pk)) (\<lambda>key.
     bindS (attempt (check_row_lock eng ctx r action key row)) (\<lambda>checked.
       case checked of
         Inl e \<Rightarrow> add_outcome tx outcomes (Inl e)
       | Inr _ \<Rightarrow> bindS (attempt (destroy_dynamic_with eng calls ctx r action key row notify)) (\<lambda>destroyed.
           case destroyed of
             Inl e \<Rightarrow> if tx then lift_res (Inl e) else give (outcomes @ [Inl e])
           | Inr stored \<Rightarrow> give (outcomes @ [Inr stored]))))"

definition destroy_batch_by_row ::
    "('d, 'r) bulk_engine \<Rightarrow> 'd calls \<Rightarrow> ash_context \<Rightarrow> resource_def \<Rightarrow> action_def \<Rightarrow> string \<Rightarrow> bulk_scope \<Rightarrow>
     'o bulk_options_scheme \<Rightarrow> 'r bulk_result \<Rightarrow> fields list \<Rightarrow> ('d, 'r bulk_result) operation" where
  "destroy_batch_by_row be calls ctx r action pk scope opts result batch =
     bindS (attempt (in_batch be ctx scope (\<lambda>ctx. new_cascade
       (fold_ops (destroy_each (be_engine be) calls ctx r action pk (bo_notify opts) (transactional scope)) [] batch)))) (\<lambda>outcomes.
       settle be scope (bo_return_records opts) result (map (\<lambda>_. []) batch) outcomes)"

text \<open>What goes before a row is deleted with the others of its batch: those that may be, and what each row gives.\<close>

definition clear_row ::
    "'d engine \<Rightarrow> 'd calls \<Rightarrow> ash_context \<Rightarrow> resource_def \<Rightarrow> action_def \<Rightarrow> bool \<Rightarrow> Value list \<times> fields res list \<Rightarrow>
     Value \<times> changeset_core \<Rightarrow> ('d, Value list \<times> fields res list) operation" where
  "clear_row eng calls ctx r action tx = (\<lambda>(keys, existing) (key, cs).
     let row = (case cs_existing cs of Some row \<Rightarrow> row | None \<Rightarrow> [])
     in bindS (attempt (check_row_lock eng ctx r action key row)) (\<lambda>checked.
          case checked of
            Inl e \<Rightarrow> bindS (add_outcome tx existing (Inl e)) (\<lambda>existing. give (keys, existing))
          | Inr _ \<Rightarrow> bindS (attempt (handle_cascading_deletes eng calls ctx r key row)) (\<lambda>cleared.
              case cleared of
                Inr _ \<Rightarrow> give (keys @ [key], existing @ [Inr row])
              | Inl e \<Rightarrow> if tx then lift_res (Inl e) else give (keys, existing @ [Inl e]))))"

definition destroy_locked ::
    "'d engine \<Rightarrow> ash_context \<Rightarrow> resource_def \<Rightarrow> action_def \<Rightarrow> bool \<Rightarrow> fields res list \<Rightarrow> fields res \<Rightarrow> ('d, fields res list) operation" where
  "destroy_locked eng ctx r action tx outcomes row =
     (case row of
        Inl e \<Rightarrow> give (outcomes @ [Inl e])
      | Inr fs \<Rightarrow>
          bindS (lift_res (bindE (pk_name r) (required_pk fs))) (\<lambda>key.
          bindS (lift_res (lock_of (e_external (en_env eng)) action fs)) (\<lambda>lock.
          bindS (attempt (destroy_guarded (en_layer eng) ctx r key lock)) (\<lambda>destroyed.
            case destroyed of
              Inr _ \<Rightarrow> give (outcomes @ [Inr fs])
            | Inl e \<Rightarrow> if cascades r action \<and> tx then lift_res (Inl e) else give (outcomes @ [Inl e])))))"

definition write_destroys ::
    "'d engine \<Rightarrow> 'd calls \<Rightarrow> resource_def \<Rightarrow> action_def \<Rightarrow> 'o bulk_options_scheme \<Rightarrow> bool \<Rightarrow> (Value \<times> changeset_core) list \<Rightarrow>
     ash_context \<Rightarrow> ('d, fields res list) operation" where
  "write_destroys eng calls r action opts tx batch ctx =
     bindS (fold_ops (clear_row eng calls ctx r action tx) ([], []) batch) (\<lambda>(keys, existing).
     bindS (if has_optimistic_lock action then fold_ops (destroy_locked eng ctx r action tx) [] existing
            else bindS (writing (\<lambda>d. dl_bulk_destroy (en_layer eng) d r (ctx_tenant ctx) keys)) (\<lambda>_. give existing)) (\<lambda>existing.
       finish_rows eng calls ctx batch existing (bo_notify opts) tx))"

definition found_for_destroy ::
    "'d engine \<Rightarrow> ash_context \<Rightarrow> resource_def \<Rightarrow> string \<Rightarrow> Value list \<Rightarrow> ('d, fields list) operation" where
  "found_for_destroy eng ctx r pk keys =
     bindS (lift_res (visible_scope r (Some (FIn pk keys)) (ctx_tenant ctx))) (\<lambda>(f, tenant).
       reading (\<lambda>d. dl_run_query (en_layer eng) d r (default_query\<lparr>q_filter := f, q_tenant := tenant\<rparr>)))"

definition bulk_destroy ::
    "('d, 'r) bulk_engine \<Rightarrow> 'd calls \<Rightarrow> ash_context \<Rightarrow> resource_def \<Rightarrow> string \<Rightarrow> Value list \<Rightarrow> 'o bulk_options_scheme \<Rightarrow>
     ('d, 'r bulk_result) operation" where
  "bulk_destroy be calls ctx r name keys opts =
     (let eng = be_engine be; scope = scope_new be (bo_transaction opts) (bo_stop_on_error opts)
      in bindS (lift_res (check_bulk r name Destroy)) (\<lambda>action.
         if keys = [] then give empty_result
         else bindS (lift_res (pk_name r)) (\<lambda>pk.
           in_scope be ctx scope (length keys) (\<lambda>ctx.
             bindS (found_for_destroy eng ctx r pk keys) (\<lambda>rows.
               if act_soft action \<or> act_cascade_destroy action \<noteq> [] then
                 fold_ops (destroy_batch_by_row be calls ctx r action pk scope opts) empty_result (batches opts rows)
               else
                 bindS (prepare_rows be calls ctx scope (\<lambda>row. for_destroy_with eng ctx r action row []) rows) (\<lambda>(result, prepared).
                   fold_ops (run_batch be ctx scope opts (write_destroys eng calls r action opts (transactional scope))) result
                     (chunks_of (case bo_batch_size opts of Some n \<Rightarrow> n | None \<Rightarrow> length rows) prepared)))))))"

section \<open>Every row is counted once at most\<close>

lemma fold_ops_bound:
  fixes m :: "'s \<Rightarrow> nat"
  assumes "fold_ops f s xs w = (Inr s', w')" "Q s"
    and "\<And>s x w s' w'. Q s \<Longrightarrow> f s x w = (Inr s', w') \<Longrightarrow> Q s' \<and> m s' \<le> m s + c x"
  shows "Q s' \<and> m s' \<le> m s + sum_list (map c xs)"
  using assms(1,2)
proof (induction xs arbitrary: s w)
  case Nil
  then show ?case by (simp add: give_def)
next
  case (Cons x xs)
  then obtain s1 w1 where s1: "f s x w = (Inr s1, w1)" "fold_ops f s1 xs w1 = (Inr s', w')"
    by (auto simp: bindS_eq_Inr)
  with assms(3) [OF Cons.prems(2) s1(1)] Cons.IH [OF s1(2)] show ?case by auto
qed

lemma attempt_Inr: "attempt m w = (Inr r, w') \<longleftrightarrow> m w = (r, w')"
  by (auto simp: attempt_def split: prod.split)

lemma attempt_never_fails: "attempt m w \<noteq> (Inl e, w')"
  by (auto simp: attempt_def split: prod.split)

lemma lift_res_eq [simp]: "lift_res r w = (r', w') \<longleftrightarrow> r' = r \<and> w' = w"
  by (auto simp: lift_res_def)

lemma give_eq [simp]: "give a w = (r, w') \<longleftrightarrow> r = Inr a \<and> w' = w"
  by (auto simp: give_def)

text \<open>A result of an action that stops on errors has none; it holds the records it counts, if it's to return them.\<close>

definition tallied :: "bulk_scope \<Rightarrow> bool \<Rightarrow> 'r bulk_result \<Rightarrow> bool" where
  "tallied scope return_records result \<longleftrightarrow>
     (sc_stop scope \<longrightarrow> br_error_count result = 0) \<and>
     length (br_records result) = (if return_records then br_count result else 0)"

definition accounted :: "'r bulk_result \<Rightarrow> nat" where
  "accounted result = br_count result + br_error_count result"

lemma fail_row_tallied:
  "tallied scope rr result \<Longrightarrow> fail_row x result e (sc_stop scope) = Inr result' \<Longrightarrow>
   tallied scope rr result' \<and> accounted result' = Suc (accounted result) \<and> br_count result' = br_count result"
  by (auto simp: fail_row_def tallied_def accounted_def split: if_splits)

lemma reject_tallied:
  "tallied scope rr result \<Longrightarrow> reject x scope result e = Inr result' \<Longrightarrow>
   tallied scope rr result' \<and> accounted result' = Suc (accounted result) \<and> br_count result' = br_count result"
  using fail_row_tallied [of scope rr result x e result'] by (simp add: reject_def split: if_splits)

lemma settle_one_tallied:
  assumes "tallied scope rr result" "settle_one be scope rr result outcome = Inr result'"
  shows "tallied scope rr result' \<and> accounted result' \<le> Suc (accounted result)"
proof (cases outcome)
  case (Inl e)
  then show ?thesis using assms fail_row_tallied [OF assms(1)]
    by (auto simp: settle_one_def split: if_splits)
next
  case (Inr stored)
  then show ?thesis using assms
    by (auto simp: settle_one_def bindE_eq_Inr tallied_def accounted_def split: if_splits)
qed

lemma settle_all_tallied:
  "tallied scope rr result \<Longrightarrow> foldE (settle_one be scope rr) result outcomes = Inr result' \<Longrightarrow>
   tallied scope rr result' \<and> accounted result' \<le> accounted result + length outcomes"
proof (induction outcomes arbitrary: result)
  case (Cons outcome outcomes)
  then obtain r1 where r1: "settle_one be scope rr result outcome = Inr r1" "foldE (settle_one be scope rr) r1 outcomes = Inr result'"
    by (auto simp: bindE_eq_Inr)
  show ?case using settle_one_tallied [OF Cons.prems(1) r1(1)] Cons.IH [OF _ r1(2)] by auto
qed simp

lemma settle_tallied:
  assumes "tallied scope rr result" "settle be scope rr result hooks outcomes w = (Inr result', w')"
    and "\<And>outs. outcomes = Inr outs \<Longrightarrow> length outs \<le> length hooks"
  shows "tallied scope rr result' \<and> accounted result' \<le> accounted result + length hooks"
proof (cases outcomes)
  case (Inl e)
  then show ?thesis using assms(1,2)
    by (auto simp: settle_def bindS_eq_Inr tallied_def accounted_def split: if_splits)
next
  case (Inr outs)
  then have "foldE (settle_one be scope rr) result outs = Inr result'"
    using assms(2) by (auto simp: settle_def bindS_eq_Inr)
  from settle_all_tallied [OF assms(1) this] assms(3) [OF Inr] show ?thesis by auto
qed

lemma add_outcome_length: "add_outcome tx outs outcome w = (Inr outs', w') \<Longrightarrow> length outs' = Suc (length outs)"
  by (auto simp: add_outcome_def split: sum.splits if_splits)

lemma finish_row_length:
  assumes "finish_row eng calls ctx notify tx outs x w = (Inr outs', w')"
  shows "length outs' = Suc (length outs)"
  using assms by (auto simp: finish_row_def bindS_eq_Inr attempt_Inr split: prod.splits dest: add_outcome_length)

lemma finish_rows_length:
  assumes "finish_rows eng calls ctx rows stored notify tx w = (Inr outs, w')"
  shows "length outs \<le> length rows"
proof -
  have "True \<and> length outs \<le> length ([] :: fields res list) + sum_list (map (\<lambda>_. 1) (zip rows stored))"
    by (rule fold_ops_bound [OF assms [unfolded finish_rows_def], where Q = "\<lambda>_. True" and m = length and c = "\<lambda>_. 1"])
      (auto dest: finish_row_length)
  then show ?thesis by (simp add: sum_list_triv)
qed

text \<open>A transaction gives what its work gives, somewhere.\<close>

definition gives_its_work :: "('d, 'a) transactor \<Rightarrow> bool" where
  "gives_its_work run \<longleftrightarrow> (\<forall>m w a w'. run m w = (Inr a, w') \<longrightarrow> (\<exists>w1 w2. m w1 = (Inr a, w2)))"

lemma context_transaction_gives:
  assumes "gives_its_work run" "context_transaction run ctx f w = (Inr a, w')"
  shows "\<exists>ctx' w1 w2. f ctx' w1 = (Inr a, w2)"
  using assms unfolding context_transaction_def gives_its_work_def
  by (auto split: if_splits prod.splits simp: Let_def) blast+

lemma concat_chunks: "concat (chunks_of n xs) = xs"
proof (induction n xs rule: chunks_of.induct)
  case (1 n xs)
  then show ?case by (subst chunks_of.simps) simp
qed

lemma run_batch_tallied:
  assumes "gives_its_work (be_batch be)" "tallied scope (bo_return_records opts) result"
    and writes: "\<And>ctx' batch w outs w'. write batch ctx' w = (Inr outs, w') \<Longrightarrow> length outs \<le> length batch"
    and "run_batch be ctx scope opts write result rows w = (Inr result', w')"
  shows "tallied scope (bo_return_records opts) result' \<and> accounted result' \<le> accounted result + length rows"
proof -
  let ?batch = "map (\<lambda>row. (pr_id row, pr_changeset row)) rows"
  obtain outcomes w1 where o: "in_batch be ctx scope (write ?batch) w = (outcomes, w1)"
    "settle be scope (bo_return_records opts) result (map pr_hooks rows) outcomes w1 = (Inr result', w')"
    using assms(4) by (auto simp: run_batch_def bindS_eq_Inr attempt_Inr)
  have "length outs \<le> length rows" if "outcomes = Inr outs" for outs
  proof -
    have "\<exists>ctx' w1 w2. write ?batch ctx' w1 = (Inr outs, w2)"
      using o(1) that context_transaction_gives [OF assms(1)] by (auto simp: in_batch_def split: if_splits)
    then show ?thesis using writes by fastforce
  qed
  then show ?thesis using settle_tallied [OF assms(2) o(2)] by simp
qed

lemma run_batches_tallied:
  assumes "gives_its_work (be_batch be)" "tallied scope (bo_return_records opts) result"
    and "\<And>ctx' batch w outs w'. write batch ctx' w = (Inr outs, w') \<Longrightarrow> length outs \<le> length batch"
    and "run_batches be ctx scope opts write result rows w = (Inr result', w')"
  shows "tallied scope (bo_return_records opts) result' \<and> accounted result' \<le> accounted result + length rows"
proof -
  have "tallied scope (bo_return_records opts) result' \<and>
      accounted result' \<le> accounted result + sum_list (map length (batches opts rows))"
    by (rule fold_ops_bound [where Q = "tallied scope (bo_return_records opts)" and m = accounted and c = length,
          OF assms(4) [unfolded run_batches_def] assms(2)])
      (rule run_batch_tallied [OF assms(1) _ assms(3)])
  then show ?thesis by (simp add: length_concat [symmetric] batches_def concat_chunks)
qed

lemma empty_tallied: "tallied scope rr empty_result" "accounted empty_result = 0"
  by (simp_all add: tallied_def accounted_def empty_result_def)

lemma prepare_row_tallied:
  assumes "prepare_row be calls ctx scope changeset_for (result, rows) input w = (Inr (result', rows'), w')" "tallied scope rr result"
  shows "tallied scope rr result' \<and> accounted result' + length rows' \<le> Suc (accounted result + length rows)"
proof -
  obtain r w1 where r: "changeset_for input w = (r, w1)" by (cases "changeset_for input w")
  show ?thesis
  proof (cases r)
    case (Inl e)
    then show ?thesis using assms r reject_tallied [OF assms(2)]
      by (fastforce simp: prepare_row_def Let_def bindS_eq_Inr attempt_Inr split: sum.splits)
  next
    case (Inr cs)
    obtain p w2 where p: "prepare (be_engine be) calls ctx cs w1 = (p, w2)" by (cases "prepare (be_engine be) calls ctx cs w1")
    show ?thesis
    proof (cases p)
      case (Inl e)
      then show ?thesis using assms r Inr p reject_tallied [OF assms(2)]
        by (fastforce simp: prepare_row_def Let_def bindS_eq_Inr attempt_Inr conclude_def split: sum.splits)
    next
      case (Inr key)
      then show ?thesis using assms r \<open>r = Inr cs\<close> p
        by (auto simp: prepare_row_def Let_def bindS_eq_Inr attempt_Inr split: prod.splits)
    qed
  qed
qed

lemma prepare_rows_tallied:
  fixes result :: "'r bulk_result"
  assumes "prepare_rows be calls ctx scope changeset_for inputs w = (Inr (result, rows), w')"
  shows "tallied scope rr result \<and> accounted result + length rows \<le> length inputs"
proof -
  let ?Q = "\<lambda>(result, _ :: prepared_row list). tallied scope rr result"
    and ?m = "\<lambda>(result, rows :: prepared_row list). accounted result + length rows"
  have step: "?Q s' \<and> ?m s' \<le> ?m s + 1"
    if "?Q s" "prepare_row be calls ctx scope changeset_for s x w = (Inr s', w')" for s x w s' w'
    using that prepare_row_tallied by (cases s; cases s') fastforce
  have "?Q (result, rows) \<and> ?m (result, rows) \<le> ?m (empty_result :: 'r bulk_result, [] :: prepared_row list) + sum_list (map (\<lambda>_. 1) inputs)"
    by (rule fold_ops_bound [where Q = ?Q and m = ?m and c = "\<lambda>_. 1", OF assms [unfolded prepare_rows_def]])
      (use step empty_tallied(1) in auto)
  then show ?thesis by (simp add: empty_tallied sum_list_triv)
qed

text \<open>
  C12: A bulk create accounts for each input at most once, as a record it counts or
  an error; it returns the records it counts, or none where it was told to, and one that stops on
  errors has none.
\<close>

theorem bulk_create_accounts:
  assumes "bulk_create be calls ctx r name inputs opts w = (Inr result, w')"
    and "gives_its_work (be_batch be)" "gives_its_work (be_whole be)"
  shows "br_count result + br_error_count result \<le> length inputs \<and>
    length (br_records result) = (if bo_return_records opts then br_count result else 0) \<and>
    (bo_stop_on_error opts \<longrightarrow> is_success result)"
proof -
  let ?scope = "scope_new be (bo_transaction opts) (bo_stop_on_error opts)"
  define act where "act = (\<lambda>action ctx.
    bindS (prepare_rows be calls ctx ?scope (create_for_bulk (be_engine be) ctx r action opts) inputs) (\<lambda>(result, rows).
      run_batches be ctx ?scope opts (write_creates (be_engine be) calls r opts (transactional ?scope)) result rows))"
  have written: "tallied ?scope (bo_return_records opts) result \<and> accounted result \<le> length inputs"
    if run: "act action ctx' w1 = (Inr result, w2)" for action ctx' w1 w2 result
  proof -
    obtain result0 rows w0 where p: "prepare_rows be calls ctx' ?scope (create_for_bulk (be_engine be) ctx' r action opts) inputs w1 =
        (Inr (result0, rows), w0)"
      "run_batches be ctx' ?scope opts (write_creates (be_engine be) calls r opts (transactional ?scope)) result0 rows w0 = (Inr result, w2)"
      using run by (auto simp: act_def bindS_eq_Inr)
    have "length outs \<le> length batch"
      if "write_creates (be_engine be) calls r opts (transactional ?scope) batch ctx'' w = (Inr outs, w')" for batch ctx'' w outs w'
      using that by (auto simp: write_creates_def bindS_eq_Inr dest: finish_rows_length)
    note run_batches_tallied [OF assms(2) conjunct1 [OF prepare_rows_tallied [OF p(1)]] this p(2)]
    then show ?thesis using prepare_rows_tallied [OF p(1)] by fastforce
  qed
  obtain action w1 where scoped: "in_scope be ctx ?scope (length inputs) (act action) w1 = (Inr result, w')"
    using assms(1) by (auto simp: bulk_create_def Let_def bindS_eq_Inr act_def split: sum.splits)
  have "tallied ?scope (bo_return_records opts) result \<and> accounted result \<le> length inputs"
  proof (cases "sc_whole ?scope")
    case False
    then show ?thesis using scoped written by (simp add: in_scope_def)
  next
    case True
    then obtain t w2 where t: "context_transaction (be_whole be) ctx (act action) w1 = (t, w2)"
      "(case t of Inr result \<Rightarrow> give result | Inl e \<Rightarrow> if sc_stop ?scope then lift_res (Inl e)
         else give (empty_result\<lparr>br_errors := [engine_display be e], br_error_count := length inputs\<rparr>)) w2 = (Inr result, w')"
      using scoped by (auto simp: in_scope_def bindS_eq_Inr attempt_Inr)
    show ?thesis
    proof (cases t)
      case (Inl e)
      then show ?thesis using t(2) by (auto simp: tallied_def accounted_def empty_result_def split: if_splits)
    next
      case (Inr a)
      then show ?thesis using t written context_transaction_gives [OF assms(3)] by fastforce
    qed
  qed
  then show ?thesis by (simp add: tallied_def accounted_def is_success_def scope_new_def)
qed

definition memory_bulk :: "registry \<Rightarrow> (memory, fields) bulk_engine" where
  "memory_bulk reg = \<lparr>be_engine = memory_engine reg, be_can_transact = False, be_batch = run_in_place,
     be_whole = run_in_place, be_from_fields = Inr\<rparr>"

definition sample_openable :: resource_def where
  "sample_openable = sample_unique\<lparr>r_actions := [(create_action ''open'')\<lparr>act_accept := [''title'']\<rparr>]\<rparr>"

text \<open>Two posts, one without its title.\<close>

definition bulk_sample :: "fields bulk_result res \<times> memory world" where
  "bulk_sample = bulk_create (memory_bulk [sample_openable]) (engine_calls (memory_engine [sample_openable]) 1) context_new
     sample_openable ''open'' [[(''title'', VString ''a'')], []] (bulk_create_defaults\<lparr>bo_stop_on_error := False\<rparr>) (world_of empty_memory)"

lemma bulk_sample_counts:
  "case bulk_sample of (Inr result, w) \<Rightarrow> br_count result = 1 \<and> br_error_count result = 1 | _ \<Rightarrow> False"
  by code_simp

lemma bulk_create_accounts_witness:
  "\<exists>result w. bulk_sample = (Inr result, w) \<and> br_count result = 1 \<and> br_error_count result = 1 \<and> length (br_records result) = 1"
proof -
  obtain result w where b: "bulk_sample = (Inr result, w)" "br_count result = 1" "br_error_count result = 1"
    using bulk_sample_counts by (auto split: prod.splits sum.splits)
  have g: "gives_its_work (be_batch (memory_bulk [sample_openable]))" "gives_its_work (be_whole (memory_bulk [sample_openable]))"
    by (auto simp: gives_its_work_def memory_bulk_def run_in_place_def)
  have "length (br_records result) = 1"
    using bulk_create_accounts [OF b(1) [unfolded bulk_sample_def] g] b(2)
    by (simp add: bulk_create_defaults_def bulk_defaults_def bulk_options.extend_def)
  then show ?thesis using b by auto
qed

section \<open>Cascades of a bulk destroy\<close>

text \<open>
  A bulk destroy told not to notify still notifies of what a hard destroy's relationships take
  with it: \<open>handle_cascading_deletes\<close> starts a cascade that notifies.
\<close>

definition node_tree :: memory where
  "node_tree = from_tables [(''Node'',
     [(VUuid 1, [(''id'', VUuid 1), (''parent_id'', VUuid 9)]), (VUuid 2, [(''id'', VUuid 2), (''parent_id'', VUuid 1)])])]"

lemma silent_destroy_notifies:
  "case bulk_destroy (memory_bulk [sample_node]) (engine_calls (memory_engine [sample_node]) 1) context_new sample_node
      ''destroy'' [VUuid 1] (bulk_defaults\<lparr>bo_notify := False\<rparr>) (world_of node_tree) of
     (Inr result, w) \<Rightarrow> br_count result = 1 \<and> map (n_id \<circ> snd) (w_sent w) = [VUuid 2]
   | _ \<Rightarrow> False"
  by code_simp

end
