(* ===== verification/AshMulti.thy ===== *)
theory AshMulti
  imports AshBulk
begin

text \<open>
  Multi-step writes (\<open>crates/ash-core/src/multi.rs\<close>, \<open>multi/step.rs\<close>, \<open>multi/result.rs\<close> and
  \<open>multi/bound.rs\<close>): named steps run in order in one transaction, each given what the ones
  before it left.

  What a step leaves is of any type, tagged here with its type's name. A step's closure is
  called once: it's an \<open>option\<close>, \<open>None\<close> when it was. A closure that is given the context may draw
  keys and times from it, so it's an operation.
\<close>

section \<open>Results\<close>

datatype any_value =
    AnyRecord string fields
  | AnyValue string Value
  | AnyBulk string "fields bulk_result"

fun any_type :: "any_value \<Rightarrow> string" where
  "any_type (AnyRecord ty _) = ty"
| "any_type (AnyValue ty _) = ty"
| "any_type (AnyBulk ty _) = ''BulkResult<'' @ ty @ ''>''"

type_synonym multi_result = "(string, any_value) hmap"

definition result_insert :: "multi_result \<Rightarrow> string \<Rightarrow> any_value \<Rightarrow> multi_result" where
  "result_insert results name v = fm_insert name v results"

definition result_get :: "multi_result \<Rightarrow> string \<Rightarrow> string \<Rightarrow> any_value res" where
  "result_get results ty name =
     bindE (ok_or (fm_get results name) (EInvalid (''step `'' @ name @ ''` not found in MultiResult''))) (\<lambda>v.
       if any_type v = ty then Inr v
       else Inl (EInvalid (''step `'' @ name @ ''` result type mismatch: expected '' @ ty)))"

definition result_contains :: "multi_result \<Rightarrow> string \<Rightarrow> bool" where
  "result_contains results name = fm_contains results name"

definition result_len :: "multi_result \<Rightarrow> nat" where
  "result_len results = length results"

definition result_is_empty :: "multi_result \<Rightarrow> bool" where
  "result_is_empty results \<longleftrightarrow> results = []"

section \<open>Steps\<close>

datatype 'd step =
    CreateStep string resource_def "changeset res option"
  | CreateFromStep string resource_def "(ash_context \<Rightarrow> multi_result \<Rightarrow> ('d, changeset) operation) option"
  | UpdateStep string resource_def "changeset res option"
  | UpdateFromStep string resource_def "(ash_context \<Rightarrow> multi_result \<Rightarrow> ('d, changeset) operation) option"
  | DestroyStep string resource_def string "fields option"
  | DestroyFromStep string resource_def string "(ash_context \<Rightarrow> multi_result \<Rightarrow> ('d, fields) operation) option"
  | InsertStep string "any_value option"
  | RunSyncStep string "(ash_context \<Rightarrow> multi_result \<Rightarrow> ('d, any_value) operation) option"
  | RunAsyncStep string "(ash_context \<Rightarrow> multi_result \<Rightarrow> ('d, any_value) operation) option"
  | BulkCreateStep string resource_def string "fields list" bulk_create_options
  | BulkDestroyStep string resource_def string "Value list" bulk_options

fun step_name :: "'d step \<Rightarrow> string" where
  "step_name (CreateStep name _ _) = name"
| "step_name (CreateFromStep name _ _) = name"
| "step_name (UpdateStep name _ _) = name"
| "step_name (UpdateFromStep name _ _) = name"
| "step_name (DestroyStep name _ _ _) = name"
| "step_name (DestroyFromStep name _ _ _) = name"
| "step_name (InsertStep name _) = name"
| "step_name (RunSyncStep name _) = name"
| "step_name (RunAsyncStep name _) = name"
| "step_name (BulkCreateStep name _ _ _ _) = name"
| "step_name (BulkDestroyStep name _ _ _ _) = name"

record 'd multi_env =
  mu_bulk :: "('d, fields) bulk_engine"
  mu_calls :: "'d calls"
  mu_transactor :: "('d, multi_result) transactor"
  mu_from_fields :: "resource_def \<Rightarrow> fields \<Rightarrow> fields res"

definition already_executed :: "string \<Rightarrow> error" where
  "already_executed name = EInvalid (''step `'' @ name @ ''` has already been executed'')"

definition take_once :: "string \<Rightarrow> 'a option \<Rightarrow> ('d, 'a) operation" where
  "take_once name v = lift_res (ok_or v (already_executed name))"

text \<open>A typed changeset's commit, and a destroy of a record in hand through an action by name.\<close>

definition commit_typed :: "'d multi_env \<Rightarrow> ash_context \<Rightarrow> resource_def \<Rightarrow> changeset \<Rightarrow> ('d, any_value) operation" where
  "commit_typed mu ctx r cs =
     bindS (commit_new (mu_calls mu) ctx cs) (\<lambda>stored.
     bindS (lift_res (mu_from_fields mu r stored)) (\<lambda>row. give (AnyRecord (r_name r) row)))"

definition destroy_returning ::
    "'d multi_env \<Rightarrow> ash_context \<Rightarrow> resource_def \<Rightarrow> string \<Rightarrow> fields \<Rightarrow> ('d, any_value) operation" where
  "destroy_returning mu ctx r name row =
     bindS (lift_res (action_named r name)) (\<lambda>action.
     bindS (for_destroy_with (be_engine (mu_bulk mu)) ctx r action row []) (commit_typed mu ctx r))"

text \<open>What a step leaves under its name.\<close>

fun step_value :: "'d multi_env \<Rightarrow> ash_context \<Rightarrow> multi_result \<Rightarrow> 'd step \<Rightarrow> ('d, any_value) operation" where
  "step_value mu ctx results (CreateStep name r cs) =
     bindS (take_once name cs) (\<lambda>cs. bindS (lift_res cs) (commit_typed mu ctx r))"
| "step_value mu ctx results (CreateFromStep name r f) =
     bindS (take_once name f) (\<lambda>f. bindS (f ctx results) (commit_typed mu ctx r))"
| "step_value mu ctx results (UpdateStep name r cs) =
     bindS (take_once name cs) (\<lambda>cs. bindS (lift_res cs) (commit_typed mu ctx r))"
| "step_value mu ctx results (UpdateFromStep name r f) =
     bindS (take_once name f) (\<lambda>f. bindS (f ctx results) (commit_typed mu ctx r))"
| "step_value mu ctx results (DestroyStep name r action row) =
     bindS (take_once name row) (destroy_returning mu ctx r action)"
| "step_value mu ctx results (DestroyFromStep name r action f) =
     bindS (take_once name f) (\<lambda>f. bindS (f ctx results) (destroy_returning mu ctx r action))"
| "step_value mu ctx results (InsertStep name v) = take_once name v"
| "step_value mu ctx results (RunSyncStep name f) = bindS (take_once name f) (\<lambda>f. f ctx results)"
| "step_value mu ctx results (RunAsyncStep name f) =
     bindS (lift_res (ok_or f (EPanic ''called `Option::unwrap()` on a `None` value''))) (\<lambda>f. f ctx results)"
| "step_value mu ctx results (BulkCreateStep name r action inputs opts) =
     bindS (bulk_create (mu_bulk mu) (mu_calls mu) ctx r action inputs opts) (\<lambda>result. give (AnyBulk (r_name r) result))"
| "step_value mu ctx results (BulkDestroyStep name r action keys opts) =
     bindS (bulk_destroy (mu_bulk mu) (mu_calls mu) ctx r action keys opts) (\<lambda>result. give (AnyBulk (r_name r) result))"

definition step_execute :: "'d multi_env \<Rightarrow> ash_context \<Rightarrow> multi_result \<Rightarrow> 'd step \<Rightarrow> ('d, multi_result) operation" where
  "step_execute mu ctx results step =
     bindS (step_value mu ctx results step) (\<lambda>v. give (result_insert results (step_name step) v))"

text \<open>A step once executed, whether it failed or not.\<close>

fun step_taken :: "'d step \<Rightarrow> 'd step" where
  "step_taken (CreateStep name r _) = CreateStep name r None"
| "step_taken (CreateFromStep name r _) = CreateFromStep name r None"
| "step_taken (UpdateStep name r _) = UpdateStep name r None"
| "step_taken (UpdateFromStep name r _) = UpdateFromStep name r None"
| "step_taken (DestroyStep name r action _) = DestroyStep name r action None"
| "step_taken (DestroyFromStep name r action _) = DestroyFromStep name r action None"
| "step_taken (InsertStep name _) = InsertStep name None"
| "step_taken (RunSyncStep name _) = RunSyncStep name None"
| "step_taken (RunAsyncStep name _) = RunAsyncStep name None"
| "step_taken (BulkCreateStep name r action _ opts) = BulkCreateStep name r action [] opts"
| "step_taken (BulkDestroyStep name r action _ opts) = BulkDestroyStep name r action [] opts"

section \<open>The pipeline\<close>

type_synonym 'd multi = "'d step list"

text \<open>The steps it leaves are those it has taken, up to the one that failed, and the rest.\<close>

fun run_steps :: "'d multi_env \<Rightarrow> ash_context \<Rightarrow> multi_result \<Rightarrow> 'd multi \<Rightarrow> 'd world \<Rightarrow>
    (multi_result res \<times> 'd multi) \<times> 'd world" where
  "run_steps mu ctx results [] w = ((Inr results, []), w)"
| "run_steps mu ctx results (step # steps) w =
     (case step_execute mu ctx results step w of
        (Inl e, w') \<Rightarrow> ((Inl (EMulti (step_name step) e), step_taken step # steps), w')
      | (Inr results', w') \<Rightarrow>
          let ((r, left), w'') = run_steps mu ctx results' steps w' in ((r, step_taken step # left), w''))"

definition run_pipeline :: "'d multi_env \<Rightarrow> ash_context \<Rightarrow> 'd multi \<Rightarrow> ('d, multi_result) operation" where
  "run_pipeline mu ctx steps = (\<lambda>w. let ((r, _), w') = run_steps mu ctx [] steps w in (r, w'))"

text \<open>Its notifications are queued apart and sent once it has succeeded, those of a failed one dropped.\<close>

definition buffering :: "ash_context \<Rightarrow> ('d, 'a) operation \<Rightarrow> ('d, 'a) operation" where
  "buffering ctx work = (\<lambda>w.
     let (result, w') = work (w\<lparr>w_queue := []\<rparr>);
         w'' = (case result of Inr _ \<Rightarrow> snd (flush_queued ctx w') | Inl _ \<Rightarrow> w')
     in (result, w''\<lparr>w_queue := w_queue w\<rparr>))"

definition execute_without_transaction :: "'d multi_env \<Rightarrow> ash_context \<Rightarrow> 'd multi \<Rightarrow> ('d, multi_result) operation" where
  "execute_without_transaction mu ctx steps = buffering ctx (run_pipeline mu (ctx\<lparr>ctx_queueing := True\<rparr>) steps)"

definition execute :: "'d multi_env \<Rightarrow> ash_context \<Rightarrow> 'd multi \<Rightarrow> ('d, multi_result) operation" where
  "execute mu ctx steps =
     buffering ctx (context_transaction (mu_transactor mu) (ctx\<lparr>ctx_queueing := True\<rparr>) (\<lambda>tx_ctx.
       run_pipeline mu (tx_ctx\<lparr>ctx_queueing := True\<rparr>) steps))"

section \<open>Building one\<close>

definition multi_create :: "'d multi \<Rightarrow> string \<Rightarrow> resource_def \<Rightarrow> changeset res \<Rightarrow> 'd multi" where
  "multi_create steps name r cs = steps @ [CreateStep name r (Some cs)]"

definition multi_create_from ::
    "'d multi \<Rightarrow> string \<Rightarrow> resource_def \<Rightarrow> (ash_context \<Rightarrow> multi_result \<Rightarrow> ('d, changeset) operation) \<Rightarrow> 'd multi" where
  "multi_create_from steps name r f = steps @ [CreateFromStep name r (Some f)]"

definition multi_update :: "'d multi \<Rightarrow> string \<Rightarrow> resource_def \<Rightarrow> changeset res \<Rightarrow> 'd multi" where
  "multi_update steps name r cs = steps @ [UpdateStep name r (Some cs)]"

definition multi_update_from ::
    "'d multi \<Rightarrow> string \<Rightarrow> resource_def \<Rightarrow> (ash_context \<Rightarrow> multi_result \<Rightarrow> ('d, changeset) operation) \<Rightarrow> 'd multi" where
  "multi_update_from steps name r f = steps @ [UpdateFromStep name r (Some f)]"

definition multi_destroy :: "'d multi \<Rightarrow> string \<Rightarrow> resource_def \<Rightarrow> string \<Rightarrow> fields \<Rightarrow> 'd multi" where
  "multi_destroy steps name r action row = steps @ [DestroyStep name r action (Some row)]"

definition multi_destroy_from ::
    "'d multi \<Rightarrow> string \<Rightarrow> resource_def \<Rightarrow> string \<Rightarrow> (ash_context \<Rightarrow> multi_result \<Rightarrow> ('d, fields) operation) \<Rightarrow> 'd multi" where
  "multi_destroy_from steps name r action f = steps @ [DestroyFromStep name r action (Some f)]"

definition multi_insert :: "'d multi \<Rightarrow> string \<Rightarrow> any_value \<Rightarrow> 'd multi" where
  "multi_insert steps name v = steps @ [InsertStep name (Some v)]"

definition multi_run_fn :: "'d multi \<Rightarrow> string \<Rightarrow> (ash_context \<Rightarrow> multi_result \<Rightarrow> ('d, any_value) operation) \<Rightarrow> 'd multi" where
  "multi_run_fn steps name f = steps @ [RunSyncStep name (Some f)]"

definition multi_run :: "'d multi \<Rightarrow> string \<Rightarrow> (ash_context \<Rightarrow> multi_result \<Rightarrow> ('d, any_value) operation) \<Rightarrow> 'd multi" where
  "multi_run steps name f = steps @ [RunAsyncStep name (Some f)]"

definition multi_bulk_create ::
    "'d multi \<Rightarrow> string \<Rightarrow> resource_def \<Rightarrow> string \<Rightarrow> fields list \<Rightarrow> bulk_create_options \<Rightarrow> 'd multi" where
  "multi_bulk_create steps name r action inputs opts = steps @ [BulkCreateStep name r action inputs opts]"

definition multi_bulk_destroy ::
    "'d multi \<Rightarrow> string \<Rightarrow> resource_def \<Rightarrow> string \<Rightarrow> Value list \<Rightarrow> bulk_options \<Rightarrow> 'd multi" where
  "multi_bulk_destroy steps name r action keys opts = steps @ [BulkDestroyStep name r action keys opts]"

text \<open>Bound to its context, from the start.\<close>

record 'd bound_multi =
  bm_context :: ash_context
  bm_multi :: "'d multi"

definition bound_new :: "ash_context \<Rightarrow> 'd bound_multi" where
  "bound_new ctx = \<lparr>bm_context = ctx, bm_multi = []\<rparr>"

definition bound_with :: "('d multi \<Rightarrow> 'd multi) \<Rightarrow> 'd bound_multi \<Rightarrow> 'd bound_multi" where
  "bound_with add bm = bm\<lparr>bm_multi := add (bm_multi bm)\<rparr>"

definition bound_create ::
    "'d bound_multi \<Rightarrow> string \<Rightarrow> resource_def \<Rightarrow> changeset res \<Rightarrow> 'd bound_multi" where
  "bound_create bm name r cs = bound_with (\<lambda>steps. multi_create steps name r cs) bm"

definition bound_create_from ::
    "'d bound_multi \<Rightarrow> string \<Rightarrow> resource_def \<Rightarrow> (ash_context \<Rightarrow> multi_result \<Rightarrow> ('d, changeset) operation) \<Rightarrow> 'd bound_multi" where
  "bound_create_from bm name r f = bound_with (\<lambda>steps. multi_create_from steps name r f) bm"

definition bound_update ::
    "'d bound_multi \<Rightarrow> string \<Rightarrow> resource_def \<Rightarrow> changeset res \<Rightarrow> 'd bound_multi" where
  "bound_update bm name r cs = bound_with (\<lambda>steps. multi_update steps name r cs) bm"

definition bound_update_from ::
    "'d bound_multi \<Rightarrow> string \<Rightarrow> resource_def \<Rightarrow> (ash_context \<Rightarrow> multi_result \<Rightarrow> ('d, changeset) operation) \<Rightarrow> 'd bound_multi" where
  "bound_update_from bm name r f = bound_with (\<lambda>steps. multi_update_from steps name r f) bm"

definition bound_destroy ::
    "'d bound_multi \<Rightarrow> string \<Rightarrow> resource_def \<Rightarrow> string \<Rightarrow> fields \<Rightarrow> 'd bound_multi" where
  "bound_destroy bm name r action row = bound_with (\<lambda>steps. multi_destroy steps name r action row) bm"

definition bound_destroy_from ::
    "'d bound_multi \<Rightarrow> string \<Rightarrow> resource_def \<Rightarrow> string \<Rightarrow> (ash_context \<Rightarrow> multi_result \<Rightarrow> ('d, fields) operation) \<Rightarrow> 'd bound_multi" where
  "bound_destroy_from bm name r action f = bound_with (\<lambda>steps. multi_destroy_from steps name r action f) bm"

definition bound_bulk_create ::
    "'d bound_multi \<Rightarrow> string \<Rightarrow> resource_def \<Rightarrow> string \<Rightarrow> fields list \<Rightarrow> bulk_create_options \<Rightarrow> 'd bound_multi" where
  "bound_bulk_create bm name r action inputs opts = bound_with (\<lambda>steps. multi_bulk_create steps name r action inputs opts) bm"

definition bound_bulk_destroy ::
    "'d bound_multi \<Rightarrow> string \<Rightarrow> resource_def \<Rightarrow> string \<Rightarrow> Value list \<Rightarrow> bulk_options \<Rightarrow> 'd bound_multi" where
  "bound_bulk_destroy bm name r action keys opts = bound_with (\<lambda>steps. multi_bulk_destroy steps name r action keys opts) bm"

definition bound_insert ::
    "'d bound_multi \<Rightarrow> string \<Rightarrow> any_value \<Rightarrow> 'd bound_multi" where
  "bound_insert bm name v = bound_with (\<lambda>steps. multi_insert steps name v) bm"

definition bound_run_fn ::
    "'d bound_multi \<Rightarrow> string \<Rightarrow> (ash_context \<Rightarrow> multi_result \<Rightarrow> ('d, any_value) operation) \<Rightarrow> 'd bound_multi" where
  "bound_run_fn bm name f = bound_with (\<lambda>steps. multi_run_fn steps name f) bm"

definition bound_run ::
    "'d bound_multi \<Rightarrow> string \<Rightarrow> (ash_context \<Rightarrow> multi_result \<Rightarrow> ('d, any_value) operation) \<Rightarrow> 'd bound_multi" where
  "bound_run bm name f = bound_with (\<lambda>steps. multi_run steps name f) bm"

definition bound_commit :: "'d multi_env \<Rightarrow> 'd bound_multi \<Rightarrow> ('d, multi_result) operation" where
  "bound_commit mu bm = execute mu (bm_context bm) (bm_multi bm)"

definition bound_commit_without_transaction :: "'d multi_env \<Rightarrow> 'd bound_multi \<Rightarrow> ('d, multi_result) operation" where
  "bound_commit_without_transaction mu bm = execute_without_transaction mu (bm_context bm) (bm_multi bm)"

section \<open>What a pipeline does\<close>

lemma step_execute_Inr:
  "step_execute mu ctx results step w = (Inr results', w') \<longleftrightarrow>
   (\<exists>v. step_value mu ctx results step w = (Inr v, w') \<and> results' = result_insert results (step_name step) v)"
  by (auto simp: step_execute_def bindS_eq_Inr)

lemma fm_insert_keys: "set (map fst (fm_insert k v m)) = insert k (set (map fst m))"
  by (induction k v m rule: fm_insert.induct) auto

text \<open>A pipeline that succeeds has a result under each step's name, and no other.\<close>

lemma run_steps_names:
  assumes "run_steps mu ctx results steps w = ((Inr results', left), w')" "fm_ok results"
  shows "fm_ok results' \<and> set (map fst results') = set (map fst results) \<union> step_name ` set steps \<and> left = map step_taken steps"
  using assms
proof (induction steps arbitrary: results w left)
  case (Cons step steps)
  obtain r w1 where r: "step_execute mu ctx results step w = (r, w1)" by (cases "step_execute mu ctx results step w")
  with Cons.prems(1) obtain results1 left1 where n: "r = Inr results1"
    "run_steps mu ctx results1 steps w1 = ((Inr results', left1), w')" "left = step_taken step # left1"
    by (auto split: sum.splits prod.splits)
  obtain v where v: "results1 = result_insert results (step_name step) v"
    using r n(1) step_execute_Inr by metis
  then have "fm_ok results1" "set (map fst results1) = insert (step_name step) (set (map fst results))"
    using Cons.prems(2) by (simp_all add: result_insert_def fm_ok_insert fm_insert_keys)
  with Cons.IH [OF n(2)] n(3) show ?case by auto
qed simp

text \<open>One that fails names the step that did, whose error is its own.\<close>

lemma run_steps_fails:
  assumes "run_steps mu ctx results steps w = ((Inl e, left), w')"
  shows "\<exists>before step after results1 w1 source. steps = before @ step # after \<and> e = EMulti (step_name step) source \<and>
    step_value mu ctx results1 step w1 = (Inl source, w') \<and> left = map step_taken before @ step_taken step # after"
  using assms
proof (induction steps arbitrary: results w left)
  case (Cons step steps)
  obtain r w1 where r: "step_execute mu ctx results step w = (r, w1)" by (cases "step_execute mu ctx results step w")
  show ?case
  proof (cases r)
    case (Inl source)
    then have "step_value mu ctx results step w = (Inl source, w1)"
      using r by (auto simp: step_execute_def bindS_eq_Inl)
    moreover have "e = EMulti (step_name step) source" "left = step_taken step # steps" "w' = w1"
      using Cons.prems r Inl by auto
    ultimately show ?thesis by (metis append_Nil list.map(1))
  next
    case (Inr results1)
    then obtain left1 where n: "run_steps mu ctx results1 steps w1 = ((Inl e, left1), w')" "left = step_taken step # left1"
      using Cons.prems r by (auto split: prod.splits)
    from Cons.IH [OF n(1)] obtain before step' after results2 w2 source where "steps = before @ step' # after"
      "e = EMulti (step_name step') source" "step_value mu ctx results2 step' w2 = (Inl source, w')"
      "left1 = map step_taken before @ step_taken step' # after" by blast
    then show ?thesis using n(2) by (metis append_Cons list.map(2))
  qed
qed simp

text \<open>A failed pipeline sends nothing it queued, and leaves its caller's queue as it was.\<close>

lemma buffering_failed:
  assumes "buffering ctx work w = (Inl e, w')"
  shows "\<exists>w1. work (w\<lparr>w_queue := []\<rparr>) = (Inl e, w1) \<and> w' = w1\<lparr>w_queue := w_queue w\<rparr>"
  using assms by (auto simp: buffering_def Let_def split: prod.splits sum.splits)

section \<open>A pipeline in a transaction\<close>

text \<open>
  The documentation says a pipeline's notifications are sent if and only if its transaction
  commits. Run in one already open, it sends them when its own ends, and the outer one may
  still fail: they tell of rows that are gone.
\<close>

definition memory_multi :: "registry \<Rightarrow> memory multi_env" where
  "memory_multi reg = \<lparr>mu_bulk = memory_bulk reg, mu_calls = engine_calls (memory_engine reg) 1,
     mu_transactor = memory_transactor sample_external (\<lambda>m. m), mu_from_fields = (\<lambda>_. Inr)\<rparr>"

definition sample_steps :: "memory multi" where
  "sample_steps = multi_create [] ''post'' sample_openable
     (Inr (changeset_new sample_openable (create_action ''open'') [(''id'', VUuid 5), (''title'', VString ''a'')] [] None))"

definition failing_outer :: "(memory, unit) operation" where
  "failing_outer = context_transaction (memory_transactor sample_external (\<lambda>m. m)) context_new (\<lambda>ctx.
     bindS (execute (memory_multi [sample_openable]) ctx sample_steps) (\<lambda>_. lift_res (Inl EForbidden)))"

lemma nested_multi_sends_early:
  "case failing_outer (world_of empty_memory) of
     (Inl EForbidden, w) \<Rightarrow> map (n_id \<circ> snd) (w_sent w) = [VUuid 5] \<and> mem_store (w_data w) = []
   | _ \<Rightarrow> False"
  by code_simp

lemma lone_multi_sends:
  "case execute (memory_multi [sample_openable]) context_new sample_steps (world_of empty_memory) of
     (Inr results, w) \<Rightarrow> map (n_id \<circ> snd) (w_sent w) = [VUuid 5] \<and> result_len results = 1
   | _ \<Rightarrow> False"
  by code_simp

end
