(* ===== verification/AshMigrate.thy ===== *)
theory AshMigrate
  imports AshResource
begin

text \<open>
  Schema migrations of the SQL data layers: the snapshot of a table
  (\<open>crates/ash-sql/src/snapshot.rs\<close>), the operations that take one snapshot to another
  (\<open>diff.rs\<close>) and the plan of a whole schema, with its renames and its reverse (\<open>plan.rs\<close>).

  A snapshot's \<open>Vec\<close>s are lists. The sets \<open>defer_forward_references\<close> keeps are lists too: the
  code only inserts into them and looks up. A resolver is a closure with a state of its own, so
  it's a function of the state and the question to the answer and the next state.
\<close>

section \<open>Snapshots\<close>

record column_snapshot =
  cln_name :: string
  cln_sql_type :: string
  cln_nullable :: bool
  cln_default :: "string option"
  cln_is_primary_key :: bool

record identity_snapshot =
  ids_name :: string
  ids_columns :: "string list"
  ids_unique :: bool
  ids_predicate :: "string option"
  ids_nils_distinct :: bool

record index_snapshot =
  ixs_name :: string
  ixs_columns :: "string list"
  ixs_predicate :: "string option"
  ixs_method :: "string option"
  ixs_include :: "string list"

record check_snapshot =
  cks_name :: string
  cks_expression :: string

record statement_snapshot =
  sts_name :: string
  sts_up :: string
  sts_down :: string

record reference_snapshot =
  rfs_name :: string
  rfs_column :: string
  rfs_columns :: "string list"
  rfs_target_table :: string
  rfs_target_column :: string
  rfs_target_columns :: "string list"
  rfs_on_delete :: string
  rfs_on_update :: string

record table_snapshot =
  tbs_format_version :: "32 word"
  tbs_table :: string
  tbs_schema :: "string option"
  tbs_columns :: "column_snapshot list"
  tbs_primary_key :: "string list"
  tbs_identities :: "identity_snapshot list"
  tbs_indexes :: "index_snapshot list"
  tbs_checks :: "check_snapshot list"
  tbs_statements :: "statement_snapshot list"
  tbs_references :: "reference_snapshot list"

text \<open>The generated name of an object that starts with its table's, under the table's new name.\<close>

definition rewrite_name :: "string \<Rightarrow> string \<Rightarrow> string \<Rightarrow> string" where
  "rewrite_name old_prefix new_prefix name =
     (if str_starts_with name old_prefix then new_prefix @ drop (length old_prefix) name else name)"

definition object_prefix :: "string \<Rightarrow> string \<Rightarrow> string" where
  "object_prefix kind table = kind @ ''_'' @ table @ ''_''"

definition renamed :: "string \<Rightarrow> table_snapshot \<Rightarrow> table_snapshot" where
  "renamed new_name t =
     (let old_name = tbs_table t;
          rewrite = (\<lambda>kind. rewrite_name (object_prefix kind old_name) (object_prefix kind new_name))
      in t\<lparr>tbs_table := new_name,
           tbs_identities := map (\<lambda>i. i\<lparr>ids_name := rewrite ''idx'' (ids_name i)\<rparr>) (tbs_identities t),
           tbs_indexes := map (\<lambda>i. i\<lparr>ixs_name := rewrite ''idx'' (ixs_name i)\<rparr>) (tbs_indexes t),
           tbs_checks := map (\<lambda>c. c\<lparr>cks_name := rewrite ''ck'' (cks_name c)\<rparr>) (tbs_checks t),
           tbs_references := map (\<lambda>r. r\<lparr>rfs_name := rewrite ''fk'' (rfs_name r)\<rparr>) (tbs_references t)\<rparr>)"

section \<open>Operations\<close>

datatype schema_operation =
    CreateTable table_snapshot
  | DropTable string
  | RenameTable string string
  | RenameIndex string string string
  | RenameConstraint string string string
  | AddColumn string column_snapshot
  | DropColumn string string
  | RenameColumn string string string
  | AlterColumnType string string string string
  | SetNullable string string bool
  | SetDefault string string "string option"
  | CreateIdentity string identity_snapshot
  | DropIdentity string string
  | CreateIndex string index_snapshot
  | DropIndex string string
  | AddCheck string check_snapshot
  | RunStatement string statement_snapshot
  | DropStatement string string string string
  | DropCheck string string
  | AddReference string reference_snapshot
  | DropReference string string

definition drop_statement :: "string \<Rightarrow> statement_snapshot \<Rightarrow> schema_operation" where
  "drop_statement table s = DropStatement table (sts_name s) (sts_up s) (sts_down s)"

section \<open>The difference of two snapshots of a table\<close>

text \<open>A statement of \<open>s\<close>'s name whose \<open>up\<close> is the same: it has run and needn't again.\<close>

definition statement_kept :: "statement_snapshot list \<Rightarrow> statement_snapshot \<Rightarrow> bool" where
  "statement_kept others s \<longleftrightarrow> (\<exists>o' \<in> set others. sts_name o' = sts_name s \<and> sts_up o' = sts_up s)"

definition has_column :: "table_snapshot \<Rightarrow> string \<Rightarrow> bool" where
  "has_column t name \<longleftrightarrow> (\<exists>c \<in> set (tbs_columns t). cln_name c = name)"

definition find_column :: "table_snapshot \<Rightarrow> string \<Rightarrow> column_snapshot option" where
  "find_column t name = List.find (\<lambda>c. cln_name c = name) (tbs_columns t)"

text \<open>The renames whose columns exist, in the order they were given.\<close>

definition applied_renames ::
    "table_snapshot \<Rightarrow> table_snapshot \<Rightarrow> (string \<times> string) list \<Rightarrow> (string \<times> string) list" where
  "applied_renames old new renames =
     filter (\<lambda>(o', n). has_column old o' \<and> has_column new n) renames"

text \<open>The column of the old table an altered column is compared with.\<close>

definition old_match ::
    "table_snapshot \<Rightarrow> (string \<times> string) list \<Rightarrow> column_snapshot \<Rightarrow> column_snapshot option" where
  "old_match old renames c =
     (case List.find (\<lambda>(_, n). n = cln_name c) renames of
        Some (o', _) \<Rightarrow> find_column old o'
      | None \<Rightarrow> find_column old (cln_name c))"

definition alter_column :: "string \<Rightarrow> column_snapshot \<Rightarrow> column_snapshot \<Rightarrow> schema_operation list" where
  "alter_column table o' n =
     (if cln_sql_type o' \<noteq> cln_sql_type n
      then [AlterColumnType table (cln_name n) (cln_sql_type o') (cln_sql_type n)] else []) @
     (if cln_nullable o' \<noteq> cln_nullable n then [SetNullable table (cln_name n) (cln_nullable n)] else []) @
     (if cln_default o' \<noteq> cln_default n then [SetDefault table (cln_name n) (cln_default n)] else [])"

definition diff_columns ::
    "table_snapshot \<Rightarrow> table_snapshot \<Rightarrow> (string \<times> string) list \<Rightarrow> schema_operation list" where
  "diff_columns old new renames =
     (let table = tbs_table new; applied = applied_renames old new renames in
      map (\<lambda>(o', n). RenameColumn table o' n) applied @
      map (\<lambda>c. DropColumn table (cln_name c))
        (filter (\<lambda>c. cln_name c \<notin> set (map fst applied) \<and> \<not> has_column new (cln_name c)) (tbs_columns old)) @
      map (AddColumn table)
        (filter (\<lambda>c. cln_name c \<notin> set (map snd applied) \<and> \<not> has_column old (cln_name c)) (tbs_columns new)) @
      concat (map (\<lambda>c. case old_match old renames c of
                         None \<Rightarrow> []
                       | Some o' \<Rightarrow> alter_column table o' c) (tbs_columns new)))"

text \<open>
  Objects that are dropped and made again when anything of them changes: identities, indexes,
  checks and references.
\<close>

definition diff_objects ::
    "('a \<Rightarrow> schema_operation) \<Rightarrow> ('a \<Rightarrow> schema_operation) \<Rightarrow> 'a list \<Rightarrow> 'a list \<Rightarrow> schema_operation list" where
  "diff_objects drop_op create_op old new =
     map drop_op (filter (\<lambda>x. x \<notin> set new) old) @ map create_op (filter (\<lambda>x. x \<notin> set old) new)"

definition diff_table ::
    "table_snapshot \<Rightarrow> table_snapshot \<Rightarrow> (string \<times> string) list \<Rightarrow> schema_operation list" where
  "diff_table old new renames =
     (let table = tbs_table new in
      map (drop_statement table)
        (filter (\<lambda>s. \<not> statement_kept (tbs_statements new) s) (rev (tbs_statements old))) @
      diff_columns old new renames @
      diff_objects (\<lambda>i. DropIdentity table (ids_name i)) (CreateIdentity table)
        (tbs_identities old) (tbs_identities new) @
      diff_objects (\<lambda>i. DropIndex table (ixs_name i)) (CreateIndex table) (tbs_indexes old) (tbs_indexes new) @
      diff_objects (\<lambda>c. DropCheck table (cks_name c)) (AddCheck table) (tbs_checks old) (tbs_checks new) @
      diff_objects (\<lambda>r. DropReference table (rfs_name r)) (AddReference table)
        (tbs_references old) (tbs_references new) @
      map (RunStatement table)
        (filter (\<lambda>s. \<not> statement_kept (tbs_statements old) s) (tbs_statements new)))"

definition diff_snapshots_with_renames ::
    "table_snapshot option \<Rightarrow> table_snapshot option \<Rightarrow> (string \<times> string) list \<Rightarrow> schema_operation list" where
  "diff_snapshots_with_renames old new renames =
     (case (old, new) of
        (None, None) \<Rightarrow> []
      | (None, Some n) \<Rightarrow> CreateTable n # map (RunStatement (tbs_table n)) (tbs_statements n)
      | (Some o', None) \<Rightarrow>
          map (drop_statement (tbs_table o')) (rev (tbs_statements o')) @ [DropTable (tbs_table o')]
      | (Some o', Some n) \<Rightarrow> diff_table o' n renames)"

definition diff_snapshots :: "table_snapshot option \<Rightarrow> table_snapshot option \<Rightarrow> schema_operation list" where
  "diff_snapshots old new = diff_snapshots_with_renames old new []"

definition find_table :: "table_snapshot list \<Rightarrow> string \<Rightarrow> table_snapshot option" where
  "find_table ts name = List.find (\<lambda>t. tbs_table t = name) ts"

definition diff_tables :: "table_snapshot list \<Rightarrow> table_snapshot list \<Rightarrow> schema_operation list" where
  "diff_tables olds news =
     concat (map (\<lambda>n. diff_snapshots (find_table olds (tbs_table n)) (Some n)) news) @
     concat (map (\<lambda>o'. if \<exists>n \<in> set news. tbs_table n = tbs_table o' then []
                       else diff_snapshots (Some o') None) olds)"

section \<open>Foreign keys to tables made later\<close>

fun created_tables :: "schema_operation list \<Rightarrow> string list" where
  "created_tables [] = []"
| "created_tables (CreateTable t # ops) = tbs_table t # created_tables ops"
| "created_tables (_ # ops) = created_tables ops"

definition refers_later :: "string list \<Rightarrow> string list \<Rightarrow> table_snapshot \<Rightarrow> reference_snapshot \<Rightarrow> bool" where
  "refers_later creating created t r \<longleftrightarrow>
     rfs_target_table r \<noteq> tbs_table t \<and> rfs_target_table r \<in> set creating \<and>
     rfs_target_table r \<notin> set created"

text \<open>The operations in order, and the references put off to the end.\<close>

fun defer_loop ::
    "string list \<Rightarrow> string list \<Rightarrow> schema_operation list \<Rightarrow> schema_operation list \<times> schema_operation list" where
  "defer_loop creating created [] = ([], [])"
| "defer_loop creating created (CreateTable t # ops) =
     (let later = filter (refers_later creating created t) (tbs_references t);
          now = filter (\<lambda>r. \<not> refers_later creating created t r) (tbs_references t);
          (ordered, deferred) = defer_loop creating (tbs_table t # created) ops
      in (CreateTable (t\<lparr>tbs_references := now\<rparr>) # ordered, map (AddReference (tbs_table t)) later @ deferred))"
| "defer_loop creating created (op # ops) =
     (let (ordered, deferred) = defer_loop creating created ops in (op # ordered, deferred))"

definition defer_forward_references :: "schema_operation list \<Rightarrow> schema_operation list" where
  "defer_forward_references ops =
     (let (ordered, deferred) = defer_loop (created_tables ops) [] ops in ordered @ deferred)"

section \<open>Plans\<close>

record rename_question =
  rq_table :: string
  rq_added :: string
  rq_candidates :: "string list"
  rq_table_rename :: bool

datatype resolution = RenamedFrom string | NotRenamed | Unresolved

type_synonym 's resolver = "'s \<Rightarrow> rename_question \<Rightarrow> resolution \<times> 's"

definition non_interactive :: "'s resolver" where
  "non_interactive s q = (Unresolved, s)"

record schema_plan =
  sp_operations :: "schema_operation list"
  sp_targets :: "table_snapshot list"
  sp_unresolved :: "rename_question list"
  sp_deferred_drops :: "(string \<times> string) list"
  sp_renames :: "(string \<times> string \<times> string) list"
  sp_table_renames :: "(string \<times> string) list"

text \<open>What an answer to a question adds to the renames and to the questions left open.\<close>

definition settle_question ::
    "rename_question \<Rightarrow> resolution \<Rightarrow> (string \<times> string) list \<times> rename_question list" where
  "settle_question q r =
     (case r of
        RenamedFrom o' \<Rightarrow> if o' \<in> set (rq_candidates q) then ([(o', rq_added q)], []) else ([], [q])
      | NotRenamed \<Rightarrow> ([], [])
      | Unresolved \<Rightarrow> ([], [q]))"

text \<open>
  The loop over the tables, or the columns, that are new: each is asked about while there's a
  candidate no earlier answer claimed.
\<close>

fun ask_renames ::
    "'s resolver \<Rightarrow> (string \<Rightarrow> string list \<Rightarrow> rename_question) \<Rightarrow> string list \<Rightarrow> string list \<Rightarrow>
     (string \<times> string) list \<Rightarrow> rename_question list \<Rightarrow> 's \<Rightarrow>
     (string \<times> string) list \<times> rename_question list \<times> 's" where
  "ask_renames resolve mk removed [] renames unresolved s = (renames, unresolved, s)"
| "ask_renames resolve mk removed (added # rest) renames unresolved s =
     (let candidates = filter (\<lambda>c. c \<notin> set (map fst renames)) removed in
      if candidates = [] then ask_renames resolve mk removed rest renames unresolved s
      else let q = mk added candidates;
               (r, s') = resolve s q;
               (answered, asked) = settle_question q r
           in ask_renames resolve mk removed rest (renames @ answered) (unresolved @ asked) s')"

definition table_question :: "string \<Rightarrow> string list \<Rightarrow> rename_question" where
  "table_question added candidates =
     \<lparr>rq_table = added, rq_added = added, rq_candidates = candidates, rq_table_rename = True\<rparr>"

definition column_question :: "string \<Rightarrow> string \<Rightarrow> string list \<Rightarrow> rename_question" where
  "column_question table added candidates =
     \<lparr>rq_table = table, rq_added = added, rq_candidates = candidates, rq_table_rename = False\<rparr>"

definition has_table :: "table_snapshot list \<Rightarrow> string \<Rightarrow> bool" where
  "has_table ts name \<longleftrightarrow> (\<exists>t \<in> set ts. tbs_table t = name)"

definition renamed_from ::
    "table_snapshot list \<Rightarrow> (string \<times> string) list \<Rightarrow> string \<Rightarrow> table_snapshot option" where
  "renamed_from olds table_renames table =
     (case List.find (\<lambda>(_, n). n = table) table_renames of
        None \<Rightarrow> None
      | Some (o', _) \<Rightarrow> find_table olds o')"

text \<open>The old snapshot a table is compared with, under the name it has now.\<close>

definition previous_of ::
    "table_snapshot list \<Rightarrow> (string \<times> string) list \<Rightarrow> string \<Rightarrow> table_snapshot option" where
  "previous_of olds table_renames table =
     (case find_table olds table of
        Some t \<Rightarrow> Some t
      | None \<Rightarrow> map_option (renamed table) (renamed_from olds table_renames table))"

text \<open>
  One table: its column renames, the questions left open, the target, which keeps a removed
  column unless columns are to be dropped, and the drops put off.
\<close>

definition plan_table ::
    "'s resolver \<Rightarrow> bool \<Rightarrow> table_snapshot \<Rightarrow> table_snapshot \<Rightarrow> 's \<Rightarrow>
     (string \<times> string) list \<times> rename_question list \<times> column_snapshot list \<times> 's" where
  "plan_table resolve drop_columns incoming previous s =
     (let added = filter (\<lambda>c. \<not> has_column previous (cln_name c)) (tbs_columns incoming);
          removed = filter (\<lambda>c. \<not> has_column incoming (cln_name c)) (tbs_columns previous);
          (renames, unresolved, s') =
            ask_renames resolve (column_question (tbs_table incoming)) (map cln_name removed)
              (map cln_name added) [] [] s;
          kept = (if drop_columns then []
                  else filter (\<lambda>c. cln_name c \<notin> set (map fst renames)) removed)
      in (renames, unresolved, kept, s'))"

fun plan_targets ::
    "'s resolver \<Rightarrow> bool \<Rightarrow> table_snapshot list \<Rightarrow> (string \<times> string) list \<Rightarrow> table_snapshot list \<Rightarrow> 's \<Rightarrow>
     table_snapshot list \<times> (string \<times> (string \<times> string) list) list \<times> rename_question list \<times>
       (string \<times> string) list \<times> 's" where
  "plan_targets resolve drop_columns olds table_renames [] s = ([], [], [], [], s)"
| "plan_targets resolve drop_columns olds table_renames (incoming # rest) s =
     (let table = tbs_table incoming in
      case previous_of olds table_renames table of
        None \<Rightarrow>
          (let (targets, by_table, unresolved, drops, s') =
             plan_targets resolve drop_columns olds table_renames rest s
           in (incoming # targets, by_table, unresolved, drops, s'))
      | Some previous \<Rightarrow>
          (let (renames, asked, kept, s1) = plan_table resolve drop_columns incoming previous s;
               (targets, by_table, unresolved, drops, s2) =
                 plan_targets resolve drop_columns olds table_renames rest s1
           in (incoming\<lparr>tbs_columns := tbs_columns incoming @ kept\<rparr> # targets,
               (if renames = [] then by_table else (table, renames) # by_table),
               asked @ unresolved,
               map (\<lambda>c. (table, cln_name c)) kept @ drops, s2)))"

text \<open>The indexes and constraints whose names follow a renamed table's.\<close>

definition renamed_pairs :: "('a \<Rightarrow> string) \<Rightarrow> 'a list \<Rightarrow> 'a list \<Rightarrow> (string \<times> string) list" where
  "renamed_pairs name old new = filter (\<lambda>(o', n). o' \<noteq> n) (zip (map name old) (map name new))"

definition rename_objects :: "table_snapshot \<Rightarrow> string \<Rightarrow> schema_operation list" where
  "rename_objects previous new_name =
     (let r = renamed new_name previous in
      map (\<lambda>(o', n). RenameIndex new_name o' n)
        (renamed_pairs ids_name (tbs_identities previous) (tbs_identities r) @
         renamed_pairs ixs_name (tbs_indexes previous) (tbs_indexes r)) @
      map (\<lambda>(o', n). RenameConstraint new_name o' n)
        (renamed_pairs cks_name (tbs_checks previous) (tbs_checks r) @
         renamed_pairs rfs_name (tbs_references previous) (tbs_references r)))"

fun invert_rename :: "schema_operation \<Rightarrow> schema_operation" where
  "invert_rename (RenameIndex table o' n) = RenameIndex table n o'"
| "invert_rename (RenameConstraint table o' n) = RenameConstraint table n o'"
| "invert_rename op = op"

definition unrename_objects :: "table_snapshot \<Rightarrow> string \<Rightarrow> schema_operation list" where
  "unrename_objects previous new_name = map invert_rename (rev (rename_objects previous new_name))"

definition renames_for :: "(string \<times> (string \<times> string) list) list \<Rightarrow> string \<Rightarrow> (string \<times> string) list" where
  "renames_for by_table table =
     (case List.find (\<lambda>(t, _). t = table) by_table of None \<Rightarrow> [] | Some (_, pairs) \<Rightarrow> pairs)"

definition plan_operations ::
    "table_snapshot list \<Rightarrow> (string \<times> string) list \<Rightarrow> (string \<times> (string \<times> string) list) list \<Rightarrow>
     table_snapshot \<Rightarrow> schema_operation list" where
  "plan_operations olds table_renames by_table target =
     (let table = tbs_table target; column_renames = renames_for by_table table in
      case renamed_from olds table_renames table of
        Some previous \<Rightarrow>
          RenameTable (tbs_table previous) table # rename_objects previous table @
          diff_snapshots_with_renames (Some (renamed table previous)) (Some target) column_renames
      | None \<Rightarrow> diff_snapshots_with_renames (find_table olds table) (Some target) column_renames)"

definition plan_drops ::
    "table_snapshot list \<Rightarrow> table_snapshot list \<Rightarrow> (string \<times> string) list \<Rightarrow> schema_operation list" where
  "plan_drops olds targets table_renames =
     concat (map (\<lambda>previous.
       if tbs_table previous \<in> set (map fst table_renames) \<or> has_table targets (tbs_table previous) then []
       else diff_snapshots (Some previous) None) olds)"

definition plan_schema ::
    "'s resolver \<Rightarrow> bool \<Rightarrow> table_snapshot list \<Rightarrow> table_snapshot list \<Rightarrow> 's \<Rightarrow> schema_plan \<times> 's" where
  "plan_schema resolve drop_columns olds news s =
     (let removed = filter (\<lambda>t. \<not> has_table news (tbs_table t)) olds;
          added = filter (\<lambda>t. \<not> has_table olds (tbs_table t)) news;
          (table_renames, asked, s1) =
            ask_renames resolve table_question (map tbs_table removed) (map tbs_table added) [] [] s;
          (targets, by_table, column_asked, drops, s2) =
            plan_targets resolve drop_columns olds table_renames news s1;
          renames = concat (map (\<lambda>(t, pairs). map (\<lambda>(o', n). (t, o', n)) pairs) by_table);
          unresolved = asked @ column_asked;
          operations =
            (if unresolved \<noteq> [] then []
             else concat (map (plan_operations olds table_renames by_table) targets) @
                  plan_drops olds targets table_renames)
      in (\<lparr>sp_operations = operations, sp_targets = targets, sp_unresolved = unresolved,
           sp_deferred_drops = drops, sp_renames = renames, sp_table_renames = table_renames\<rparr>, s2))"

definition inverted_for :: "(string \<times> string \<times> string) list \<Rightarrow> string \<Rightarrow> (string \<times> string) list" where
  "inverted_for renames table = map (\<lambda>(_, o', n). (n, o')) (filter (\<lambda>(t, _). t = table) renames)"

definition reverse_renamed ::
    "table_snapshot list \<Rightarrow> table_snapshot list \<Rightarrow> (string \<times> string \<times> string) list \<Rightarrow> string \<times> string \<Rightarrow>
     schema_operation list" where
  "reverse_renamed olds news renames = (\<lambda>(old_name, new_name).
     (case (find_table olds old_name, find_table news new_name) of
        (Some previous, Some nxt) \<Rightarrow>
          diff_snapshots_with_renames (Some nxt) (Some (renamed new_name previous))
            (inverted_for renames new_name) @
          unrename_objects previous new_name @ [RenameTable new_name old_name]
      | _ \<Rightarrow> []))"

definition reverse_plan ::
    "table_snapshot list \<Rightarrow> table_snapshot list \<Rightarrow> (string \<times> string \<times> string) list \<Rightarrow> (string \<times> string) list \<Rightarrow>
     schema_operation list" where
  "reverse_plan olds news renames table_renames =
     concat (map (reverse_renamed olds news renames) table_renames) @
     concat (map (\<lambda>previous.
       if tbs_table previous \<in> set (map fst table_renames) then []
       else diff_snapshots_with_renames (find_table news (tbs_table previous)) (Some previous)
              (inverted_for renames (tbs_table previous))) olds) @
     concat (map (\<lambda>nxt.
       if tbs_table nxt \<in> set (map snd table_renames) then []
       else if has_table olds (tbs_table nxt) then []
       else diff_snapshots (Some nxt) None) (rev news))"

end
