(* ===== verification/AshMigrateFacts.thy ===== *)
theory AshMigrateFacts
  imports AshMigrate
begin

text \<open>
  What a migration does to a database, and that the operations planned from two sets of
  snapshots take a database of the one to a database of the other and back.

  The database is the specification: the objects of each table by name. An operation fails when
  the object it makes or renames to exists, or the one it drops, alters or renames doesn't; so
  that a plan runs says it never names an object wrongly. The SQL an operation is written as,
  and the rows of the tables, are left out.
\<close>

section \<open>Runs of operations that may fail\<close>

primrec run_all :: "('x \<Rightarrow> 's \<Rightarrow> 's option) \<Rightarrow> 'x list \<Rightarrow> 's \<Rightarrow> 's option" where
  "run_all f [] s = Some s"
| "run_all f (x # xs) s = Option.bind (f x s) (run_all f xs)"

lemma run_all_append [simp]:
  "run_all f (xs @ ys) s = Option.bind (run_all f xs s) (run_all f ys)"
  by (induction xs arbitrary: s) (auto simp: bind_assoc split: bind_splits)

lemma run_all_map: "run_all f (map g xs) s = run_all (\<lambda>x. f (g x)) xs s"
  by (induction xs arbitrary: s) (auto split: bind_splits)

section \<open>Objects by name\<close>

definition make_key :: "string \<Rightarrow> 'v \<Rightarrow> (string \<rightharpoonup> 'v) \<Rightarrow> (string \<rightharpoonup> 'v) option" where
  "make_key k v m = (if m k = None then Some (m(k \<mapsto> v)) else None)"

definition drop_key :: "string \<Rightarrow> (string \<rightharpoonup> 'v) \<Rightarrow> (string \<rightharpoonup> 'v) option" where
  "drop_key k m = (if m k = None then None else Some (m(k := None)))"

definition alter_key :: "string \<Rightarrow> ('v \<Rightarrow> 'v) \<Rightarrow> (string \<rightharpoonup> 'v) \<Rightarrow> (string \<rightharpoonup> 'v) option" where
  "alter_key k f m = map_option (\<lambda>v. m(k \<mapsto> f v)) (m k)"

definition rename_key ::
    "(string \<Rightarrow> 'v \<Rightarrow> 'v) \<Rightarrow> string \<Rightarrow> string \<Rightarrow> (string \<rightharpoonup> 'v) \<Rightarrow> (string \<rightharpoonup> 'v) option" where
  "rename_key put_name k k' m =
     (case m k of
        None \<Rightarrow> None
      | Some v \<Rightarrow> if m k' = None then Some (m(k := None, k' \<mapsto> put_name k' v)) else None)"

definition keyed :: "('x \<Rightarrow> string) \<Rightarrow> ('x \<Rightarrow> 'v) \<Rightarrow> 'x list \<Rightarrow> (string \<rightharpoonup> 'v)" where
  "keyed name val xs = map_of (map (\<lambda>x. (name x, val x)) xs)"

lemma keyed_None_iff: "keyed name val xs k = None \<longleftrightarrow> k \<notin> name ` set xs"
  by (auto simp: keyed_def map_of_eq_None_iff image_image)

lemma keyed_in: "distinct (map name xs) \<Longrightarrow> x \<in> set xs \<Longrightarrow> keyed name val xs (name x) = Some (val x)"
  by (simp add: keyed_def comp_def)

lemma keyed_SomeD: "keyed name val xs k = Some v \<Longrightarrow> \<exists>x \<in> set xs. name x = k \<and> val x = v"
  by (auto simp: keyed_def dest!: map_of_SomeD)

lemma keyed_Nil [simp]: "keyed name val [] = Map.empty"
  by (simp add: keyed_def)

lemma keyed_Cons [simp]: "keyed name val (x # xs) = (keyed name val xs)(name x \<mapsto> val x)"
  by (simp add: keyed_def)

lemma keyed_map: "keyed name val (map f xs) = keyed (\<lambda>x. name (f x)) (\<lambda>x. val (f x)) xs"
  by (simp add: keyed_def comp_def)

lemma keyed_eqI:
  assumes "distinct (map name xs)"
    and "\<And>x. x \<in> set xs \<Longrightarrow> m (name x) = Some (val x)"
    and "\<And>k. k \<notin> name ` set xs \<Longrightarrow> m k = None"
  shows "m = keyed name val xs"
proof
  fix k
  show "m k = keyed name val xs k"
  proof (cases "k \<in> name ` set xs")
    case True
    then show ?thesis using assms(2) keyed_in [OF assms(1), where val = val] by auto
  next
    case False
    then show ?thesis using assms(3) keyed_None_iff [of name val xs k] by simp
  qed
qed

lemma map_add_covered:
  assumes "\<And>k. m' k = None \<Longrightarrow> m k = None"
  shows "m ++ m' = m'"
proof
  fix k show "(m ++ m') k = m' k"
    using assms [of k] by (cases "m' k") (simp_all add: map_add_def)
qed

lemma run_drop_keys:
  "distinct (map name xs) \<Longrightarrow> \<forall>x \<in> set xs. m (name x) \<noteq> None \<Longrightarrow>
   run_all (\<lambda>x. drop_key (name x)) xs m = Some (\<lambda>k. if k \<in> name ` set xs then None else m k)"
proof (induction xs arbitrary: m)
  case (Cons x xs)
  have out: "\<forall>y \<in> set xs. name y \<noteq> name x" using Cons.prems(1) by (auto simp: image_iff)
  have "run_all (\<lambda>x. drop_key (name x)) xs (m(name x := None)) =
      Some (\<lambda>k. if k \<in> name ` set xs then None else (m(name x := None)) k)"
    by (rule Cons.IH) (use Cons.prems out in auto)
  moreover have "drop_key (name x) m = Some (m(name x := None))"
    using Cons.prems(2) by (simp add: drop_key_def)
  ultimately show ?case by (auto simp: fun_eq_iff)
qed simp

lemma run_make_keys:
  "distinct (map name xs) \<Longrightarrow> \<forall>x \<in> set xs. m (name x) = None \<Longrightarrow>
   run_all (\<lambda>x. make_key (name x) (val x)) xs m = Some (m ++ keyed name val xs)"
proof (induction xs arbitrary: m)
  case (Cons x xs)
  have out: "\<forall>y \<in> set xs. name y \<noteq> name x" using Cons.prems(1) by (auto simp: image_iff)
  have "run_all (\<lambda>x. make_key (name x) (val x)) xs (m(name x \<mapsto> val x)) =
      Some (m(name x \<mapsto> val x) ++ keyed name val xs)"
    by (rule Cons.IH) (use Cons.prems out in auto)
  moreover have "m(name x \<mapsto> val x) ++ keyed name val xs = m ++ keyed name val (x # xs)"
    using keyed_None_iff [of name val xs "name x"] Cons.prems(1)
    by (auto simp: fun_eq_iff map_add_def split: option.splits)
  moreover have "make_key (name x) (val x) m = Some (m(name x \<mapsto> val x))"
    using Cons.prems(2) by (simp add: make_key_def)
  ultimately show ?case by (simp del: keyed_Cons)
qed simp

text \<open>The pairs of a rename, and where an object of the new name came from.\<close>

definition renames_apply :: "(string \<times> string) list \<Rightarrow> (string \<rightharpoonup> 'v) \<Rightarrow> bool" where
  "renames_apply pairs m \<longleftrightarrow>
     distinct (map fst pairs) \<and> distinct (map snd pairs) \<and>
     (\<forall>(k, k') \<in> set pairs. m k \<noteq> None \<and> m k' = None)"

definition renamed_map ::
    "(string \<Rightarrow> 'v \<Rightarrow> 'v) \<Rightarrow> (string \<times> string) list \<Rightarrow> (string \<rightharpoonup> 'v) \<Rightarrow> (string \<rightharpoonup> 'v)" where
  "renamed_map put_name pairs m = (\<lambda>k.
     case List.find (\<lambda>(_, n). n = k) pairs of
       Some (o', _) \<Rightarrow> map_option (put_name k) (m o')
     | None \<Rightarrow> if k \<in> fst ` set pairs then None else m k)"

lemma renames_apply_Cons:
  assumes "renames_apply ((k, k') # pairs) m"
  shows "renames_apply pairs (m(k := None, k' \<mapsto> v))"
  using assms by (force simp: renames_apply_def)

lemma find_rename_None: "List.find (\<lambda>(_, n). n = k) pairs = None \<longleftrightarrow> k \<notin> snd ` set pairs"
  by (induction pairs) (auto split: if_splits)

lemma find_rename_Some:
  "distinct (map snd pairs) \<Longrightarrow> (o', k) \<in> set pairs \<Longrightarrow>
   List.find (\<lambda>(_, n). n = k) pairs = Some (o', k)"
  by (induction pairs) force+

lemma find_rename_SomeD:
  "List.find (\<lambda>(_, n). n = k) pairs = Some (o', k') \<Longrightarrow> k' = k \<and> (o', k) \<in> set pairs"
  by (induction pairs) (auto split: if_splits)

lemma run_rename_keys:
  "renames_apply pairs m \<Longrightarrow>
   run_all (\<lambda>(k, k'). rename_key put_name k k') pairs m = Some (renamed_map put_name pairs m)"
proof (induction pairs arbitrary: m)
  case Nil
  then show ?case by (simp add: renamed_map_def)
next
  case (Cons p pairs)
  obtain k k' where p: "p = (k, k')" by (cases p)
  obtain v where v: "m k = Some v" and free: "m k' = None"
    using Cons.prems by (auto simp: renames_apply_def p)
  let ?m = "m(k := None, k' \<mapsto> put_name k' v)"
  have rest: "run_all (\<lambda>(k, k'). rename_key put_name k k') pairs ?m = Some (renamed_map put_name pairs ?m)"
    using Cons.IH [OF renames_apply_Cons [OF Cons.prems [unfolded p]]] .
  have "renamed_map put_name pairs ?m j = renamed_map put_name (p # pairs) m j" for j
  proof (cases "List.find (\<lambda>(_, n). n = j) pairs")
    case None
    then show ?thesis
      using Cons.prems v free None None [unfolded find_rename_None]
      by (auto simp del: find_None_iff simp: renamed_map_def p renames_apply_def)
  next
    case (Some q)
    obtain o' n where q: "q = (o', n)" by (cases q)
    have mem: "(o', j) \<in> set pairs" using find_rename_SomeD [OF Some [unfolded q]] by simp
    then have "o' \<noteq> k" "o' \<noteq> k'" "j \<noteq> k'"
      using Cons.prems free by (force simp: renames_apply_def p)+
    then show ?thesis using Some by (simp add: renamed_map_def p q)
  qed
  then have "renamed_map put_name pairs ?m = renamed_map put_name (p # pairs) m" ..
  moreover have "rename_key put_name k k' m = Some ?m" by (simp add: rename_key_def v free)
  ultimately show ?case using rest by (simp add: p)
qed

text \<open>Objects that are dropped where they changed and made again are the new ones.\<close>

definition changed_objects :: "('x \<Rightarrow> string) \<Rightarrow> ('x \<Rightarrow> 'v) \<Rightarrow> 'x list \<Rightarrow> 'x list \<Rightarrow> 'x list" where
  "changed_objects name val others xs =
     filter (\<lambda>x. \<not> (\<exists>y \<in> set others. name y = name x \<and> val y = val x)) xs"

definition kept_map :: "('x \<Rightarrow> string) \<Rightarrow> ('x \<Rightarrow> 'v) \<Rightarrow> 'x list \<Rightarrow> 'x list \<Rightarrow> (string \<rightharpoonup> 'v)" where
  "kept_map name val old new =
     (\<lambda>k. if k \<in> name ` set (changed_objects name val new old) then None else keyed name val old k)"

lemma distinct_changed: "distinct (map name xs) \<Longrightarrow> distinct (map name (changed_objects name val others xs))"
  by (simp add: changed_objects_def distinct_map_filter)

lemma run_drop_changed:
  assumes "distinct (map name old)" and "set xs = set (changed_objects name val new old)"
    and "distinct (map name xs)"
  shows "run_all (\<lambda>x. drop_key (name x)) xs (keyed name val old) = Some (kept_map name val old new)"
proof -
  have "\<forall>x \<in> set xs. keyed name val old (name x) \<noteq> None"
    using assms(2) by (auto simp: keyed_None_iff changed_objects_def)
  then show ?thesis using run_drop_keys [OF assms(3)] assms(2) by (simp add: kept_map_def)
qed

lemma kept_map_None:
  assumes "distinct (map name new)" and "x \<in> set (changed_objects name val old new)"
  shows "kept_map name val old new (name x) = None"
proof (rule ccontr)
  assume "kept_map name val old new (name x) \<noteq> None"
  then obtain y where y: "y \<in> set old" "name y = name x"
      and kept: "y \<notin> set (changed_objects name val new old)"
    unfolding kept_map_def by (metis (no_types, lifting) image_iff keyed_None_iff)
  then obtain z where z: "z \<in> set new" "name z = name y" "val z = val y"
    by (auto simp: changed_objects_def)
  have "z = x" using assms y z by (auto simp: changed_objects_def distinct_map inj_on_def)
  then show False using assms(2) y z by (auto simp: changed_objects_def)
qed

lemma run_make_changed:
  assumes old: "distinct (map name old)" and new: "distinct (map name new)"
  shows "run_all (\<lambda>x. make_key (name x) (val x)) (changed_objects name val old new)
           (kept_map name val old new) = Some (keyed name val new)"
proof -
  let ?made = "changed_objects name val old new"
  have "run_all (\<lambda>x. make_key (name x) (val x)) ?made (kept_map name val old new) =
      Some (kept_map name val old new ++ keyed name val ?made)"
    by (rule run_make_keys) (use kept_map_None [OF new] distinct_changed [OF new] in auto)
  moreover have "kept_map name val old new ++ keyed name val ?made = keyed name val new"
  proof (rule keyed_eqI [OF new])
    fix x assume x: "x \<in> set new"
    show "(kept_map name val old new ++ keyed name val ?made) (name x) = Some (val x)"
    proof (cases "x \<in> set ?made")
      case True
      then show ?thesis
        using keyed_in [OF distinct_changed [OF new] True, where val = val] by (simp add: map_add_def)
    next
      case False
      then obtain y where y: "y \<in> set old" "name y = name x" "val y = val x"
        using x by (auto simp: changed_objects_def)
      have none: "keyed name val ?made (name x) = None"
        using False x new by (auto simp: keyed_None_iff changed_objects_def distinct_map inj_on_def)
      have "name x \<notin> name ` set (changed_objects name val new old)"
      proof
        assume "name x \<in> name ` set (changed_objects name val new old)"
        then obtain z where z: "z \<in> set (changed_objects name val new old)" "name z = name x" by auto
        then have "z = y" using old y by (auto simp: changed_objects_def distinct_map inj_on_def)
        then show False using z x y by (auto simp: changed_objects_def)
      qed
      then show ?thesis
        using none keyed_in [OF old y(1), of val] y by (simp add: map_add_def kept_map_def)
    qed
  next
    fix k assume k: "k \<notin> name ` set new"
    then have "keyed name val ?made k = None" by (auto simp: keyed_None_iff changed_objects_def)
    moreover have "kept_map name val old new k = None"
    proof (cases "k \<in> name ` set old")
      case True
      have "\<forall>y \<in> set new. name y \<noteq> k" using k by (auto simp: image_iff)
      then have "k \<in> name ` set (changed_objects name val new old)"
        using True by (auto simp: changed_objects_def)
      then show ?thesis by (simp add: kept_map_def)
    next
      case False
      then show ?thesis using keyed_None_iff [of name val old k] by (simp add: kept_map_def)
    qed
    ultimately show "(kept_map name val old new ++ keyed name val ?made) k = None"
      by (simp add: map_add_def)
  qed
  ultimately show ?thesis by simp
qed

section \<open>Databases\<close>

record live_table =
  lt_columns :: "string \<rightharpoonup> column_snapshot"
  lt_identities :: "string \<rightharpoonup> identity_snapshot"
  lt_indexes :: "string \<rightharpoonup> index_snapshot"
  lt_checks :: "string \<rightharpoonup> check_snapshot"
  lt_references :: "string \<rightharpoonup> reference_snapshot"
  lt_statements :: "string \<rightharpoonup> string"

type_synonym database = "string \<rightharpoonup> live_table"

definition live_of :: "table_snapshot \<Rightarrow> live_table" where
  "live_of t =
     \<lparr>lt_columns = keyed cln_name id (tbs_columns t),
      lt_identities = keyed ids_name id (tbs_identities t),
      lt_indexes = keyed ixs_name id (tbs_indexes t),
      lt_checks = keyed cks_name id (tbs_checks t),
      lt_references = keyed rfs_name id (tbs_references t),
      lt_statements = keyed sts_name sts_up (tbs_statements t)\<rparr>"

definition database_of :: "table_snapshot list \<Rightarrow> database" where
  "database_of ts = keyed tbs_table live_of ts"

text \<open>
  What an operation does to its table. Indexes and identities share their names, as checks and
  foreign keys do.
\<close>

fun alter_table :: "schema_operation \<Rightarrow> live_table \<Rightarrow> live_table option" where
  "alter_table (AddColumn _ c) t =
     map_option (\<lambda>m. t\<lparr>lt_columns := m\<rparr>) (make_key (cln_name c) c (lt_columns t))"
| "alter_table (DropColumn _ n) t = map_option (\<lambda>m. t\<lparr>lt_columns := m\<rparr>) (drop_key n (lt_columns t))"
| "alter_table (RenameColumn _ o' n) t =
     map_option (\<lambda>m. t\<lparr>lt_columns := m\<rparr>) (rename_key (\<lambda>k. cln_name_update (\<lambda>_. k)) o' n (lt_columns t))"
| "alter_table (AlterColumnType _ c _ ty) t =
     map_option (\<lambda>m. t\<lparr>lt_columns := m\<rparr>) (alter_key c (cln_sql_type_update (\<lambda>_. ty)) (lt_columns t))"
| "alter_table (SetNullable _ c b) t =
     map_option (\<lambda>m. t\<lparr>lt_columns := m\<rparr>) (alter_key c (cln_nullable_update (\<lambda>_. b)) (lt_columns t))"
| "alter_table (SetDefault _ c d) t =
     map_option (\<lambda>m. t\<lparr>lt_columns := m\<rparr>) (alter_key c (cln_default_update (\<lambda>_. d)) (lt_columns t))"
| "alter_table (CreateIdentity _ i) t =
     map_option (\<lambda>m. t\<lparr>lt_identities := m\<rparr>) (make_key (ids_name i) i (lt_identities t))"
| "alter_table (DropIdentity _ n) t =
     map_option (\<lambda>m. t\<lparr>lt_identities := m\<rparr>) (drop_key n (lt_identities t))"
| "alter_table (CreateIndex _ i) t =
     map_option (\<lambda>m. t\<lparr>lt_indexes := m\<rparr>) (make_key (ixs_name i) i (lt_indexes t))"
| "alter_table (DropIndex _ n) t = map_option (\<lambda>m. t\<lparr>lt_indexes := m\<rparr>) (drop_key n (lt_indexes t))"
| "alter_table (AddCheck _ c) t =
     map_option (\<lambda>m. t\<lparr>lt_checks := m\<rparr>) (make_key (cks_name c) c (lt_checks t))"
| "alter_table (DropCheck _ n) t = map_option (\<lambda>m. t\<lparr>lt_checks := m\<rparr>) (drop_key n (lt_checks t))"
| "alter_table (AddReference _ r) t =
     map_option (\<lambda>m. t\<lparr>lt_references := m\<rparr>) (make_key (rfs_name r) r (lt_references t))"
| "alter_table (DropReference _ n) t =
     map_option (\<lambda>m. t\<lparr>lt_references := m\<rparr>) (drop_key n (lt_references t))"
| "alter_table (RunStatement _ s) t =
     map_option (\<lambda>m. t\<lparr>lt_statements := m\<rparr>) (make_key (sts_name s) (sts_up s) (lt_statements t))"
| "alter_table (DropStatement _ n _ _) t =
     map_option (\<lambda>m. t\<lparr>lt_statements := m\<rparr>) (drop_key n (lt_statements t))"
| "alter_table (RenameIndex _ o' n) t =
     (if lt_identities t n \<noteq> None \<or> lt_indexes t n \<noteq> None then None
      else if lt_identities t o' \<noteq> None
      then map_option (\<lambda>m. t\<lparr>lt_identities := m\<rparr>)
             (rename_key (\<lambda>k. ids_name_update (\<lambda>_. k)) o' n (lt_identities t))
      else map_option (\<lambda>m. t\<lparr>lt_indexes := m\<rparr>)
             (rename_key (\<lambda>k. ixs_name_update (\<lambda>_. k)) o' n (lt_indexes t)))"
| "alter_table (RenameConstraint _ o' n) t =
     (if lt_checks t n \<noteq> None \<or> lt_references t n \<noteq> None then None
      else if lt_checks t o' \<noteq> None
      then map_option (\<lambda>m. t\<lparr>lt_checks := m\<rparr>)
             (rename_key (\<lambda>k. cks_name_update (\<lambda>_. k)) o' n (lt_checks t))
      else map_option (\<lambda>m. t\<lparr>lt_references := m\<rparr>)
             (rename_key (\<lambda>k. rfs_name_update (\<lambda>_. k)) o' n (lt_references t)))"
| "alter_table _ t = None"

fun altered_table :: "schema_operation \<Rightarrow> string option" where
  "altered_table (CreateTable _) = None"
| "altered_table (DropTable _) = None"
| "altered_table (RenameTable _ _) = None"
| "altered_table (RenameIndex t _ _) = Some t"
| "altered_table (RenameConstraint t _ _) = Some t"
| "altered_table (AddColumn t _) = Some t"
| "altered_table (DropColumn t _) = Some t"
| "altered_table (RenameColumn t _ _) = Some t"
| "altered_table (AlterColumnType t _ _ _) = Some t"
| "altered_table (SetNullable t _ _) = Some t"
| "altered_table (SetDefault t _ _) = Some t"
| "altered_table (CreateIdentity t _) = Some t"
| "altered_table (DropIdentity t _) = Some t"
| "altered_table (CreateIndex t _) = Some t"
| "altered_table (DropIndex t _) = Some t"
| "altered_table (AddCheck t _) = Some t"
| "altered_table (RunStatement t _) = Some t"
| "altered_table (DropStatement t _ _ _) = Some t"
| "altered_table (DropCheck t _) = Some t"
| "altered_table (AddReference t _) = Some t"
| "altered_table (DropReference t _) = Some t"

definition alter_database :: "schema_operation \<Rightarrow> database \<Rightarrow> database option" where
  "alter_database op db =
     (case op of
        CreateTable s \<Rightarrow> make_key (tbs_table s) (live_of (s\<lparr>tbs_statements := []\<rparr>)) db
      | DropTable n \<Rightarrow> drop_key n db
      | RenameTable o' n \<Rightarrow> rename_key (\<lambda>_ t. t) o' n db
      | _ \<Rightarrow>
          (case altered_table op of
             None \<Rightarrow> None
           | Some table \<Rightarrow>
               (case db table of
                  None \<Rightarrow> None
                | Some t \<Rightarrow> map_option (\<lambda>t'. db(table \<mapsto> t')) (alter_table op t))))"

lemma alter_database_table:
  "altered_table op = Some table \<Longrightarrow> db table = Some t \<Longrightarrow>
   alter_database op db = map_option (\<lambda>t'. db(table \<mapsto> t')) (alter_table op t)"
  by (cases op) (auto simp: alter_database_def)

lemma run_on_table:
  "\<forall>op \<in> set ops. altered_table op = Some table \<Longrightarrow> db table = Some t \<Longrightarrow>
   run_all alter_database ops db = map_option (\<lambda>t'. db(table \<mapsto> t')) (run_all alter_table ops t)"
proof (induction ops arbitrary: db t)
  case Nil
  then show ?case by (auto simp: fun_eq_iff)
next
  case (Cons op ops)
  then show ?case
  proof (cases "alter_table op t")
    case None
    then show ?thesis using Cons.prems alter_database_table [of op table db t] by simp
  next
    case (Some t')
    have "run_all alter_database ops (db(table \<mapsto> t')) =
        map_option (\<lambda>t''. (db(table \<mapsto> t'))(table \<mapsto> t'')) (run_all alter_table ops t')"
      by (rule Cons.IH) (use Cons.prems in auto)
    moreover have "alter_database op db = Some (db(table \<mapsto> t'))"
      using Cons.prems Some alter_database_table [of op table db t] by simp
    ultimately show ?thesis by (cases "run_all alter_table ops t'") (auto simp: Some fun_eq_iff)
  qed
qed

section \<open>A part of a table\<close>

text \<open>
  The objects of one kind a table has: what operations on that kind do to the table is what they
  do to those objects, whatever else it has.
\<close>

locale table_part =
  fixes get :: "live_table \<Rightarrow> (string \<rightharpoonup> 'v)" and put :: "(string \<rightharpoonup> 'v) \<Rightarrow> live_table \<Rightarrow> live_table"
  assumes get_put: "get (put m t) = m"
    and put_put: "put m (put m' t) = put m t"
    and put_get: "put (get t) t = t"
begin

lemma run_part:
  assumes "\<And>x t. x \<in> set xs \<Longrightarrow> alter_table (op x) t = map_option (\<lambda>m. put m t) (f x (get t))"
  shows "run_all alter_table (map op xs) t = map_option (\<lambda>m. put m t) (run_all f xs (get t))"
  using assms
proof (induction xs arbitrary: t)
  case Nil
  then show ?case by (simp add: put_get)
next
  case (Cons x xs)
  then show ?case
    by (cases "f x (get t)") (simp_all add: get_put put_put option.map_comp comp_def)
qed

lemma run_objects:
  assumes drop: "\<And>x t. alter_table (drop_op x) t = map_option (\<lambda>m. put m t) (drop_key (name x) (get t))"
    and make: "\<And>x t. alter_table (make_op x) t = map_option (\<lambda>m. put m t) (make_key (name x) x (get t))"
    and old: "distinct (map name old)" and new: "distinct (map name new)"
    and "get t = keyed name id old"
  shows "run_all alter_table (diff_objects drop_op make_op old new) t = Some (put (keyed name id new) t)"
proof -
  have changed: "filter (\<lambda>x. x \<notin> set others) xs = changed_objects name id others xs"
    for others xs :: "'v list"
    unfolding changed_objects_def by (rule filter_cong) auto
  have dropped: "run_all alter_table (map drop_op (changed_objects name id new old)) t =
      Some (put (kept_map name id old new) t)"
    using run_part [of _ drop_op, OF drop] run_drop_changed [OF old refl distinct_changed [OF old], of id]
    by (simp add: assms(5))
  have "run_all alter_table (map make_op (changed_objects name id old new)) (put m t) =
      map_option (\<lambda>m'. put m' t) (run_all (\<lambda>x. make_key (name x) (id x)) (changed_objects name id old new) m)"
    for m
    using run_part [of _ make_op, OF make] by (simp add: get_put put_put)
  then show ?thesis
    using dropped run_make_changed [OF old new, of id] by (simp add: diff_objects_def changed)
qed

end

interpretation columns_part: table_part lt_columns "\<lambda>m t. t\<lparr>lt_columns := m\<rparr>"
  by unfold_locales simp_all

interpretation identities_part: table_part lt_identities "\<lambda>m t. t\<lparr>lt_identities := m\<rparr>"
  by unfold_locales simp_all

interpretation indexes_part: table_part lt_indexes "\<lambda>m t. t\<lparr>lt_indexes := m\<rparr>"
  by unfold_locales simp_all

interpretation checks_part: table_part lt_checks "\<lambda>m t. t\<lparr>lt_checks := m\<rparr>"
  by unfold_locales simp_all

interpretation references_part: table_part lt_references "\<lambda>m t. t\<lparr>lt_references := m\<rparr>"
  by unfold_locales simp_all

interpretation statements_part: table_part lt_statements "\<lambda>m t. t\<lparr>lt_statements := m\<rparr>"
  by unfold_locales simp_all

section \<open>The difference of two snapshots\<close>

definition well_named :: "table_snapshot \<Rightarrow> bool" where
  "well_named t \<longleftrightarrow>
     distinct (map cln_name (tbs_columns t)) \<and>
     distinct (map ids_name (tbs_identities t) @ map ixs_name (tbs_indexes t)) \<and>
     distinct (map cks_name (tbs_checks t) @ map rfs_name (tbs_references t)) \<and>
     distinct (map sts_name (tbs_statements t))"

text \<open>Each rename takes a column that went to one that came, once.\<close>

definition renames_ok :: "table_snapshot \<Rightarrow> table_snapshot \<Rightarrow> (string \<times> string) list \<Rightarrow> bool" where
  "renames_ok old new renames \<longleftrightarrow>
     distinct (map fst renames) \<and> distinct (map snd renames) \<and>
     (\<forall>(o', n) \<in> set renames.
        has_column old o' \<and> \<not> has_column new o' \<and> has_column new n \<and> \<not> has_column old n)"

text \<open>No column that stays becomes, or stops being, the primary key.\<close>

definition keys_stay :: "table_snapshot \<Rightarrow> table_snapshot \<Rightarrow> (string \<times> string) list \<Rightarrow> bool" where
  "keys_stay old new renames \<longleftrightarrow>
     (\<forall>c \<in> set (tbs_columns new). \<forall>o'. old_match old renames c = Some o' \<longrightarrow>
        cln_is_primary_key o' = cln_is_primary_key c)"

lemma has_column_keyed: "has_column t k \<longleftrightarrow> keyed cln_name id (tbs_columns t) k \<noteq> None"
  by (auto simp: has_column_def keyed_None_iff)

lemma find_column_keyed: "find_column t k = keyed cln_name id (tbs_columns t) k"
proof -
  have "List.find (\<lambda>c. cln_name c = k) cs = keyed cln_name id cs k" for cs
    by (induction cs) auto
  then show ?thesis by (simp add: find_column_def)
qed

lemma keyed_column_name: "keyed cln_name id cs k = Some c \<Longrightarrow> cln_name c = k"
  by (auto dest: keyed_SomeD)

lemma applied_all: "renames_ok old new renames \<Longrightarrow> applied_renames old new renames = renames"
  by (auto simp: applied_renames_def renames_ok_def filter_id_conv)

text \<open>What a column of the new table is before it's altered.\<close>

definition column_before ::
    "table_snapshot \<Rightarrow> (string \<times> string) list \<Rightarrow> column_snapshot \<Rightarrow> column_snapshot" where
  "column_before old renames c =
     (case old_match old renames c of None \<Rightarrow> c | Some o' \<Rightarrow> o'\<lparr>cln_name := cln_name c\<rparr>)"

lemma run_alter_column:
  assumes "lt_columns t (cln_name c) = Some (o'\<lparr>cln_name := cln_name c\<rparr>)"
    and "cln_is_primary_key o' = cln_is_primary_key c"
  shows "run_all alter_table (alter_column table o' c) t =
           Some (t\<lparr>lt_columns := (lt_columns t)(cln_name c \<mapsto> c)\<rparr>)"
proof -
  have "c = o'\<lparr>cln_name := cln_name c, cln_sql_type := cln_sql_type c, cln_nullable := cln_nullable c,
              cln_default := cln_default c\<rparr>"
    using assms(2) by simp
  then show ?thesis
    using assms(1)
    by (cases c; cases o'; cases t) (auto simp: alter_column_def alter_key_def fun_eq_iff)
qed

lemma run_alter_columns:
  assumes "distinct (map cln_name cs)"
    and "\<forall>c \<in> set cs. lt_columns t (cln_name c) = Some (column_before old renames c)"
    and "\<forall>c \<in> set cs. \<forall>o'. old_match old renames c = Some o' \<longrightarrow>
           cln_is_primary_key o' = cln_is_primary_key c"
  shows "run_all alter_table
           (concat (map (\<lambda>c. case old_match old renames c of None \<Rightarrow> [] | Some o' \<Rightarrow> alter_column table o' c) cs)) t =
         Some (t\<lparr>lt_columns := lt_columns t ++ keyed cln_name id cs\<rparr>)"
  using assms
proof (induction cs arbitrary: t)
  case Nil
  then show ?case by simp
next
  case (Cons c cs)
  let ?t = "t\<lparr>lt_columns := (lt_columns t)(cln_name c \<mapsto> c)\<rparr>"
  have out: "\<forall>d \<in> set cs. cln_name d \<noteq> cln_name c" using Cons.prems(1) by (auto simp: image_iff)
  have step: "run_all alter_table
      (case old_match old renames c of None \<Rightarrow> [] | Some o' \<Rightarrow> alter_column table o' c) t = Some ?t"
  proof (cases "old_match old renames c")
    case None
    then have "(lt_columns t)(cln_name c \<mapsto> c) = lt_columns t"
      using Cons.prems(2) by (auto simp: column_before_def fun_eq_iff)
    then show ?thesis using None by simp
  next
    case (Some o')
    have "lt_columns t (cln_name c) = Some (column_before old renames c)"
      and key: "cln_is_primary_key o' = cln_is_primary_key c"
      using Cons.prems(2,3) Some by simp_all
    then have "lt_columns t (cln_name c) = Some (o'\<lparr>cln_name := cln_name c\<rparr>)"
      by (simp only: column_before_def Some option.case)
    then show ?thesis
      unfolding Some option.case by (rule run_alter_column [OF _ key])
  qed
  have rest: "run_all alter_table
      (concat (map (\<lambda>c. case old_match old renames c of None \<Rightarrow> [] | Some o' \<Rightarrow> alter_column table o' c) cs)) ?t =
      Some (?t\<lparr>lt_columns := lt_columns ?t ++ keyed cln_name id cs\<rparr>)"
    by (rule Cons.IH) (use Cons.prems out in auto)
  have "(lt_columns t)(cln_name c \<mapsto> c) ++ keyed cln_name id cs =
      lt_columns t ++ keyed cln_name id (c # cs)"
    using keyed_None_iff [of cln_name id cs "cln_name c"] Cons.prems(1)
    by (auto simp: fun_eq_iff map_add_def split: option.splits)
  then have "?t\<lparr>lt_columns := lt_columns ?t ++ keyed cln_name id cs\<rparr> =
      t\<lparr>lt_columns := lt_columns t ++ keyed cln_name id (c # cs)\<rparr>"
    by (simp del: keyed_Cons map_add_upd_left)
  then show ?case
    by (simp only: list.map concat.simps run_all_append step rest bind.simps)
qed

text \<open>The columns once they're renamed, dropped and added.\<close>

definition columns_moved ::
    "table_snapshot \<Rightarrow> table_snapshot \<Rightarrow> (string \<times> string) list \<Rightarrow> (string \<rightharpoonup> column_snapshot)" where
  "columns_moved old new renames = (\<lambda>k.
     case List.find (\<lambda>c. cln_name c = k) (tbs_columns new) of
       None \<Rightarrow> None | Some c \<Rightarrow> Some (column_before old renames c))"

lemma renamed_before:
  assumes "renames_ok old new renames" and "well_named new" and "c \<in> set (tbs_columns new)"
    and "has_column old (cln_name c) \<or> cln_name c \<in> snd ` set renames"
  shows "renamed_map (\<lambda>k. cln_name_update (\<lambda>_. k)) renames (keyed cln_name id (tbs_columns old)) (cln_name c) =
           Some (column_before old renames c)"
proof (cases "List.find (\<lambda>(_, n). n = cln_name c) renames")
  case None
  then have "cln_name c \<notin> snd ` set renames" using find_rename_None by metis
  then obtain o' where o': "keyed cln_name id (tbs_columns old) (cln_name c) = Some o'"
    using assms(4) has_column_keyed by auto
  have "has_column new (cln_name c)" using assms(3) by (auto simp: has_column_def)
  then have "cln_name c \<notin> fst ` set renames" using assms(1) by (force simp: renames_ok_def)
  then show ?thesis
    using None o' keyed_column_name [OF o']
    by (simp add: renamed_map_def column_before_def old_match_def find_column_keyed del: find_None_iff)
next
  case (Some p)
  obtain o' n where p: "p = (o', n)" by (cases p)
  then have "(o', cln_name c) \<in> set renames" using find_rename_SomeD Some by fastforce
  then have "has_column old o'" using assms(1) by (auto simp: renames_ok_def)
  then show ?thesis
    using Some p has_column_keyed [of old o']
    by (auto simp: renamed_map_def column_before_def old_match_def find_column_keyed)
qed

text \<open>A column has the name it's keyed by; the other operations on columns, in one rule each.\<close>

lemma run_rename_columns:
  "run_all alter_table (map (\<lambda>(o', n). RenameColumn table o' n) pairs) t =
     map_option (\<lambda>m. t\<lparr>lt_columns := m\<rparr>)
       (run_all (\<lambda>(o', n). rename_key (\<lambda>k. cln_name_update (\<lambda>_. k)) o' n) pairs (lt_columns t))"
  by (rule columns_part.run_part) auto

lemma run_drop_columns:
  "run_all alter_table (map (\<lambda>c. DropColumn table (cln_name c)) cs) t =
     map_option (\<lambda>m. t\<lparr>lt_columns := m\<rparr>) (run_all (\<lambda>c. drop_key (cln_name c)) cs (lt_columns t))"
  by (rule columns_part.run_part) auto

lemma run_add_columns:
  "run_all alter_table (map (AddColumn table) cs) t =
     map_option (\<lambda>m. t\<lparr>lt_columns := m\<rparr>) (run_all (\<lambda>c. make_key (cln_name c) (id c)) cs (lt_columns t))"
  by (rule columns_part.run_part) auto

lemma run_diff_columns:
  assumes old: "well_named old" and new: "well_named new" and ok: "renames_ok old new renames"
    and keys: "keys_stay old new renames" and t: "lt_columns t = keyed cln_name id (tbs_columns old)"
  shows "run_all alter_table (diff_columns old new renames) t =
           Some (t\<lparr>lt_columns := keyed cln_name id (tbs_columns new)\<rparr>)"
proof -
  let ?put = "\<lambda>k. cln_name_update (\<lambda>_. k)"
  let ?m0 = "keyed cln_name id (tbs_columns old)"
  let ?m1 = "renamed_map ?put renames ?m0"
  let ?gone = "filter (\<lambda>c. cln_name c \<notin> set (map fst renames) \<and> \<not> has_column new (cln_name c)) (tbs_columns old)"
  let ?m2 = "\<lambda>k. if k \<in> cln_name ` set ?gone then None else ?m1 k"
  let ?come = "filter (\<lambda>c. cln_name c \<notin> set (map snd renames) \<and> \<not> has_column old (cln_name c)) (tbs_columns new)"
  let ?m3 = "?m2 ++ keyed cln_name id ?come"
  have names: "distinct (map cln_name (tbs_columns old))" "distinct (map cln_name (tbs_columns new))"
    using old new by (simp_all add: well_named_def)
  have "renames_apply renames ?m0"
    using ok has_column_keyed by (auto simp: renames_apply_def renames_ok_def)
  note s1 = run_rename_keys [OF this, of ?put]
  have came: "\<And>k. k \<in> snd ` set renames \<Longrightarrow> has_column new k \<and> \<not> has_column old k"
    and went: "\<And>k. k \<in> fst ` set renames \<Longrightarrow> has_column old k \<and> \<not> has_column new k"
    using ok by (auto simp: renames_ok_def)
  have "\<forall>c \<in> set ?gone. ?m1 (cln_name c) \<noteq> None"
  proof
    fix c assume c: "c \<in> set ?gone"
    have "cln_name c \<notin> snd ` set renames" using c came by auto
    then have "List.find (\<lambda>(_, n). n = cln_name c) renames = None" using find_rename_None by metis
    moreover have "cln_name c \<notin> fst ` set renames" using c by auto
    moreover have "?m0 (cln_name c) \<noteq> None" using c by (auto simp: keyed_None_iff)
    ultimately show "?m1 (cln_name c) \<noteq> None" by (simp add: renamed_map_def del: find_None_iff)
  qed
  note s2 = run_drop_keys [OF distinct_map_filter [OF names(1)] this]
  have m1_new: "?m1 (cln_name c) = None" if "c \<in> set ?come" for c
  proof -
    have "cln_name c \<notin> snd ` set renames" using that by auto
    then have "List.find (\<lambda>(_, n). n = cln_name c) renames = None" using find_rename_None by metis
    moreover have "?m0 (cln_name c) = None" using that has_column_keyed by auto
    ultimately show ?thesis by (simp add: renamed_map_def del: find_None_iff)
  qed
  then have "\<forall>c \<in> set ?come. ?m2 (cln_name c) = None" by simp
  note s3 = run_make_keys [OF distinct_map_filter [OF names(2)] this, of id]
  have m3: "?m3 (cln_name c) = Some (column_before old renames c)" if c: "c \<in> set (tbs_columns new)" for c
  proof (cases "c \<in> set ?come")
    case True
    have none: "List.find (\<lambda>(_, n). n = cln_name c) renames = None"
      using True find_rename_None [of "cln_name c" renames] by auto
    have "find_column old (cln_name c) = None"
      using True has_column_keyed by (auto simp: find_column_keyed)
    then have "column_before old renames c = c"
      using none by (simp add: column_before_def old_match_def del: find_None_iff)
    moreover have "keyed cln_name id ?come (cln_name c) = Some (id c)"
      by (rule keyed_in [OF distinct_map_filter [OF names(2)] True])
    ultimately show ?thesis by (simp add: map_add_def)
  next
    case False
    have "cln_name c \<notin> cln_name ` set ?come"
      using False c names(2) by (auto simp: distinct_map inj_on_def)
    then have "keyed cln_name id ?come (cln_name c) = None" by (simp only: keyed_None_iff not_False_eq_True)
    moreover have "cln_name c \<notin> cln_name ` set ?gone" using c by (auto simp: has_column_def)
    moreover have "?m1 (cln_name c) = Some (column_before old renames c)"
      by (rule renamed_before [OF ok new c]) (use False c in auto)
    ultimately show ?thesis by (simp only: map_add_def if_False option.case)
  qed
  have rest: "?m3 k = None" if k: "k \<notin> cln_name ` set (tbs_columns new)" for k
  proof -
    have no: "\<not> has_column new k" using k by (auto simp: has_column_def)
    have "k \<notin> cln_name ` set ?come" using k by auto
    then have "keyed cln_name id ?come k = None" by (simp only: keyed_None_iff not_False_eq_True)
    moreover have "?m2 k = None"
    proof (cases "k \<in> cln_name ` set ?gone")
      case False
      have "List.find (\<lambda>(_, n). n = k) renames = None"
        using came no find_rename_None [of k renames] by auto
      moreover have "k \<in> fst ` set renames \<or> ?m0 k = None"
        using False no by (auto simp: keyed_None_iff)
      ultimately show ?thesis by (auto simp: renamed_map_def simp del: find_None_iff)
    qed simp
    ultimately show ?thesis by (simp only: map_add_def option.case)
  qed
  have "?m3 ++ keyed cln_name id (tbs_columns new) = keyed cln_name id (tbs_columns new)"
    by (rule map_add_covered) (use rest in \<open>simp only: keyed_None_iff\<close>)
  moreover have "run_all alter_table
      (concat (map (\<lambda>c. case old_match old renames c of
                          None \<Rightarrow> []
                        | Some o' \<Rightarrow> alter_column (tbs_table new) o' c) (tbs_columns new)))
      (t\<lparr>lt_columns := ?m3\<rparr>) =
    Some (t\<lparr>lt_columns := ?m3, lt_columns := lt_columns (t\<lparr>lt_columns := ?m3\<rparr>) ++ keyed cln_name id (tbs_columns new)\<rparr>)"
    by (rule run_alter_columns [OF names(2)]) (use m3 keys in \<open>auto simp: keys_stay_def\<close>)
  ultimately have altered: "run_all alter_table
      (concat (map (\<lambda>c. case old_match old renames c of
                          None \<Rightarrow> []
                        | Some o' \<Rightarrow> alter_column (tbs_table new) o' c) (tbs_columns new)))
      (t\<lparr>lt_columns := ?m3\<rparr>) = Some (t\<lparr>lt_columns := keyed cln_name id (tbs_columns new)\<rparr>)"
    by (simp only: columns_part.get_put columns_part.put_put)
  have "run_all alter_table (map (\<lambda>(o', n). RenameColumn (tbs_table new) o' n) renames) t = Some (t\<lparr>lt_columns := ?m1\<rparr>)"
    using s1 by (simp only: run_rename_columns t option.map)
  moreover have "run_all alter_table (map (\<lambda>c. DropColumn (tbs_table new) (cln_name c)) ?gone) (t\<lparr>lt_columns := ?m1\<rparr>) =
      Some (t\<lparr>lt_columns := ?m2\<rparr>)"
    using s2 by (simp only: run_drop_columns columns_part.get_put columns_part.put_put option.map)
  moreover have "run_all alter_table (map (AddColumn (tbs_table new)) ?come) (t\<lparr>lt_columns := ?m2\<rparr>) =
      Some (t\<lparr>lt_columns := ?m3\<rparr>)"
    using s3 by (simp only: run_add_columns columns_part.get_put columns_part.put_put option.map)
  ultimately show ?thesis
    by (simp only: diff_columns_def Let_def applied_all [OF ok] run_all_append bind.simps altered)
qed

lemma statement_changed:
  "filter (\<lambda>s. \<not> statement_kept others s) ss = changed_objects sts_name sts_up others ss"
  by (simp add: changed_objects_def statement_kept_def)

lemma run_diff_table:
  assumes old: "well_named old" and new: "well_named new" and ok: "renames_ok old new renames"
    and keys: "keys_stay old new renames"
  shows "run_all alter_table (diff_table old new renames) (live_of old) = Some (live_of new)"
proof -
  let ?table = "tbs_table new"
  have names: "distinct (map ids_name (tbs_identities old))" "distinct (map ids_name (tbs_identities new))"
      "distinct (map ixs_name (tbs_indexes old))" "distinct (map ixs_name (tbs_indexes new))"
      "distinct (map cks_name (tbs_checks old))" "distinct (map cks_name (tbs_checks new))"
      "distinct (map rfs_name (tbs_references old))" "distinct (map rfs_name (tbs_references new))"
      "distinct (map sts_name (tbs_statements old))" "distinct (map sts_name (tbs_statements new))"
    using old new by (simp_all add: well_named_def)
  let ?undone = "changed_objects sts_name sts_up (tbs_statements new) (rev (tbs_statements old))"
  have undone_set: "set ?undone = set (changed_objects sts_name sts_up (tbs_statements new) (tbs_statements old))"
    by (auto simp: changed_objects_def)
  have undone_distinct: "distinct (map sts_name ?undone)"
    by (rule distinct_changed) (simp add: rev_map [symmetric] names)
  have undo: "run_all alter_table (map (drop_statement ?table) ss) t =
      map_option (\<lambda>m. t\<lparr>lt_statements := m\<rparr>) (run_all (\<lambda>s. drop_key (sts_name s)) ss (lt_statements t))" for ss t
    by (rule statements_part.run_part) (simp add: drop_statement_def)
  have redo: "run_all alter_table (map (RunStatement ?table) ss) t =
      map_option (\<lambda>m. t\<lparr>lt_statements := m\<rparr>)
        (run_all (\<lambda>s. make_key (sts_name s) (sts_up s)) ss (lt_statements t))" for ss t
    by (rule statements_part.run_part) simp
  note undone = run_drop_changed [OF names(9) undone_set undone_distinct]
  note redone = run_make_changed [OF names(9,10), where val = sts_up]
  let ?t1 = "(live_of old)\<lparr>lt_statements := kept_map sts_name sts_up (tbs_statements old) (tbs_statements new)\<rparr>"
  let ?t2 = "?t1\<lparr>lt_columns := keyed cln_name id (tbs_columns new)\<rparr>"
  let ?t3 = "?t2\<lparr>lt_identities := keyed ids_name id (tbs_identities new)\<rparr>"
  let ?t4 = "?t3\<lparr>lt_indexes := keyed ixs_name id (tbs_indexes new)\<rparr>"
  let ?t5 = "?t4\<lparr>lt_checks := keyed cks_name id (tbs_checks new)\<rparr>"
  let ?t6 = "?t5\<lparr>lt_references := keyed rfs_name id (tbs_references new)\<rparr>"
  have columns: "run_all alter_table (diff_columns old new renames) ?t1 = Some ?t2"
    by (rule run_diff_columns [OF old new ok keys]) (simp add: live_of_def)
  have identities: "run_all alter_table (diff_objects (\<lambda>i. DropIdentity ?table (ids_name i)) (CreateIdentity ?table)
      (tbs_identities old) (tbs_identities new)) ?t2 = Some ?t3"
    by (rule identities_part.run_objects [OF _ _ names(1,2)]) (simp_all add: live_of_def)
  have indexes: "run_all alter_table (diff_objects (\<lambda>i. DropIndex ?table (ixs_name i)) (CreateIndex ?table)
      (tbs_indexes old) (tbs_indexes new)) ?t3 = Some ?t4"
    by (rule indexes_part.run_objects [OF _ _ names(3,4)]) (simp_all add: live_of_def)
  have checks: "run_all alter_table (diff_objects (\<lambda>c. DropCheck ?table (cks_name c)) (AddCheck ?table)
      (tbs_checks old) (tbs_checks new)) ?t4 = Some ?t5"
    by (rule checks_part.run_objects [OF _ _ names(5,6)]) (simp_all add: live_of_def)
  have references: "run_all alter_table (diff_objects (\<lambda>r. DropReference ?table (rfs_name r)) (AddReference ?table)
      (tbs_references old) (tbs_references new)) ?t5 = Some ?t6"
    by (rule references_part.run_objects [OF _ _ names(7,8)]) (simp_all add: live_of_def)
  have start: "lt_statements (live_of old) = keyed sts_name sts_up (tbs_statements old)"
    by (simp add: live_of_def)
  have "?t6\<lparr>lt_statements := keyed sts_name sts_up (tbs_statements new)\<rparr> = live_of new"
    by (simp add: live_of_def)
  moreover have "lt_statements ?t6 = kept_map sts_name sts_up (tbs_statements old) (tbs_statements new)"
    by simp
  ultimately have "run_all alter_table (map (RunStatement ?table)
      (changed_objects sts_name sts_up (tbs_statements old) (tbs_statements new))) ?t6 = Some (live_of new)"
    by (simp only: redo redone option.map)
  then show ?thesis
    by (simp only: diff_table_def Let_def statement_changed run_all_append undo start undone option.map bind.simps
        columns identities indexes checks references)
qed

lemma diff_table_on: "\<forall>op \<in> set (diff_table old new renames). altered_table op = Some (tbs_table new)"
  by (auto simp: diff_table_def diff_columns_def diff_objects_def drop_statement_def alter_column_def Let_def
      split: option.splits)

lemma run_table_diff:
  assumes "well_named old" and "well_named new" and "renames_ok old new renames" and "keys_stay old new renames"
    and "db (tbs_table new) = Some (live_of old)"
  shows "run_all alter_database (diff_table old new renames) db = Some (db(tbs_table new \<mapsto> live_of new))"
  using run_on_table [where table = "tbs_table new" and db = db, OF diff_table_on [of old new renames] assms(5)]
    run_diff_table [OF assms(1-4)] by simp

text \<open>A table made, with its statements run, or dropped, with its statements undone.\<close>

lemma run_create:
  assumes "well_named n" and "db (tbs_table n) = None"
  shows "run_all alter_database (diff_snapshots_with_renames None (Some n) renames) db =
           Some (db(tbs_table n \<mapsto> live_of n))"
proof -
  let ?t = "live_of (n\<lparr>tbs_statements := []\<rparr>)"
  have names: "distinct (map sts_name (tbs_statements n))" using assms(1) by (simp add: well_named_def)
  have "run_all alter_table (map (RunStatement (tbs_table n)) (tbs_statements n)) ?t =
      map_option (\<lambda>m. ?t\<lparr>lt_statements := m\<rparr>)
        (run_all (\<lambda>s. make_key (sts_name s) (sts_up s)) (tbs_statements n) (lt_statements ?t))"
    by (rule statements_part.run_part) simp
  also have "\<dots> = Some (live_of n)"
    using run_make_keys [OF names, of Map.empty sts_up] by (simp add: live_of_def)
  finally have run: "run_all alter_table (map (RunStatement (tbs_table n)) (tbs_statements n)) ?t = Some (live_of n)" .
  have "run_all alter_database (map (RunStatement (tbs_table n)) (tbs_statements n)) (db(tbs_table n \<mapsto> ?t)) =
      Some ((db(tbs_table n \<mapsto> ?t))(tbs_table n \<mapsto> live_of n))"
    using run_on_table [of "map (RunStatement (tbs_table n)) (tbs_statements n)" "tbs_table n"
        "db(tbs_table n \<mapsto> ?t)" ?t] run by simp
  moreover have "alter_database (CreateTable n) db = Some (db(tbs_table n \<mapsto> ?t))"
    using assms(2) by (simp add: alter_database_def make_key_def)
  ultimately show ?thesis by (simp add: diff_snapshots_with_renames_def)
qed

lemma run_drop:
  assumes "well_named p" and "db (tbs_table p) = Some (live_of p)"
  shows "run_all alter_database (diff_snapshots_with_renames (Some p) None renames) db =
           Some (db(tbs_table p := None))"
proof -
  let ?ss = "rev (tbs_statements p)"
  have names: "distinct (map sts_name ?ss)" using assms(1) by (simp add: well_named_def rev_map [symmetric])
  have "run_all alter_table (map (drop_statement (tbs_table p)) ?ss) (live_of p) =
      map_option (\<lambda>m. (live_of p)\<lparr>lt_statements := m\<rparr>)
        (run_all (\<lambda>s. drop_key (sts_name s)) ?ss (lt_statements (live_of p)))"
    by (rule statements_part.run_part) (simp add: drop_statement_def)
  moreover have "\<forall>s \<in> set ?ss. lt_statements (live_of p) (sts_name s) \<noteq> None"
    by (auto simp: live_of_def keyed_None_iff)
  ultimately obtain t where "run_all alter_table (map (drop_statement (tbs_table p)) ?ss) (live_of p) = Some t"
    using run_drop_keys [OF names] by fastforce
  then have "run_all alter_database (map (drop_statement (tbs_table p)) ?ss) db = Some (db(tbs_table p \<mapsto> t))"
    using run_on_table [of "map (drop_statement (tbs_table p)) ?ss" "tbs_table p" db] assms(2)
    by (simp add: drop_statement_def)
  moreover have "alter_database (DropTable (tbs_table p)) (db(tbs_table p \<mapsto> t)) = Some (db(tbs_table p := None))"
    by (simp add: alter_database_def drop_key_def)
  ultimately show ?thesis by (simp add: diff_snapshots_with_renames_def)
qed

section \<open>Objects renamed with their table\<close>

text \<open>
  Two kinds of object that share their names: an operation renames the one that has the name,
  to a name neither has.
\<close>

locale shared_names = first: table_part get1 put1 + second: table_part get2 put2
  for get1 :: "live_table \<Rightarrow> (string \<rightharpoonup> 'v)" and put1 and get2 :: "live_table \<Rightarrow> (string \<rightharpoonup> 'w)" and put2 +
  fixes op :: "string \<Rightarrow> string \<Rightarrow> string \<Rightarrow> schema_operation"
    and name1 :: "string \<Rightarrow> 'v \<Rightarrow> 'v" and name2 :: "string \<Rightarrow> 'w \<Rightarrow> 'w"
  assumes op_alters: "alter_table (op table o' n) t =
      (if get1 t n \<noteq> None \<or> get2 t n \<noteq> None then None
       else if get1 t o' \<noteq> None then map_option (\<lambda>m. put1 m t) (rename_key name1 o' n (get1 t))
       else map_option (\<lambda>m. put2 m t) (rename_key name2 o' n (get2 t)))"
    and other1: "get2 (put1 m1 t) = get2 t" and other2: "get1 (put2 m2 t) = get1 t"
    and name_name1: "name1 k (name1 k' v) = name1 k v" and name_name2: "name2 k (name2 k' w) = name2 k w"
begin

definition consistent :: "live_table \<Rightarrow> bool" where
  "consistent t \<longleftrightarrow>
     (\<forall>k v. get1 t k = Some v \<longrightarrow> name1 k v = v) \<and> (\<forall>k w. get2 t k = Some w \<longrightarrow> name2 k w = w) \<and>
     (\<forall>k. get1 t k = None \<or> get2 t k = None)"

lemma run_first:
  "renames_apply pairs (get1 t) \<Longrightarrow> \<forall>(o', n) \<in> set pairs. get2 t n = None \<Longrightarrow>
   run_all alter_table (map (\<lambda>(o', n). op table o' n) pairs) t =
     Some (put1 (renamed_map name1 pairs (get1 t)) t)"
proof -
  have "renames_apply pairs (get1 t) \<Longrightarrow> \<forall>(o', n) \<in> set pairs. get2 t n = None \<Longrightarrow>
      run_all alter_table (map (\<lambda>(o', n). op table o' n) pairs) t =
        map_option (\<lambda>m. put1 m t) (run_all (\<lambda>(o', n). rename_key name1 o' n) pairs (get1 t))"
  proof (induction pairs arbitrary: t)
    case Nil
    then show ?case by (simp add: first.put_get)
  next
    case (Cons p pairs)
    obtain o' n where p: "p = (o', n)" by (cases p)
    obtain v where v: "get1 t o' = Some v" and free: "get1 t n = None" "get2 t n = None"
      using Cons.prems by (auto simp: p renames_apply_def)
    let ?m = "(get1 t)(o' := None, n \<mapsto> name1 n v)"
    have step: "rename_key name1 o' n (get1 t) = Some ?m" by (simp add: rename_key_def v free)
    have "renames_apply pairs (get1 (put1 ?m t))"
      unfolding first.get_put by (rule renames_apply_Cons [OF Cons.prems(1) [unfolded p]])
    moreover have "\<forall>(o', n) \<in> set pairs. get2 (put1 ?m t) n = None"
      unfolding other1 using Cons.prems(2) by simp
    ultimately have "run_all alter_table (map (\<lambda>(o', n). op table o' n) pairs) (put1 ?m t) =
        map_option (\<lambda>m. put1 m (put1 ?m t))
          (run_all (\<lambda>(o', n). rename_key name1 o' n) pairs (get1 (put1 ?m t)))"
      by (rule Cons.IH)
    then show ?case
      using step v free by (simp add: p op_alters first.get_put first.put_put)
  qed
  then show "renames_apply pairs (get1 t) \<Longrightarrow> \<forall>(o', n) \<in> set pairs. get2 t n = None \<Longrightarrow> ?thesis"
    by (simp add: run_rename_keys)
qed

lemma run_second:
  "renames_apply pairs (get2 t) \<Longrightarrow> \<forall>(o', n) \<in> set pairs. get1 t o' = None \<and> get1 t n = None \<Longrightarrow>
   run_all alter_table (map (\<lambda>(o', n). op table o' n) pairs) t =
     Some (put2 (renamed_map name2 pairs (get2 t)) t)"
proof -
  have "renames_apply pairs (get2 t) \<Longrightarrow> \<forall>(o', n) \<in> set pairs. get1 t o' = None \<and> get1 t n = None \<Longrightarrow>
      run_all alter_table (map (\<lambda>(o', n). op table o' n) pairs) t =
        map_option (\<lambda>m. put2 m t) (run_all (\<lambda>(o', n). rename_key name2 o' n) pairs (get2 t))"
  proof (induction pairs arbitrary: t)
    case Nil
    then show ?case by (simp add: second.put_get)
  next
    case (Cons p pairs)
    obtain o' n where p: "p = (o', n)" by (cases p)
    obtain v where v: "get2 t o' = Some v" and free: "get2 t n = None" "get1 t n = None" "get1 t o' = None"
      using Cons.prems by (auto simp: p renames_apply_def)
    let ?m = "(get2 t)(o' := None, n \<mapsto> name2 n v)"
    have step: "rename_key name2 o' n (get2 t) = Some ?m" by (simp add: rename_key_def v free)
    have "renames_apply pairs (get2 (put2 ?m t))"
      unfolding second.get_put by (rule renames_apply_Cons [OF Cons.prems(1) [unfolded p]])
    moreover have "\<forall>(o', n) \<in> set pairs. get1 (put2 ?m t) o' = None \<and> get1 (put2 ?m t) n = None"
      unfolding other2 using Cons.prems(2) by simp
    ultimately have "run_all alter_table (map (\<lambda>(o', n). op table o' n) pairs) (put2 ?m t) =
        map_option (\<lambda>m. put2 m (put2 ?m t))
          (run_all (\<lambda>(o', n). rename_key name2 o' n) pairs (get2 (put2 ?m t)))"
      by (rule Cons.IH)
    then show ?case
      using step v free by (simp add: p op_alters second.get_put second.put_put)
  qed
  then show "renames_apply pairs (get2 t) \<Longrightarrow>
      \<forall>(o', n) \<in> set pairs. get1 t o' = None \<and> get1 t n = None \<Longrightarrow> ?thesis"
    by (simp add: run_rename_keys)
qed

lemma rename_undone:
  assumes "alter_table (op table o' n) t = Some t'" and ok: "consistent t"
  shows "alter_table (op table n o') t' = Some t \<and> consistent t'"
proof (cases "get1 t o'")
  case (Some v)
  then have free: "get1 t n = None" "get2 t n = None"
    and t': "t' = put1 ((get1 t)(o' := None, n \<mapsto> name1 n v)) t"
    using assms(1) by (auto simp: op_alters rename_key_def split: if_splits)
  have other: "get2 t o' = None" and name: "name1 o' v = v"
    using ok Some unfolding consistent_def by (metis option.distinct(1), blast)
  have ne: "o' \<noteq> n" using Some free by auto
  have "((get1 t)(o' := None, n \<mapsto> name1 n v))(n := None, o' \<mapsto> v) = get1 t"
    using Some free ne by (auto simp: fun_eq_iff)
  then have "alter_table (op table n o') t' = Some t"
    using ne other by (simp add: t' op_alters first.get_put first.put_put first.put_get other1 rename_key_def
        name_name1 name)
  moreover have "consistent t'"
    using ok free by (auto simp: t' consistent_def first.get_put other1 name_name1)
  ultimately show ?thesis ..
next
  case None
  then obtain v where v: "get2 t o' = Some v" and free: "get1 t n = None" "get2 t n = None"
      and t': "t' = put2 ((get2 t)(o' := None, n \<mapsto> name2 n v)) t"
    using assms by (auto simp: op_alters rename_key_def split: if_splits option.splits)
  have name: "name2 o' v = v" using ok v by (simp add: consistent_def)
  have ne: "o' \<noteq> n" using v free by auto
  have "((get2 t)(o' := None, n \<mapsto> name2 n v))(n := None, o' \<mapsto> v) = get2 t"
    using v free ne by (auto simp: fun_eq_iff)
  then have "alter_table (op table n o') t' = Some t"
    using ne None free by (simp add: t' op_alters second.get_put second.put_put second.put_get other2 rename_key_def
        name_name2 name)
  moreover have "consistent t'"
    using ok free by (auto simp: t' consistent_def second.get_put other2 name_name2)
  ultimately show ?thesis ..
qed

end

interpretation index_names: shared_names lt_identities "\<lambda>m t. t\<lparr>lt_identities := m\<rparr>"
    lt_indexes "\<lambda>m t. t\<lparr>lt_indexes := m\<rparr>" RenameIndex
    "\<lambda>k. ids_name_update (\<lambda>_. k)" "\<lambda>k. ixs_name_update (\<lambda>_. k)"
  by unfold_locales simp_all

interpretation constraint_names: shared_names lt_checks "\<lambda>m t. t\<lparr>lt_checks := m\<rparr>"
    lt_references "\<lambda>m t. t\<lparr>lt_references := m\<rparr>" RenameConstraint
    "\<lambda>k. cks_name_update (\<lambda>_. k)" "\<lambda>k. rfs_name_update (\<lambda>_. k)"
  by unfold_locales simp_all

end
