(* ===== verification/AshMigratePlans.thy ===== *)
theory AshMigratePlans
  imports AshMigrateFacts
begin

text \<open>
  The plan of a whole schema (\<open>plan_schema\<close>) takes a database of the old snapshots to one of its
  targets, and its reverse (\<open>reverse_plan\<close>) takes it back: tables renamed with the objects named
  after them, columns renamed, tables made and dropped.
\<close>

section \<open>A table renamed with its objects\<close>

lemma renamed_pairs_map:
  assumes "\<And>k x. name (put_name k x) = k"
  shows "renamed_pairs name xs (map (\<lambda>x. put_name (f (name x)) x) xs) =
           map (\<lambda>x. (name x, f (name x))) (filter (\<lambda>x. f (name x) \<noteq> name x) xs)"
proof -
  have "zip (map name xs) (map name (map (\<lambda>x. put_name (f (name x)) x) xs)) = map (\<lambda>x. (name x, f (name x))) xs"
    by (induction xs) (simp_all add: assms)
  then show ?thesis unfolding renamed_pairs_def by (simp add: filter_map comp_def) (metis (mono_tags, lifting))
qed

lemma renamed_pairs_keyed:
  fixes name :: "'x \<Rightarrow> string" and put_name :: "string \<Rightarrow> 'x \<Rightarrow> 'x" and f :: "string \<Rightarrow> string"
  assumes names: "distinct (map name xs)"
    and name_put: "\<And>k x. name (put_name k x) = k" and put_name: "\<And>x. put_name (name x) x = x"
    and free: "\<And>x. x \<in> set xs \<Longrightarrow> f (name x) \<noteq> name x \<Longrightarrow> f (name x) \<notin> name ` set xs"
    and inj: "\<And>a b. f a \<noteq> a \<Longrightarrow> f b \<noteq> b \<Longrightarrow> f a = f b \<Longrightarrow> a = b"
    and p: "pairs = renamed_pairs name xs (map (\<lambda>x. put_name (f (name x)) x) xs)"
  shows "pairs = map (\<lambda>x. (name x, f (name x))) (filter (\<lambda>x. f (name x) \<noteq> name x) xs)"
    and "renames_apply pairs (keyed name id xs)"
    and "renamed_map put_name pairs (keyed name id xs) =
           keyed name id (map (\<lambda>x. put_name (f (name x)) x) xs)"
    and "distinct (map name (map (\<lambda>x. put_name (f (name x)) x) xs))"
proof -
  let ?moved = "filter (\<lambda>x. f (name x) \<noteq> name x) xs"
  let ?mp = "map (\<lambda>x. (name x, f (name x))) ?moved"
  show pairs: "pairs = ?mp"
    unfolding p by (rule renamed_pairs_map) (rule name_put)
  have inj_names: "inj_on name (set xs)" using names by (simp add: distinct_map)
  have inj_moved: "inj_on (\<lambda>x. f (name x)) (set ?moved)"
    using inj inj_names by (auto simp: inj_on_def)
  have all_new: "distinct (map (\<lambda>x. f (name x)) xs)"
  proof -
    have "inj_on (\<lambda>x. f (name x)) (set xs)"
    proof (rule inj_onI)
      fix x y assume xy: "x \<in> set xs" "y \<in> set xs" "f (name x) = f (name y)"
      show "x = y"
      proof (cases "f (name x) = name x \<or> f (name y) = name y")
        case True
        then have "f (name x) = name x \<and> f (name y) = name y"
          using xy free [of x] free [of y] by (metis imageI)
        then show ?thesis using xy inj_names by (auto simp: inj_on_def)
      next
        case False
        then show ?thesis using xy inj [of "name x" "name y"] inj_names by (auto simp: inj_on_def)
      qed
    qed
    then show ?thesis using names by (simp add: distinct_map)
  qed
  then show "distinct (map name (map (\<lambda>x. put_name (f (name x)) x) xs))"
    by (simp add: comp_def name_put)
  have "distinct (map fst ?mp)" using distinct_map_filter [OF names] by (simp add: comp_def)
  moreover have snd: "distinct (map snd ?mp)"
    using distinct_map_filter [OF all_new] by (simp add: comp_def)
  moreover have "\<forall>(k, k') \<in> set ?mp. keyed name id xs k \<noteq> None \<and> keyed name id xs k' = None"
    using free by (auto simp: keyed_None_iff)
  ultimately show "renames_apply pairs (keyed name id xs)" by (simp only: pairs renames_apply_def)
  have "renamed_map put_name ?mp (keyed name id xs) =
      keyed (\<lambda>x. f (name x)) (\<lambda>x. put_name (f (name x)) x) xs"
  proof (rule keyed_eqI [OF all_new])
    fix x assume x: "x \<in> set xs"
    have here: "keyed name id xs (name x) = Some x" using keyed_in [OF names x, of id] by simp
    show "renamed_map put_name ?mp (keyed name id xs) (f (name x)) = Some (put_name (f (name x)) x)"
    proof (cases "f (name x) = name x")
      case True
      have "f (name x) \<notin> snd ` set ?mp"
      proof
        assume "f (name x) \<in> snd ` set ?mp"
        then obtain y where "y \<in> set xs" "f (name y) \<noteq> name y" "f (name y) = name x" using True by auto
        then show False using free [of y] x by auto
      qed
      then have "List.find (\<lambda>(_, n). n = f (name x)) ?mp = None" by (rule find_rename_None [THEN iffD2])
      moreover have "f (name x) \<notin> fst ` set ?mp" using True x inj_names by (auto simp: inj_on_def)
      ultimately show ?thesis using True here put_name [of x] by (simp add: renamed_map_def del: find_None_iff)
    next
      case False
      then have "(name x, f (name x)) \<in> set ?mp" using x by auto
      then show ?thesis
        using find_rename_Some [OF snd] here by (simp add: renamed_map_def)
    qed
  next
    fix k assume k: "k \<notin> (\<lambda>x. f (name x)) ` set xs"
    have "k \<notin> snd ` set ?mp" using k by auto
    then have none: "List.find (\<lambda>(_, n). n = k) ?mp = None" by (rule find_rename_None [THEN iffD2])
    have "k \<in> fst ` set ?mp \<or> keyed name id xs k = None"
    proof (cases "k \<in> name ` set xs")
      case True
      then obtain x where "x \<in> set xs" "k = name x" by auto
      then have "x \<in> set ?moved" using k by auto (metis imageI)
      then show ?thesis using \<open>k = name x\<close> by force
    qed (simp add: keyed_None_iff)
    then show "renamed_map put_name ?mp (keyed name id xs) k = None"
      using none by (auto simp: renamed_map_def simp del: find_None_iff)
  qed
  then show "renamed_map put_name pairs (keyed name id xs) =
      keyed name id (map (\<lambda>x. put_name (f (name x)) x) xs)"
    by (simp add: pairs keyed_map name_put)
qed

lemma rewrite_name_inj:
  "rewrite_name p q a \<noteq> a \<Longrightarrow> rewrite_name p q b \<noteq> b \<Longrightarrow> rewrite_name p q a = rewrite_name p q b \<Longrightarrow> a = b"
  by (auto simp: rewrite_name_def str_starts_with_iff split: if_splits)

text \<open>
  No name an object takes with its table's new name is another's: indexes and identities share
  names, and so do checks and foreign keys.
\<close>

definition index_renames :: "table_snapshot \<Rightarrow> string \<Rightarrow> (string \<times> string) list" where
  "index_renames p n =
     renamed_pairs ids_name (tbs_identities p) (tbs_identities (renamed n p)) @
     renamed_pairs ixs_name (tbs_indexes p) (tbs_indexes (renamed n p))"

definition constraint_renames :: "table_snapshot \<Rightarrow> string \<Rightarrow> (string \<times> string) list" where
  "constraint_renames p n =
     renamed_pairs cks_name (tbs_checks p) (tbs_checks (renamed n p)) @
     renamed_pairs rfs_name (tbs_references p) (tbs_references (renamed n p))"

definition names_free :: "table_snapshot \<Rightarrow> string \<Rightarrow> bool" where
  "names_free p n \<longleftrightarrow>
     (\<forall>k \<in> snd ` set (index_renames p n). k \<notin> set (map ids_name (tbs_identities p) @ map ixs_name (tbs_indexes p))) \<and>
     (\<forall>k \<in> snd ` set (constraint_renames p n). k \<notin> set (map cks_name (tbs_checks p) @ map rfs_name (tbs_references p)))"

definition object_name :: "table_snapshot \<Rightarrow> string \<Rightarrow> string \<Rightarrow> string \<Rightarrow> string" where
  "object_name p n kind = rewrite_name (object_prefix kind (tbs_table p)) (object_prefix kind n)"

lemma renamed_parts:
  "tbs_identities (renamed n p) =
     map (\<lambda>i. i\<lparr>ids_name := object_name p n ''idx'' (ids_name i)\<rparr>) (tbs_identities p)"
  "tbs_indexes (renamed n p) =
     map (\<lambda>i. i\<lparr>ixs_name := object_name p n ''idx'' (ixs_name i)\<rparr>) (tbs_indexes p)"
  "tbs_checks (renamed n p) =
     map (\<lambda>c. c\<lparr>cks_name := object_name p n ''ck'' (cks_name c)\<rparr>) (tbs_checks p)"
  "tbs_references (renamed n p) =
     map (\<lambda>r. r\<lparr>rfs_name := object_name p n ''fk'' (rfs_name r)\<rparr>) (tbs_references p)"
  "tbs_columns (renamed n p) = tbs_columns p" "tbs_statements (renamed n p) = tbs_statements p"
  "tbs_table (renamed n p) = n"
  by (simp_all add: renamed_def Let_def object_name_def)

lemma object_name_inj:
  "object_name p n kind a \<noteq> a \<Longrightarrow> object_name p n kind b \<noteq> b \<Longrightarrow>
   object_name p n kind a = object_name p n kind b \<Longrightarrow> a = b"
  unfolding object_name_def by (rule rewrite_name_inj)

lemma index_renames_eq:
  "index_renames p n =
     map (\<lambda>i. (ids_name i, object_name p n ''idx'' (ids_name i)))
       (filter (\<lambda>i. object_name p n ''idx'' (ids_name i) \<noteq> ids_name i) (tbs_identities p)) @
     map (\<lambda>i. (ixs_name i, object_name p n ''idx'' (ixs_name i)))
       (filter (\<lambda>i. object_name p n ''idx'' (ixs_name i) \<noteq> ixs_name i) (tbs_indexes p))"
  unfolding index_renames_def renamed_parts
  by (subst renamed_pairs_map [where put_name = "\<lambda>k. ids_name_update (\<lambda>_. k)"], simp,
      subst renamed_pairs_map [where put_name = "\<lambda>k. ixs_name_update (\<lambda>_. k)"], simp, rule refl)

lemma constraint_renames_eq:
  "constraint_renames p n =
     map (\<lambda>i. (cks_name i, object_name p n ''ck'' (cks_name i)))
       (filter (\<lambda>i. object_name p n ''ck'' (cks_name i) \<noteq> cks_name i) (tbs_checks p)) @
     map (\<lambda>i. (rfs_name i, object_name p n ''fk'' (rfs_name i)))
       (filter (\<lambda>i. object_name p n ''fk'' (rfs_name i) \<noteq> rfs_name i) (tbs_references p))"
  unfolding constraint_renames_def renamed_parts
  by (subst renamed_pairs_map [where put_name = "\<lambda>k. cks_name_update (\<lambda>_. k)"], simp,
      subst renamed_pairs_map [where put_name = "\<lambda>k. rfs_name_update (\<lambda>_. k)"], simp, rule refl)

lemma moved_apart:
  assumes "distinct (map name1 xs @ map name2 ys)"
    and free1: "\<And>k. k \<in> set (map name1 xs) \<Longrightarrow> f k \<noteq> k \<Longrightarrow> f k \<notin> set (map name1 xs @ map name2 ys)"
    and free2: "\<And>k. k \<in> set (map name2 ys) \<Longrightarrow> g k \<noteq> k \<Longrightarrow> g k \<notin> set (map name1 xs @ map name2 ys)"
    and apart: "\<And>a b. f a \<noteq> a \<Longrightarrow> g b \<noteq> b \<Longrightarrow> f a = g b \<Longrightarrow> a = b"
    and y: "y \<in> set ys" "g (name2 y) \<noteq> name2 y"
  shows "name2 y \<notin> (\<lambda>x. f (name1 x)) ` set xs \<and> g (name2 y) \<notin> (\<lambda>x. f (name1 x)) ` set xs"
proof -
  have "name2 y \<noteq> f (name1 x) \<and> g (name2 y) \<noteq> f (name1 x)" if x: "x \<in> set xs" for x
  proof -
    have "name1 x \<in> name1 ` set xs" "name2 y \<in> name2 ` set ys" using x y(1) by simp_all
    moreover have "name1 ` set xs \<inter> name2 ` set ys = {}" using assms(1) by simp
    ultimately have ne: "name1 x \<noteq> name2 y" by (metis IntI empty_iff)
    show ?thesis
    proof (cases "f (name1 x) = name1 x")
      case True
      have "g (name2 y) \<noteq> name1 x" using free2 [OF _ y(2)] x y(1) by force
      then show ?thesis using True ne by simp
    next
      case False
      have "f (name1 x) \<noteq> name2 y" using free1 [OF _ False] x y(1) by force
      moreover have "g (name2 y) \<noteq> f (name1 x)" using apart [OF False y(2)] ne by metis
      ultimately show ?thesis by metis
    qed
  qed
  then show ?thesis by blast
qed

lemma names_free_index:
  assumes "names_free p n" and "k \<in> set (map ids_name (tbs_identities p) @ map ixs_name (tbs_indexes p))"
    and "object_name p n ''idx'' k \<noteq> k"
  shows "object_name p n ''idx'' k \<notin> set (map ids_name (tbs_identities p) @ map ixs_name (tbs_indexes p))"
proof -
  have "object_name p n ''idx'' k \<in> snd ` set (index_renames p n)"
    using assms(2,3) by (force simp: index_renames_eq)
  then show ?thesis using assms(1) unfolding names_free_def by blast
qed

lemma names_free_constraint:
  assumes "names_free p n" and "k \<in> set (map cks_name (tbs_checks p))"
    and "object_name p n ''ck'' k \<noteq> k"
  shows "object_name p n ''ck'' k \<notin> set (map cks_name (tbs_checks p) @ map rfs_name (tbs_references p))"
proof -
  have "object_name p n ''ck'' k \<in> snd ` set (constraint_renames p n)"
    using assms(2,3) by (force simp: constraint_renames_eq)
  then show ?thesis using assms(1) unfolding names_free_def by blast
qed

lemma names_free_reference:
  assumes "names_free p n" and "k \<in> set (map rfs_name (tbs_references p))"
    and "object_name p n ''fk'' k \<noteq> k"
  shows "object_name p n ''fk'' k \<notin> set (map cks_name (tbs_checks p) @ map rfs_name (tbs_references p))"
proof -
  have "object_name p n ''fk'' k \<in> snd ` set (constraint_renames p n)"
    using assms(2,3) by (force simp: constraint_renames_eq)
  then show ?thesis using assms(1) unfolding names_free_def by blast
qed

lemma check_reference_apart:
  assumes "object_name p n ''ck'' a \<noteq> a" and "object_name p n ''fk'' b \<noteq> b"
    and "object_name p n ''ck'' a = object_name p n ''fk'' b"
  shows "a = b"
  using assms by (auto simp: object_name_def rewrite_name_def object_prefix_def split: if_splits)

text \<open>
  The renames of two kinds of object that share names: what the operations need of the table and
  what they leave.
\<close>

lemma run_index_renames:
  assumes ok: "well_named p" and free: "names_free p n"
    and t: "lt_identities t = keyed ids_name id (tbs_identities p)" "lt_indexes t = keyed ixs_name id (tbs_indexes p)"
  shows "run_all alter_table (map (\<lambda>(o', k). RenameIndex n o' k) (index_renames p n)) t =
           Some (t\<lparr>lt_identities := keyed ids_name id (tbs_identities (renamed n p)),
                   lt_indexes := keyed ixs_name id (tbs_indexes (renamed n p))\<rparr>)"
proof -
  let ?f = "object_name p n ''idx''" and ?g = "object_name p n ''idx''"
  let ?A = "renamed_pairs ids_name (tbs_identities p) (tbs_identities (renamed n p))"
  let ?B = "renamed_pairs ixs_name (tbs_indexes p) (tbs_indexes (renamed n p))"
  have all: "distinct (map ids_name (tbs_identities p) @ map ixs_name (tbs_indexes p))"
    using ok by (simp add: well_named_def)
  have names: "distinct (map ids_name (tbs_identities p))" "distinct (map ixs_name (tbs_indexes p))"
    using all by simp_all
  have free1: "\<And>x. x \<in> set (tbs_identities p) \<Longrightarrow> ?f (ids_name x) \<noteq> ids_name x \<Longrightarrow> ?f (ids_name x) \<notin> ids_name ` set (tbs_identities p)"
    and free2: "\<And>x. x \<in> set (tbs_indexes p) \<Longrightarrow> ?g (ixs_name x) \<noteq> ixs_name x \<Longrightarrow> ?g (ixs_name x) \<notin> ixs_name ` set (tbs_indexes p)"
    using names_free_index [OF free] names_free_index [OF free] by auto
  have a: "?A = renamed_pairs ids_name (tbs_identities p) (map (\<lambda>x. (\<lambda>k. ids_name_update (\<lambda>_. k)) (?f (ids_name x)) x) (tbs_identities p))"
    and b: "?B = renamed_pairs ixs_name (tbs_indexes p) (map (\<lambda>x. (\<lambda>k. ixs_name_update (\<lambda>_. k)) (?g (ixs_name x)) x) (tbs_indexes p))"
    by (simp_all add: renamed_parts)
  note A = renamed_pairs_keyed [where put_name = "\<lambda>k. ids_name_update (\<lambda>_. k)", OF names(1) _ _ free1 object_name_inj a]
  note B = renamed_pairs_keyed [where put_name = "\<lambda>k. ixs_name_update (\<lambda>_. k)", OF names(2) _ _ free2 object_name_inj b]
  let ?t = "t\<lparr>lt_identities := keyed ids_name id (tbs_identities (renamed n p))\<rparr>"
  have apply1: "renames_apply ?A (lt_identities t)" unfolding t by (rule A(2)) simp_all
  have map1: "renamed_map (\<lambda>k. ids_name_update (\<lambda>_. k)) ?A (lt_identities t) = keyed ids_name id (tbs_identities (renamed n p))"
    unfolding t by (subst A(3)) (simp_all add: renamed_parts)
  have "\<forall>(o', k) \<in> set ?A. lt_indexes t k = None"
    using names_free_index [OF free] by (auto simp: A(1) t keyed_None_iff)
  then have run1: "run_all alter_table (map (\<lambda>(o', k). RenameIndex n o' k) ?A) t = Some ?t"
    using index_names.run_first [OF apply1, where table = n] by (simp only: map1)
  have same: "lt_indexes ?t = lt_indexes t" by simp
  have apply2: "renames_apply ?B (lt_indexes ?t)" unfolding same t by (rule B(2)) simp_all
  have map2: "renamed_map (\<lambda>k. ixs_name_update (\<lambda>_. k)) ?B (lt_indexes ?t) = keyed ixs_name id (tbs_indexes (renamed n p))"
    unfolding same t by (subst B(3)) (simp_all add: renamed_parts)
  have "\<forall>(o', k) \<in> set ?B. lt_identities ?t o' = None \<and> lt_identities ?t k = None"
  proof
    fix e assume "e \<in> set ?B"
    then obtain y where y: "y \<in> set (tbs_indexes p)" "?g (ixs_name y) \<noteq> ixs_name y" and e: "e = (ixs_name y, ?g (ixs_name y))"
      by (auto simp: B(1))
    have "ixs_name y \<notin> (\<lambda>x. ?f (ids_name x)) ` set (tbs_identities p) \<and> ?g (ixs_name y) \<notin> (\<lambda>x. ?f (ids_name x)) ` set (tbs_identities p)"
      by (rule moved_apart [where ?name1.0 = ids_name and ?name2.0 = ixs_name and f = ?f and g = ?g, OF all _ _ object_name_inj y])
        (use names_free_index [OF free] names_free_index [OF free] in auto)
    then show "case e of (o', k) \<Rightarrow> lt_identities ?t o' = None \<and> lt_identities ?t k = None"
      by (simp add: e keyed_None_iff renamed_parts image_image)
  qed
  then have run2: "run_all alter_table (map (\<lambda>(o', k). RenameIndex n o' k) ?B) ?t =
      Some (?t\<lparr>lt_indexes := keyed ixs_name id (tbs_indexes (renamed n p))\<rparr>)"
    using index_names.run_second [OF apply2, where table = n] by (simp only: map2)
  show ?thesis
    by (simp only: index_renames_def map_append run_all_append run1 run2 bind.simps)
qed

lemma run_constraint_renames:
  assumes ok: "well_named p" and free: "names_free p n"
    and t: "lt_checks t = keyed cks_name id (tbs_checks p)" "lt_references t = keyed rfs_name id (tbs_references p)"
  shows "run_all alter_table (map (\<lambda>(o', k). RenameConstraint n o' k) (constraint_renames p n)) t =
           Some (t\<lparr>lt_checks := keyed cks_name id (tbs_checks (renamed n p)),
                   lt_references := keyed rfs_name id (tbs_references (renamed n p))\<rparr>)"
proof -
  let ?f = "object_name p n ''ck''" and ?g = "object_name p n ''fk''"
  let ?A = "renamed_pairs cks_name (tbs_checks p) (tbs_checks (renamed n p))"
  let ?B = "renamed_pairs rfs_name (tbs_references p) (tbs_references (renamed n p))"
  have all: "distinct (map cks_name (tbs_checks p) @ map rfs_name (tbs_references p))"
    using ok by (simp add: well_named_def)
  have names: "distinct (map cks_name (tbs_checks p))" "distinct (map rfs_name (tbs_references p))"
    using all by simp_all
  have free1: "\<And>x. x \<in> set (tbs_checks p) \<Longrightarrow> ?f (cks_name x) \<noteq> cks_name x \<Longrightarrow> ?f (cks_name x) \<notin> cks_name ` set (tbs_checks p)"
    and free2: "\<And>x. x \<in> set (tbs_references p) \<Longrightarrow> ?g (rfs_name x) \<noteq> rfs_name x \<Longrightarrow> ?g (rfs_name x) \<notin> rfs_name ` set (tbs_references p)"
    using names_free_constraint [OF free] names_free_reference [OF free] by auto
  have a: "?A = renamed_pairs cks_name (tbs_checks p) (map (\<lambda>x. (\<lambda>k. cks_name_update (\<lambda>_. k)) (?f (cks_name x)) x) (tbs_checks p))"
    and b: "?B = renamed_pairs rfs_name (tbs_references p) (map (\<lambda>x. (\<lambda>k. rfs_name_update (\<lambda>_. k)) (?g (rfs_name x)) x) (tbs_references p))"
    by (simp_all add: renamed_parts)
  note A = renamed_pairs_keyed [where put_name = "\<lambda>k. cks_name_update (\<lambda>_. k)", OF names(1) _ _ free1 object_name_inj a]
  note B = renamed_pairs_keyed [where put_name = "\<lambda>k. rfs_name_update (\<lambda>_. k)", OF names(2) _ _ free2 object_name_inj b]
  let ?t = "t\<lparr>lt_checks := keyed cks_name id (tbs_checks (renamed n p))\<rparr>"
  have apply1: "renames_apply ?A (lt_checks t)" unfolding t by (rule A(2)) simp_all
  have map1: "renamed_map (\<lambda>k. cks_name_update (\<lambda>_. k)) ?A (lt_checks t) = keyed cks_name id (tbs_checks (renamed n p))"
    unfolding t by (subst A(3)) (simp_all add: renamed_parts)
  have "\<forall>(o', k) \<in> set ?A. lt_references t k = None"
    using names_free_constraint [OF free] by (auto simp: A(1) t keyed_None_iff)
  then have run1: "run_all alter_table (map (\<lambda>(o', k). RenameConstraint n o' k) ?A) t = Some ?t"
    using constraint_names.run_first [OF apply1, where table = n] by (simp only: map1)
  have same: "lt_references ?t = lt_references t" by simp
  have apply2: "renames_apply ?B (lt_references ?t)" unfolding same t by (rule B(2)) simp_all
  have map2: "renamed_map (\<lambda>k. rfs_name_update (\<lambda>_. k)) ?B (lt_references ?t) = keyed rfs_name id (tbs_references (renamed n p))"
    unfolding same t by (subst B(3)) (simp_all add: renamed_parts)
  have "\<forall>(o', k) \<in> set ?B. lt_checks ?t o' = None \<and> lt_checks ?t k = None"
  proof
    fix e assume "e \<in> set ?B"
    then obtain y where y: "y \<in> set (tbs_references p)" "?g (rfs_name y) \<noteq> rfs_name y" and e: "e = (rfs_name y, ?g (rfs_name y))"
      by (auto simp: B(1))
    have "rfs_name y \<notin> (\<lambda>x. ?f (cks_name x)) ` set (tbs_checks p) \<and> ?g (rfs_name y) \<notin> (\<lambda>x. ?f (cks_name x)) ` set (tbs_checks p)"
      by (rule moved_apart [where ?name1.0 = cks_name and ?name2.0 = rfs_name and f = ?f and g = ?g, OF all _ _ check_reference_apart y])
        (use names_free_constraint [OF free] names_free_reference [OF free] in auto)
    then show "case e of (o', k) \<Rightarrow> lt_checks ?t o' = None \<and> lt_checks ?t k = None"
      by (simp add: e keyed_None_iff renamed_parts image_image)
  qed
  then have run2: "run_all alter_table (map (\<lambda>(o', k). RenameConstraint n o' k) ?B) ?t =
      Some (?t\<lparr>lt_references := keyed rfs_name id (tbs_references (renamed n p))\<rparr>)"
    using constraint_names.run_second [OF apply2, where table = n] by (simp only: map2)
  show ?thesis
    by (simp only: constraint_renames_def map_append run_all_append run1 run2 bind.simps)
qed

lemma run_rename_objects:
  assumes "well_named p" and "names_free p n"
  shows "run_all alter_table (rename_objects p n) (live_of p) = Some (live_of (renamed n p))"
proof -
  let ?t = "(live_of p)\<lparr>lt_identities := keyed ids_name id (tbs_identities (renamed n p)),
                   lt_indexes := keyed ixs_name id (tbs_indexes (renamed n p))\<rparr>"
  have ops: "rename_objects p n = map (\<lambda>(o', k). RenameIndex n o' k) (index_renames p n) @
      map (\<lambda>(o', k). RenameConstraint n o' k) (constraint_renames p n)"
    by (simp add: rename_objects_def index_renames_def constraint_renames_def Let_def)
  have one: "run_all alter_table (map (\<lambda>(o', k). RenameIndex n o' k) (index_renames p n)) (live_of p) = Some ?t"
    by (rule run_index_renames [OF assms]) (simp_all add: live_of_def)
  have two: "run_all alter_table (map (\<lambda>(o', k). RenameConstraint n o' k) (constraint_renames p n)) ?t =
      Some (?t\<lparr>lt_checks := keyed cks_name id (tbs_checks (renamed n p)),
              lt_references := keyed rfs_name id (tbs_references (renamed n p))\<rparr>)"
    by (rule run_constraint_renames [OF assms]) (simp_all add: live_of_def)
  have "?t\<lparr>lt_checks := keyed cks_name id (tbs_checks (renamed n p)),
              lt_references := keyed rfs_name id (tbs_references (renamed n p))\<rparr> = live_of (renamed n p)"
    by (simp add: live_of_def renamed_parts)
  then show ?thesis by (simp only: ops run_all_append one two bind.simps)
qed

lemma well_named_renamed:
  assumes ok: "well_named p" and free: "names_free p n"
  shows "well_named (renamed n p)"
proof -
  have part: "distinct (map name1 xs) \<Longrightarrow> distinct (map name2 ys) \<Longrightarrow>
      name1 ` set xs \<inter> name2 ` set ys = {} \<Longrightarrow> distinct (map name1 xs @ map name2 ys)"
    for name1 :: "'a \<Rightarrow> string" and name2 :: "'b \<Rightarrow> string" and xs ys
    by simp
  have all: "distinct (map ids_name (tbs_identities p) @ map ixs_name (tbs_indexes p))"
      "distinct (map cks_name (tbs_checks p) @ map rfs_name (tbs_references p))"
    using ok by (simp_all add: well_named_def)
  have apart1: "name2' \<notin> (\<lambda>i. object_name p n ''idx'' (ids_name i)) ` set (tbs_identities p)"
    if k: "name2' \<in> (\<lambda>i. object_name p n ''idx'' (ixs_name i)) ` set (tbs_indexes p)" for name2'
  proof -
    obtain y where y: "y \<in> set (tbs_indexes p)" "name2' = object_name p n ''idx'' (ixs_name y)" using k by auto
    show ?thesis
    proof (cases "object_name p n ''idx'' (ixs_name y) = ixs_name y")
      case True
      have "ixs_name y \<noteq> object_name p n ''idx'' (ids_name x)" if "x \<in> set (tbs_identities p)" for x
        using names_free_index [OF free, of "ids_name x"] imageI [OF that, of ids_name] imageI [OF y(1), of ixs_name] all(1)
        by (cases "object_name p n ''idx'' (ids_name x) = ids_name x") (auto simp: disjoint_iff)
      then show ?thesis using True y by auto
    next
      case False
      have "ixs_name y \<notin> (\<lambda>i. object_name p n ''idx'' (ids_name i)) ` set (tbs_identities p) \<and>
          object_name p n ''idx'' (ixs_name y) \<notin> (\<lambda>i. object_name p n ''idx'' (ids_name i)) ` set (tbs_identities p)"
        by (rule moved_apart [where ?name1.0 = ids_name and ?name2.0 = ixs_name and
              f = "object_name p n ''idx''" and g = "object_name p n ''idx''", OF all(1) _ _ object_name_inj y(1) False]) (use names_free_index [OF free] in auto)
      then show ?thesis unfolding y(2) by (rule conjunct2)
    qed
  qed
  have apart2: "name2' \<notin> (\<lambda>i. object_name p n ''ck'' (cks_name i)) ` set (tbs_checks p)"
    if k: "name2' \<in> (\<lambda>i. object_name p n ''fk'' (rfs_name i)) ` set (tbs_references p)" for name2'
  proof -
    obtain y where y: "y \<in> set (tbs_references p)" "name2' = object_name p n ''fk'' (rfs_name y)" using k by auto
    show ?thesis
    proof (cases "object_name p n ''fk'' (rfs_name y) = rfs_name y")
      case True
      have "rfs_name y \<noteq> object_name p n ''ck'' (cks_name x)" if "x \<in> set (tbs_checks p)" for x
        using names_free_constraint [OF free, of "cks_name x"] imageI [OF that, of cks_name] imageI [OF y(1), of rfs_name] all(2)
        by (cases "object_name p n ''ck'' (cks_name x) = cks_name x") (auto simp: disjoint_iff)
      then show ?thesis using True y by auto
    next
      case False
      have "rfs_name y \<notin> (\<lambda>i. object_name p n ''ck'' (cks_name i)) ` set (tbs_checks p) \<and>
          object_name p n ''fk'' (rfs_name y) \<notin> (\<lambda>i. object_name p n ''ck'' (cks_name i)) ` set (tbs_checks p)"
        by (rule moved_apart [where ?name1.0 = cks_name and ?name2.0 = rfs_name and
              f = "object_name p n ''ck''" and g = "object_name p n ''fk''", OF all(2) _ _ check_reference_apart y(1) False])
          (use names_free_constraint [OF free] names_free_reference [OF free] in auto)
      then show ?thesis unfolding y(2) by (rule conjunct2)
    qed
  qed
  have "distinct (map ids_name (tbs_identities (renamed n p)))"
    unfolding renamed_parts
    by (rule renamed_pairs_keyed(4) [where f = "object_name p n ''idx''" and
          put_name = "\<lambda>k. ids_name_update (\<lambda>_. k)", OF _ _ _ _ object_name_inj refl])
      (use all names_free_index [OF free] in auto)
  moreover have "distinct (map ixs_name (tbs_indexes (renamed n p)))"
    unfolding renamed_parts
    by (rule renamed_pairs_keyed(4) [where f = "object_name p n ''idx''" and
          put_name = "\<lambda>k. ixs_name_update (\<lambda>_. k)", OF _ _ _ _ object_name_inj refl])
      (use all names_free_index [OF free] in auto)
  moreover have "distinct (map cks_name (tbs_checks (renamed n p)))"
    unfolding renamed_parts
    by (rule renamed_pairs_keyed(4) [where f = "object_name p n ''ck''" and
          put_name = "\<lambda>k. cks_name_update (\<lambda>_. k)", OF _ _ _ _ object_name_inj refl])
      (use all names_free_constraint [OF free] in auto)
  moreover have "distinct (map rfs_name (tbs_references (renamed n p)))"
    unfolding renamed_parts
    by (rule renamed_pairs_keyed(4) [where f = "object_name p n ''fk''" and
          put_name = "\<lambda>k. rfs_name_update (\<lambda>_. k)", OF _ _ _ _ object_name_inj refl])
      (use all names_free_reference [OF free] in auto)
  moreover have "ids_name ` set (tbs_identities (renamed n p)) \<inter> ixs_name ` set (tbs_indexes (renamed n p)) = {}"
    unfolding renamed_parts using apart1 by (auto simp: image_image)
  moreover have "cks_name ` set (tbs_checks (renamed n p)) \<inter> rfs_name ` set (tbs_references (renamed n p)) = {}"
    unfolding renamed_parts using apart2 by (auto simp: image_image)
  ultimately show ?thesis
    using ok part unfolding well_named_def by (simp add: renamed_parts(5,6))
qed

text \<open>The renames undone, last first.\<close>

lemma live_consistent:
  assumes "well_named t"
  shows "index_names.consistent (live_of t)" and "constraint_names.consistent (live_of t)"
proof -
  have "ids_name ` set (tbs_identities t) \<inter> ixs_name ` set (tbs_indexes t) = {}"
    and "cks_name ` set (tbs_checks t) \<inter> rfs_name ` set (tbs_references t) = {}"
    using assms by (simp_all add: well_named_def)
  then show "index_names.consistent (live_of t)" and "constraint_names.consistent (live_of t)"
    by (auto simp: index_names.consistent_def constraint_names.consistent_def live_of_def keyed_None_iff
        dest!: keyed_SomeD)
qed

lemma rename_index_other:
  "alter_table (RenameIndex tb a b) t = Some t' \<Longrightarrow> constraint_names.consistent t' = constraint_names.consistent t"
  by (auto simp: constraint_names.consistent_def split: if_splits)

lemma rename_constraint_other:
  "alter_table (RenameConstraint tb a b) t = Some t' \<Longrightarrow> index_names.consistent t' = index_names.consistent t"
  by (auto simp: index_names.consistent_def split: if_splits)

definition is_rename :: "schema_operation \<Rightarrow> bool" where
  "is_rename op = (case op of RenameIndex _ _ _ \<Rightarrow> True | RenameConstraint _ _ _ \<Rightarrow> True | _ \<Rightarrow> False)"

lemma rename_inverted:
  assumes "alter_table op t = Some t'" and "is_rename op"
    and "index_names.consistent t" and "constraint_names.consistent t"
  shows "alter_table (invert_rename op) t' = Some t \<and> index_names.consistent t' \<and> constraint_names.consistent t'"
proof (cases op)
  case (RenameIndex tb a b)
  then show ?thesis
    using index_names.rename_undone [of tb a b t t'] rename_index_other [of tb a b t t'] assms
    by (simp del: alter_table.simps)
next
  case (RenameConstraint tb a b)
  then show ?thesis
    using constraint_names.rename_undone [of tb a b t t'] rename_constraint_other [of tb a b t t'] assms
    by (simp del: alter_table.simps)
qed (use assms(2) in \<open>simp_all add: is_rename_def\<close>)

lemma run_inverted:
  "run_all alter_table ops t = Some t' \<Longrightarrow> \<forall>op \<in> set ops. is_rename op \<Longrightarrow>
   index_names.consistent t \<Longrightarrow> constraint_names.consistent t \<Longrightarrow>
   run_all alter_table (map invert_rename (rev ops)) t' = Some t"
proof (induction ops arbitrary: t)
  case (Cons op ops)
  obtain t1 where t1: "alter_table op t = Some t1" "run_all alter_table ops t1 = Some t'"
    using Cons.prems(1) by (cases "alter_table op t") auto
  then show ?case
    using Cons.IH [OF t1(2)] rename_inverted [OF t1(1)] Cons.prems by (simp del: alter_table.simps)
qed simp

lemma run_unrename_objects:
  assumes "well_named p" and "names_free p n"
  shows "run_all alter_table (unrename_objects p n) (live_of (renamed n p)) = Some (live_of p)"
  unfolding unrename_objects_def
  by (rule run_inverted [OF run_rename_objects [OF assms] _ live_consistent [OF assms(1)]])
    (auto simp: rename_objects_def is_rename_def Let_def)

lemma rename_objects_on:
  "\<forall>op \<in> set (rename_objects p n). altered_table op = Some n"
  "\<forall>op \<in> set (unrename_objects p n). altered_table op = Some n"
  by (auto simp: unrename_objects_def rename_objects_def Let_def)

section \<open>Answers\<close>

definition asks :: "(string \<Rightarrow> string list \<Rightarrow> rename_question) \<Rightarrow> bool" where
  "asks mk \<longleftrightarrow> (\<forall>a c. rq_added (mk a c) = a \<and> rq_candidates (mk a c) = c)"

lemma asks_table [simp]: "asks table_question"
  by (simp add: asks_def table_question_def)

lemma asks_column [simp]: "asks (column_question table)"
  by (simp add: asks_def column_question_def)

lemma settled:
  assumes "settle_question q r = (renamed', asked)"
  shows "renamed' = [] \<or> (\<exists>c \<in> set (rq_candidates q). renamed' = [(c, rq_added q)])"
  using assms by (auto simp: settle_question_def split: resolution.splits if_splits)

lemma ask_renames_ok:
  assumes "ask_renames resolve mk removed added rn un s = (rn', un', s')" and "asks mk"
    and "distinct (map fst rn)" and "distinct (map snd rn @ added)" and "fst ` set rn \<subseteq> set removed"
  shows "distinct (map fst rn') \<and> distinct (map snd rn') \<and> fst ` set rn' \<subseteq> set removed \<and>
    snd ` set rn' \<subseteq> snd ` set rn \<union> set added"
  using assms
proof (induction resolve mk removed added rn un s rule: ask_renames.induct)
  case (1 resolve mk removed rn un s)
  then show ?case by simp
next
  case (2 resolve mk removed a rest rn un s)
  let ?c = "filter (\<lambda>c. c \<notin> set (map fst rn)) removed"
  show ?case
  proof (cases "?c = []")
    case True
    have "distinct (map fst rn') \<and> distinct (map snd rn') \<and> fst ` set rn' \<subseteq> set removed \<and>
        snd ` set rn' \<subseteq> snd ` set rn \<union> set rest"
      by (rule "2.IH"(1) [OF refl True]) (use "2.prems" True in \<open>simp_all add: Let_def\<close>)
    then show ?thesis by auto
  next
    case False
    obtain r s1 where r: "resolve s (mk a ?c) = (r, s1)" by (cases "resolve s (mk a ?c)")
    obtain more' asked' where so: "settle_question (mk a ?c) r = (more', asked')"
      by (cases "settle_question (mk a ?c) r")
    have run: "ask_renames resolve mk removed rest (rn @ more') (un @ asked') s1 = (rn', un', s')"
      using "2.prems"(1) False r so by (simp add: Let_def)
    have more': "more' = [] \<or> (\<exists>c \<in> set removed. c \<notin> set (map fst rn) \<and> more' = [(c, a)])"
      using settled [OF so] "2.prems"(2) by (auto simp: asks_def)
    have "distinct (map fst rn') \<and> distinct (map snd rn') \<and> fst ` set rn' \<subseteq> set removed \<and>
        snd ` set rn' \<subseteq> snd ` set (rn @ more') \<union> set rest"
    proof (rule "2.IH"(2) [OF refl False refl r [symmetric] refl so [symmetric] refl run "2.prems"(2)])
      show "distinct (map fst (rn @ more'))" using more' "2.prems"(3) by (elim disjE bexE conjE) (simp_all add: image_set [symmetric])
      show "distinct (map snd (rn @ more') @ rest)" using more' "2.prems"(4)
        by (elim disjE bexE conjE) (auto simp: image_set [symmetric] simp del: set_map)
      show "fst ` set (rn @ more') \<subseteq> set removed" using more' "2.prems"(5) by auto
    qed
    then show ?thesis using more' by auto
  qed
qed

section \<open>Renames of columns, forwards and back\<close>

lemma renames_ok_inverse:
  "renames_ok old new rn \<Longrightarrow> renames_ok new old (map (\<lambda>(o', n). (n, o')) rn)"
  by (auto simp: renames_ok_def comp_def split_beta)

lemma old_match_renamed:
  assumes "renames_ok old new rn" and "(o', cln_name c) \<in> set rn"
  shows "old_match old rn c = find_column old o'"
  using find_rename_Some [of rn o' "cln_name c"] assms by (simp add: old_match_def renames_ok_def)

lemma old_match_same:
  assumes "cln_name c \<notin> snd ` set rn"
  shows "old_match old rn c = find_column old (cln_name c)"
  using find_rename_None [of "cln_name c" rn] assms by (simp add: old_match_def del: find_None_iff)

lemma find_column_iff:
  assumes "well_named t"
  shows "find_column t k = Some c \<longleftrightarrow> c \<in> set (tbs_columns t) \<and> cln_name c = k"
  using keyed_in [of cln_name "tbs_columns t" c id] assms
  by (auto simp: find_column_keyed well_named_def dest: keyed_SomeD)

lemma keys_stay_inverse:
  assumes old: "well_named old" and new: "well_named new" and ok: "renames_ok old new rn"
    and keys: "keys_stay old new rn"
  shows "keys_stay new old (map (\<lambda>(o', n). (n, o')) rn)" (is "keys_stay new old ?undo")
  unfolding keys_stay_def
proof (intro ballI allI impI)
  fix c d assume c: "c \<in> set (tbs_columns old)" and d: "old_match new ?undo c = Some d"
  note backward = renames_ok_inverse [OF ok]
  show "cln_is_primary_key d = cln_is_primary_key c"
  proof (cases "cln_name c \<in> snd ` set ?undo")
    case True
    then obtain n where n: "(cln_name c, n) \<in> set rn" by auto
    then have "(n, cln_name c) \<in> set ?undo" by force
    then have dn: "d \<in> set (tbs_columns new)" "cln_name d = n"
      using old_match_renamed [OF backward] d find_column_iff [OF new] by auto
    then have "old_match old rn d = find_column old (cln_name c)"
      using old_match_renamed [OF ok] n by simp
    then have "old_match old rn d = Some c" using find_column_iff [OF old] c by simp
    then show ?thesis using keys dn by (auto simp: keys_stay_def)
  next
    case False
    then have dn: "d \<in> set (tbs_columns new)" "cln_name d = cln_name c"
      using old_match_same [OF False] d find_column_iff [OF new] by auto
    have "has_column old (cln_name c)" using c by (auto simp: has_column_def)
    then have "cln_name d \<notin> snd ` set rn" using ok dn by (auto simp: renames_ok_def)
    then have "old_match old rn d = Some c"
      using old_match_same find_column_iff [OF old] c dn by simp
    then show ?thesis using keys dn by (auto simp: keys_stay_def)
  qed
qed

text \<open>The columns are all a rename of a column asks about, and a table's new name leaves them.\<close>

lemma renames_ok_renamed: "renames_ok (renamed n p) new rn = renames_ok p new rn"
  by (simp add: renames_ok_def has_column_def renamed_parts)

lemma keys_stay_renamed: "keys_stay (renamed n p) new rn = keys_stay p new rn"
proof -
  have same: "find_column (renamed n p) = find_column p" by (simp add: fun_eq_iff find_column_def renamed_parts)
  have "old_match (renamed n p) rn = old_match p rn" unfolding old_match_def [abs_def] same by (rule refl)
  then show ?thesis by (simp add: keys_stay_def)
qed

section \<open>Targets\<close>

lemma plan_table_ok:
  assumes "plan_table resolve drop_columns incoming previous s = (rn, un, kept, s')"
    and inc: "well_named incoming" and prev: "well_named previous"
    and target: "target = incoming\<lparr>tbs_columns := tbs_columns incoming @ kept\<rparr>"
  shows "renames_ok previous target rn \<and> well_named target \<and>
    (\<not> drop_columns \<longrightarrow> (\<forall>c \<in> set (tbs_columns previous). has_column target (cln_name c) \<or> cln_name c \<in> fst ` set rn))"
proof -
  let ?added = "filter (\<lambda>c. \<not> has_column previous (cln_name c)) (tbs_columns incoming)"
  let ?removed = "filter (\<lambda>c. \<not> has_column incoming (cln_name c)) (tbs_columns previous)"
  let ?kept = "if drop_columns then [] else filter (\<lambda>c. cln_name c \<notin> set (map fst rn)) ?removed"
  have names: "distinct (map cln_name (tbs_columns incoming))" "distinct (map cln_name (tbs_columns previous))"
    using inc prev by (simp_all add: well_named_def)
  have asked: "ask_renames resolve (column_question (tbs_table incoming)) (map cln_name ?removed) (map cln_name ?added)
      [] [] s = (rn, un, s')" and kept: "kept = ?kept"
    using assms(1) by (auto simp: plan_table_def Let_def split: prod.splits)
  have "distinct (map fst rn) \<and> distinct (map snd rn) \<and> fst ` set rn \<subseteq> set (map cln_name ?removed) \<and>
      snd ` set rn \<subseteq> snd ` set ([] :: (string \<times> string) list) \<union> set (map cln_name ?added)"
    by (rule ask_renames_ok [OF asked]) (use distinct_map_filter [OF names(1)] in simp_all)
  then have rn: "distinct (map fst rn)" "distinct (map snd rn)"
      "fst ` set rn \<subseteq> cln_name ` set ?removed" "snd ` set rn \<subseteq> cln_name ` set ?added" by simp_all
  have target_has: "has_column target k \<longleftrightarrow> has_column incoming k \<or> k \<in> cln_name ` set kept" for k
    by (auto simp: target has_column_def)
  have kept_out: "k \<in> cln_name ` set kept \<Longrightarrow> \<not> has_column incoming k \<and> k \<notin> fst ` set rn \<and> has_column previous k" for k
    by (auto simp: kept has_column_def split: if_splits)
  have went: "fst ` set rn \<subseteq> {k. has_column previous k \<and> \<not> has_column incoming k}"
    by (rule order_trans [OF rn(3)]) (auto simp: has_column_def)
  have came: "snd ` set rn \<subseteq> {k. has_column incoming k \<and> \<not> has_column previous k}"
    by (rule order_trans [OF rn(4)]) (auto simp: has_column_def)
  have ok: "renames_ok previous target rn"
    unfolding renames_ok_def
  proof (intro conjI rn(1,2) ballI)
    fix e assume e: "e \<in> set rn"
    obtain o' n where on: "e = (o', n)" by (cases e)
    have "o' \<in> fst ` set rn" "n \<in> snd ` set rn" using e on by force+
    then have "has_column previous o' \<and> \<not> has_column incoming o'"
      and "has_column incoming n \<and> \<not> has_column previous n"
      using subsetD [OF went] subsetD [OF came] by simp_all
    then show "case e of (o', n) \<Rightarrow>
        has_column previous o' \<and> \<not> has_column target o' \<and> has_column target n \<and> \<not> has_column previous n"
      using on target_has [of o'] target_has [of n] kept_out [of o'] \<open>o' \<in> fst ` set rn\<close> by simp blast
  qed
  have "distinct (map cln_name kept)"
    using distinct_map_filter [OF distinct_map_filter [OF names(2)]] by (simp add: kept)
  moreover have "cln_name ` set (tbs_columns incoming) \<inter> cln_name ` set kept = {}"
    using kept_out by (auto simp: has_column_def)
  ultimately have "well_named target"
    using inc by (simp add: well_named_def target)
  moreover have "has_column target (cln_name c) \<or> cln_name c \<in> fst ` set rn"
    if "\<not> drop_columns" "c \<in> set (tbs_columns previous)" for c
    using that target_has [of "cln_name c"] by (auto simp: kept)
  ultimately show ?thesis using ok by blast
qed

definition planned :: "bool \<Rightarrow> table_snapshot list \<Rightarrow> (string \<times> string) list \<Rightarrow> table_snapshot \<Rightarrow> (string \<times> string) list \<Rightarrow> bool" where
  "planned drop_columns olds tr target rn \<longleftrightarrow>
     well_named target \<and>
     (\<forall>p. previous_of olds tr (tbs_table target) = Some p \<longrightarrow>
        renames_ok p target rn \<and>
        (\<not> drop_columns \<longrightarrow>
           (\<forall>c \<in> set (tbs_columns p). has_column target (cln_name c) \<or> cln_name c \<in> fst ` set rn)))"

lemma renames_for_Cons [simp]:
  "renames_for ((t, rn) # by_table) table = (if t = table then rn else renames_for by_table table)"
  by (simp add: renames_for_def)

lemma renames_for_Nil [simp]: "renames_for [] table = []"
  by (simp add: renames_for_def)

lemma renames_for_absent: "table \<notin> fst ` set by_table \<Longrightarrow> renames_for by_table table = []"
  by (induction by_table) auto

lemma plan_targets_ok:
  assumes "plan_targets resolve drop_columns olds tr news s = (targets, by_table, un, drops, s')"
    and "distinct (map tbs_table news)" and "\<forall>t \<in> set news. well_named t"
    and "\<forall>t \<in> set news. \<forall>p. previous_of olds tr (tbs_table t) = Some p \<longrightarrow> well_named p"
  shows "map tbs_table targets = map tbs_table news \<and> distinct (map fst by_table) \<and>
    fst ` set by_table \<subseteq> tbs_table ` set news \<and>
    (\<forall>t \<in> set targets. planned drop_columns olds tr t (renames_for by_table (tbs_table t)))"
  using assms
proof (induction news arbitrary: s targets by_table un drops s')
  case Nil
  then show ?case by simp
next
  case (Cons incoming news)
  let ?table = "tbs_table incoming"
  have out: "?table \<notin> tbs_table ` set news" and names: "distinct (map tbs_table news)"
    using Cons.prems(2) by auto
  have rest: "map tbs_table ts = map tbs_table news \<and> distinct (map fst bt) \<and>
      fst ` set bt \<subseteq> tbs_table ` set news \<and>
      (\<forall>t \<in> set ts. planned drop_columns olds tr t (renames_for bt (tbs_table t)))"
    if "plan_targets resolve drop_columns olds tr news s1 = (ts, bt, u, d, s2)" for ts bt u d s1 s2
    using Cons.IH [OF that names] Cons.prems(3,4) by simp
  have tables: "tbs_table t \<noteq> ?table" if "t \<in> set ts" "map tbs_table ts = map tbs_table news" for t ts
    using that out by (metis image_eqI image_set)
  show ?case
  proof (cases "previous_of olds tr ?table")
    case None
    obtain ts bt u d s2 where run: "plan_targets resolve drop_columns olds tr news s = (ts, bt, u, d, s2)"
      by (cases "plan_targets resolve drop_columns olds tr news s") auto
    have eq: "targets = incoming # ts" "by_table = bt"
      using Cons.prems(1) None run by (simp_all add: Let_def)
    note r = rest [OF run]
    have "planned drop_columns olds tr incoming (renames_for bt ?table)"
      using None Cons.prems(3) by (simp add: planned_def)
    then show ?thesis using r eq by auto
  next
    case (Some p)
    obtain rn asked kept s1 where pt: "plan_table resolve drop_columns incoming p s = (rn, asked, kept, s1)"
      by (cases "plan_table resolve drop_columns incoming p s") auto
    obtain ts bt u d s2 where run: "plan_targets resolve drop_columns olds tr news s1 = (ts, bt, u, d, s2)"
      by (cases "plan_targets resolve drop_columns olds tr news s1") auto
    let ?target = "incoming\<lparr>tbs_columns := tbs_columns incoming @ kept\<rparr>"
    have eq: "targets = ?target # ts" "by_table = (if rn = [] then bt else (?table, rn) # bt)"
      using Cons.prems(1) Some pt run by (simp_all add: Let_def)
    note r = rest [OF run]
    have absent: "?table \<notin> fst ` set bt" using r out by auto
    have own: "renames_for by_table ?table = rn"
      using eq(2) renames_for_absent [OF absent] by simp
    have others: "renames_for by_table (tbs_table t) = renames_for bt (tbs_table t)" if "t \<in> set ts" for t
      using eq(2) tables [OF that] r by auto
    have "planned drop_columns olds tr ?target rn"
      using plan_table_ok [OF pt _ _ refl] Some Cons.prems(3,4) by (auto simp: planned_def)
    then show ?thesis using r eq absent own others by auto
  qed
qed

section \<open>Schemas\<close>

definition schema_ok :: "table_snapshot list \<Rightarrow> bool" where
  "schema_ok ts \<longleftrightarrow> distinct (map tbs_table ts) \<and> (\<forall>t \<in> set ts. well_named t)"

text \<open>Each rename takes a table that went to one that came, once.\<close>

definition tables_renamed :: "table_snapshot list \<Rightarrow> table_snapshot list \<Rightarrow> (string \<times> string) list \<Rightarrow> bool" where
  "tables_renamed olds news tr \<longleftrightarrow>
     distinct (map fst tr) \<and> distinct (map snd tr) \<and>
     (\<forall>(o', n) \<in> set tr. has_table olds o' \<and> \<not> has_table news o' \<and> has_table news n \<and> \<not> has_table olds n)"

lemma find_table_iff:
  assumes "schema_ok ts"
  shows "find_table ts k = Some t \<longleftrightarrow> t \<in> set ts \<and> tbs_table t = k"
proof -
  have "distinct (map tbs_table us) \<Longrightarrow> List.find (\<lambda>t. tbs_table t = k) us = Some t \<longleftrightarrow> t \<in> set us \<and> tbs_table t = k"
    for us by (induction us) (auto simp: image_iff)
  then show ?thesis using assms by (simp add: schema_ok_def find_table_def)
qed

lemma find_table_None: "find_table ts k = None \<longleftrightarrow> \<not> has_table ts k"
  by (auto simp: find_table_def has_table_def find_None_iff)

lemma database_find: "database_of ts k = map_option live_of (find_table ts k)"
proof -
  have "keyed tbs_table live_of us k = map_option live_of (List.find (\<lambda>t. tbs_table t = k) us)" for us
    by (induction us) auto
  then show ?thesis by (simp add: database_of_def find_table_def)
qed

lemma renamed_from_iff:
  assumes "schema_ok olds" and "tables_renamed olds news tr"
  shows "renamed_from olds tr k = Some p \<longleftrightarrow> (tbs_table p, k) \<in> set tr \<and> p \<in> set olds"
proof
  assume "renamed_from olds tr k = Some p"
  then show "(tbs_table p, k) \<in> set tr \<and> p \<in> set olds"
    using find_table_iff [OF assms(1)] by (auto simp: renamed_from_def dest: find_rename_SomeD split: option.splits)
next
  assume r: "(tbs_table p, k) \<in> set tr \<and> p \<in> set olds"
  then have "List.find (\<lambda>(_, n). n = k) tr = Some (tbs_table p, k)"
    using find_rename_Some [of tr "tbs_table p" k] assms(2) by (simp add: tables_renamed_def)
  moreover have "find_table olds (tbs_table p) = Some p" using r find_table_iff [OF assms(1)] by simp
  ultimately show "renamed_from olds tr k = Some p" by (simp add: renamed_from_def)
qed

lemma renamed_from_None:
  assumes "schema_ok olds" and "tables_renamed olds news tr"
  shows "renamed_from olds tr k = None \<longleftrightarrow> k \<notin> snd ` set tr"
proof -
  have "\<exists>p. renamed_from olds tr k = Some p" if k: "k \<in> snd ` set tr"
  proof -
    obtain o' where o': "(o', k) \<in> set tr" using k by auto
    then have "has_table olds o'" using assms(2) by (auto simp: tables_renamed_def)
    then obtain p where "p \<in> set olds" "tbs_table p = o'" by (auto simp: has_table_def)
    then show ?thesis using renamed_from_iff [OF assms, of k p] o' by auto
  qed
  moreover have "renamed_from olds tr k = None" if "k \<notin> snd ` set tr"
    using find_rename_None [of k tr] that by (simp add: renamed_from_def del: find_None_iff)
  ultimately show ?thesis by (metis option.distinct(1))
qed

section \<open>The operations of a target\<close>

text \<open>What has to be of a target's table before, and what its operations make of the database.\<close>

definition ready :: "table_snapshot list \<Rightarrow> (string \<times> string) list \<Rightarrow> table_snapshot \<Rightarrow> database \<Rightarrow> bool" where
  "ready olds tr t db \<longleftrightarrow>
     (case renamed_from olds tr (tbs_table t) of
        Some p \<Rightarrow> db (tbs_table p) = Some (live_of p) \<and> db (tbs_table t) = None
      | None \<Rightarrow> db (tbs_table t) = map_option live_of (find_table olds (tbs_table t)))"

definition placed :: "table_snapshot list \<Rightarrow> (string \<times> string) list \<Rightarrow> table_snapshot \<Rightarrow> database \<Rightarrow> database" where
  "placed olds tr t db =
     (case renamed_from olds tr (tbs_table t) of
        Some p \<Rightarrow> db(tbs_table p := None, tbs_table t \<mapsto> live_of t)
      | None \<Rightarrow> db(tbs_table t \<mapsto> live_of t))"

lemma run_rename_table:
  assumes "db o' = Some t" and "db n = None"
  shows "alter_database (RenameTable o' n) db = Some (db(o' := None, n \<mapsto> t))"
  using assms by (simp add: alter_database_def rename_key_def)

lemma run_plan_target:
  assumes olds: "schema_ok olds" and tr: "tables_renamed olds news tr"
    and plan: "planned drop_columns olds tr t (renames_for by_table (tbs_table t))"
    and keys: "\<And>p. previous_of olds tr (tbs_table t) = Some p \<Longrightarrow> keys_stay p t (renames_for by_table (tbs_table t))"
    and free: "\<And>p. renamed_from olds tr (tbs_table t) = Some p \<Longrightarrow> names_free p (tbs_table t)"
    and ready: "ready olds tr t db"
  shows "run_all alter_database (plan_operations olds tr by_table t) db = Some (placed olds tr t db)"
proof -
  let ?n = "tbs_table t" and ?rn = "renames_for by_table (tbs_table t)"
  have t_ok: "well_named t" using plan by (simp add: planned_def)
  show ?thesis
  proof (cases "renamed_from olds tr ?n")
    case (Some p)
    have p: "(tbs_table p, ?n) \<in> set tr" "p \<in> set olds" using renamed_from_iff [OF olds tr] Some by auto
    then have p_ok: "well_named p" using olds by (simp add: schema_ok_def)
    have none: "find_table olds ?n = None" using p(1) tr by (auto simp: tables_renamed_def find_table_None)
    then have prev: "previous_of olds tr ?n = Some (renamed ?n p)" by (simp add: previous_of_def Some)
    have here: "db (tbs_table p) = Some (live_of p)" "db ?n = None" using ready Some by (simp_all add: ready_def)
    let ?db1 = "db(tbs_table p := None, ?n \<mapsto> live_of p)"
    have rename: "alter_database (RenameTable (tbs_table p) ?n) db = Some ?db1"
      by (rule run_rename_table [OF here])
    have at1: "?db1 ?n = Some (live_of p)" by simp
    have "run_all alter_database (rename_objects p ?n) ?db1 = Some (?db1(?n \<mapsto> live_of (renamed ?n p)))"
      using run_on_table [where db = ?db1 and table = ?n, OF rename_objects_on(1) at1]
        run_rename_objects [OF p_ok free [OF Some]] by simp
    moreover have "run_all alter_database (diff_table (renamed ?n p) t ?rn) (?db1(?n \<mapsto> live_of (renamed ?n p))) =
        Some ((?db1(?n \<mapsto> live_of (renamed ?n p)))(?n \<mapsto> live_of t))"
      by (rule run_table_diff [OF well_named_renamed [OF p_ok free [OF Some]] t_ok])
        (use plan keys prev in \<open>auto simp: planned_def\<close>)
    ultimately show ?thesis
      using rename by (simp add: plan_operations_def Let_def Some diff_snapshots_with_renames_def placed_def)
  next
    case None
    show ?thesis
    proof (cases "find_table olds ?n")
      case missing: None
      have "db ?n = None" using ready None missing by (simp add: ready_def)
      then show ?thesis
        using run_create [OF t_ok] by (simp add: plan_operations_def Let_def None missing placed_def)
    next
      case (Some p)
      have p: "p \<in> set olds" "tbs_table p = ?n" using find_table_iff [OF olds] Some by auto
      then have p_ok: "well_named p" using olds by (simp add: schema_ok_def)
      have prev: "previous_of olds tr ?n = Some p" by (simp add: previous_of_def Some)
      have "db ?n = Some (live_of p)" using ready None Some by (simp add: ready_def)
      then have "run_all alter_database (diff_table p t ?rn) db = Some (db(?n \<mapsto> live_of t))"
        by (intro run_table_diff [OF p_ok t_ok]) (use plan keys prev in \<open>auto simp: planned_def\<close>)
      then show ?thesis
        by (simp add: plan_operations_def Let_def None Some diff_snapshots_with_renames_def placed_def)
    qed
  qed
qed

lemma ready_placed:
  assumes olds: "schema_ok olds" and tr: "tables_renamed olds news tr"
    and t: "has_table news (tbs_table t)" and u: "has_table news (tbs_table u)"
    and ne: "tbs_table u \<noteq> tbs_table t" and ready: "ready olds tr u db"
  shows "ready olds tr u (placed olds tr t db)"
proof -
  have source: "(tbs_table p, k) \<in> set tr \<Longrightarrow> \<not> has_table news (tbs_table p)" for p k
    using tr by (auto simp: tables_renamed_def)
  have once: "(o', k) \<in> set tr \<Longrightarrow> (o', k') \<in> set tr \<Longrightarrow> k = k'" for o' k k'
    using tr eq_key_imp_eq_value [of tr] by (auto simp: tables_renamed_def)
  show ?thesis
  proof (cases "renamed_from olds tr (tbs_table t)")
    case None
    have "tbs_table q \<noteq> tbs_table t" if "renamed_from olds tr (tbs_table u) = Some q" for q
      using that renamed_from_iff [OF olds tr, of "tbs_table u" q] source [of q] t by auto
    then show ?thesis
      using ready ne None by (auto simp: ready_def placed_def split: option.splits)
  next
    case (Some p)
    then have p: "(tbs_table p, tbs_table t) \<in> set tr" using renamed_from_iff [OF olds tr] by auto
    have "tbs_table p \<noteq> tbs_table u" using source [OF p] u by auto
    moreover have "tbs_table q \<noteq> tbs_table p \<and> tbs_table q \<noteq> tbs_table t"
      if "renamed_from olds tr (tbs_table u) = Some q" for q
      using that renamed_from_iff [OF olds tr, of "tbs_table u" q] source [of q] once [of "tbs_table p"] p ne t by auto
    ultimately show ?thesis
      using ready ne Some by (auto simp: ready_def placed_def split: option.splits)
  qed
qed

lemma run_plan_targets:
  assumes olds: "schema_ok olds" and tr: "tables_renamed olds news tr"
    and "distinct (map tbs_table ts)" and "\<forall>t \<in> set ts. has_table news (tbs_table t)"
    and "\<forall>t \<in> set ts. planned drop_columns olds tr t (renames_for by_table (tbs_table t))"
    and "\<forall>t \<in> set ts. \<forall>p. previous_of olds tr (tbs_table t) = Some p \<longrightarrow>
           keys_stay p t (renames_for by_table (tbs_table t))"
    and "\<forall>t \<in> set ts. \<forall>p. renamed_from olds tr (tbs_table t) = Some p \<longrightarrow> names_free p (tbs_table t)"
    and "\<forall>t \<in> set ts. ready olds tr t db"
  shows "run_all alter_database (concat (map (plan_operations olds tr by_table) ts)) db =
           Some (fold (placed olds tr) ts db)"
  using assms(3-)
proof (induction ts arbitrary: db)
  case (Cons t ts)
  have step: "run_all alter_database (plan_operations olds tr by_table t) db = Some (placed olds tr t db)"
    by (rule run_plan_target [OF olds tr]) (use Cons.prems in auto)
  have "run_all alter_database (concat (map (plan_operations olds tr by_table) ts)) (placed olds tr t db) =
      Some (fold (placed olds tr) ts (placed olds tr t db))"
  proof (rule Cons.IH)
    show "\<forall>u \<in> set ts. ready olds tr u (placed olds tr t db)"
    proof
      fix u assume u: "u \<in> set ts"
      have "tbs_table u \<noteq> tbs_table t" using Cons.prems(1) u by (auto simp: image_iff)
      then show "ready olds tr u (placed olds tr t db)"
        by (intro ready_placed [OF olds tr]) (use Cons.prems u in auto)
    qed
  qed (use Cons.prems in auto)
  then show ?case using step by simp
qed simp

lemma fold_placed:
  assumes olds: "schema_ok olds" and tr: "tables_renamed olds news tr"
    and "distinct (map tbs_table ts)" and "\<forall>t \<in> set ts. has_table news (tbs_table t)"
  shows "fold (placed olds tr) ts db k =
    (case find_table ts k of
       Some t \<Rightarrow> Some (live_of t)
     | None \<Rightarrow> if \<exists>t \<in> set ts. \<exists>p. renamed_from olds tr (tbs_table t) = Some p \<and> tbs_table p = k then None else db k)"
  using assms(3,4)
proof (induction ts arbitrary: db)
  case Nil
  then show ?case by (simp add: find_table_def)
next
  case (Cons t ts)
  have source: "renamed_from olds tr n = Some p \<Longrightarrow> \<not> has_table news (tbs_table p)" for p n
    using tr renamed_from_iff [OF olds tr, of n p] by (auto simp: tables_renamed_def)
  have IH: "fold (placed olds tr) ts (placed olds tr t db) k =
    (case find_table ts k of
       Some t \<Rightarrow> Some (live_of t)
     | None \<Rightarrow> if \<exists>t \<in> set ts. \<exists>p. renamed_from olds tr (tbs_table t) = Some p \<and> tbs_table p = k then None
               else placed olds tr t db k)"
    by (rule Cons.IH) (use Cons.prems in auto)
  have find: "find_table (t # ts) k = (if tbs_table t = k then Some t else find_table ts k)"
    by (simp add: find_table_def)
  show ?case
  proof (cases "tbs_table t = k")
    case True
    then have "find_table ts k = None" using Cons.prems(1) by (auto simp: find_table_None has_table_def image_iff)
    moreover have "placed olds tr t db k = Some (live_of t)" using True by (auto simp: placed_def split: option.splits)
    moreover have "\<not> (\<exists>t \<in> set ts. \<exists>p. renamed_from olds tr (tbs_table t) = Some p \<and> tbs_table p = k)"
      using source True Cons.prems(2) by (metis list.set_intros(1))
    ultimately show ?thesis using IH True find by simp
  next
    case False
    have "placed olds tr t db k =
        (if \<exists>p. renamed_from olds tr (tbs_table t) = Some p \<and> tbs_table p = k then None else db k)"
      using False by (auto simp: placed_def split: option.splits)
    then show ?thesis using IH False find by (auto split: option.splits)
  qed
qed

lemma run_table_drops:
  assumes "distinct (map tbs_table ps)"
    and "\<forall>p \<in> set ps. \<not> keep p \<longrightarrow> well_named p \<and> db (tbs_table p) = Some (live_of p)"
  shows "run_all alter_database (concat (map (\<lambda>p. if keep p then [] else diff_snapshots (Some p) None) ps)) db =
           Some (\<lambda>k. if \<exists>p \<in> set ps. \<not> keep p \<and> tbs_table p = k then None else db k)"
  using assms
proof (induction ps arbitrary: db)
  case (Cons p ps)
  have out: "\<forall>q \<in> set ps. tbs_table q \<noteq> tbs_table p" using Cons.prems(1) by (auto simp: image_iff)
  show ?case
  proof (cases "keep p")
    case True
    have "run_all alter_database (concat (map (\<lambda>p. if keep p then [] else diff_snapshots (Some p) None) ps)) db =
        Some (\<lambda>k. if \<exists>p \<in> set ps. \<not> keep p \<and> tbs_table p = k then None else db k)"
      by (rule Cons.IH) (use Cons.prems in auto)
    then show ?thesis using True by simp
  next
    case False
    let ?db = "db(tbs_table p := None)"
    have "run_all alter_database (concat (map (\<lambda>p. if keep p then [] else diff_snapshots (Some p) None) ps)) ?db =
        Some (\<lambda>k. if \<exists>p \<in> set ps. \<not> keep p \<and> tbs_table p = k then None else ?db k)"
      by (rule Cons.IH) (use Cons.prems out in auto)
    moreover have "run_all alter_database (diff_snapshots (Some p) None) db = Some ?db"
      unfolding diff_snapshots_def by (rule run_drop) (use Cons.prems False in auto)
    ultimately show ?thesis using False by (auto simp: fun_eq_iff)
  qed
qed simp

section \<open>Plans\<close>

definition renames_in :: "schema_plan \<Rightarrow> string \<Rightarrow> (string \<times> string) list" where
  "renames_in plan table = map snd (filter (\<lambda>(t, _). t = table) (sp_renames plan))"

text \<open>
  What a plan can't see: that the names renamed tables give their objects are free, and that no
  column becomes the primary key or stops being it.
\<close>

definition plan_clear :: "table_snapshot list \<Rightarrow> schema_plan \<Rightarrow> bool" where
  "plan_clear olds plan \<longleftrightarrow>
     (\<forall>(o', n) \<in> set (sp_table_renames plan). \<forall>p \<in> set olds. tbs_table p = o' \<longrightarrow> names_free p n) \<and>
     (\<forall>t \<in> set (sp_targets plan). \<forall>p. previous_of olds (sp_table_renames plan) (tbs_table t) = Some p \<longrightarrow>
        keys_stay p t (renames_in plan (tbs_table t)))"

lemma renames_in_for:
  "distinct (map fst by_table) \<Longrightarrow>
   map snd (filter (\<lambda>(t, _). t = table)
     (concat (map (\<lambda>(t, pairs). map (\<lambda>(o', n). (t, o', n)) pairs) by_table))) = renames_for by_table table"
proof (induction by_table)
  case (Cons e by_table)
  obtain t pairs where e: "e = (t, pairs)" by (cases e)
  have own: "map snd (filter (\<lambda>(t', _). t' = table) (map (\<lambda>(o', n). (t, o', n)) ps)) = (if t = table then ps else [])"
    for ps :: "(string \<times> string) list"
    by (induction ps) auto
  have "renames_for by_table t = []" if "t = table"
    by (rule renames_for_absent) (use Cons.prems e in auto)
  then show ?case using Cons own [of pairs] by (simp add: e)
qed simp

lemma tables_asked:
  assumes olds: "schema_ok olds" and news: "schema_ok news"
    and "ask_renames resolve table_question (map tbs_table (filter (\<lambda>t. \<not> has_table news (tbs_table t)) olds))
      (map tbs_table (filter (\<lambda>t. \<not> has_table olds (tbs_table t)) news)) [] [] s = (tr, asked, s1)"
  shows "tables_renamed olds news tr"
proof -
  let ?removed = "filter (\<lambda>t. \<not> has_table news (tbs_table t)) olds"
  let ?added = "filter (\<lambda>t. \<not> has_table olds (tbs_table t)) news"
  have "distinct (map fst tr) \<and> distinct (map snd tr) \<and> fst ` set tr \<subseteq> set (map tbs_table ?removed) \<and>
      snd ` set tr \<subseteq> snd ` set ([] :: (string \<times> string) list) \<union> set (map tbs_table ?added)"
    by (rule ask_renames_ok [OF assms(3)]) (use news distinct_map_filter in \<open>auto simp: schema_ok_def\<close>)
  then have tr: "distinct (map fst tr)" "distinct (map snd tr)"
    and sub: "fst ` set tr \<subseteq> tbs_table ` set ?removed" "snd ` set tr \<subseteq> tbs_table ` set ?added" by simp_all
  have went: "fst ` set tr \<subseteq> {k. has_table olds k \<and> \<not> has_table news k}"
    by (rule order_trans [OF sub(1)]) (auto simp: has_table_def)
  have came: "snd ` set tr \<subseteq> {k. has_table news k \<and> \<not> has_table olds k}"
    by (rule order_trans [OF sub(2)]) (auto simp: has_table_def)
  show ?thesis
    unfolding tables_renamed_def
  proof (intro conjI tr ballI)
    fix e assume e: "e \<in> set tr"
    obtain o' n where on: "e = (o', n)" by (cases e)
    have "o' \<in> fst ` set tr" "n \<in> snd ` set tr" using e on by force+
    then have "has_table olds o' \<and> \<not> has_table news o'" "has_table news n \<and> \<not> has_table olds n"
      using subsetD [OF went] subsetD [OF came] by simp_all
    then show "case e of (o', n) \<Rightarrow> has_table olds o' \<and> \<not> has_table news o' \<and> has_table news n \<and> \<not> has_table olds n"
      by (simp add: on)
  qed
qed

lemma plan_schema_parts:
  assumes run: "plan_schema resolve drop_columns olds news s = (plan, s')"
    and settled: "sp_unresolved plan = []" and olds: "schema_ok olds" and news: "schema_ok news"
    and clear: "plan_clear olds plan"
  obtains by_table where
    "tables_renamed olds news (sp_table_renames plan)"
    "sp_operations plan =
       concat (map (plan_operations olds (sp_table_renames plan) by_table) (sp_targets plan)) @
       plan_drops olds (sp_targets plan) (sp_table_renames plan)"
    "map tbs_table (sp_targets plan) = map tbs_table news"
    "\<forall>t \<in> set (sp_targets plan). planned drop_columns olds (sp_table_renames plan) t (renames_for by_table (tbs_table t))"
    "\<forall>table. renames_in plan table = renames_for by_table table"
proof -
  let ?removed = "filter (\<lambda>t. \<not> has_table news (tbs_table t)) olds"
  let ?added = "filter (\<lambda>t. \<not> has_table olds (tbs_table t)) news"
  obtain tr asked s1 where asked: "ask_renames resolve table_question (map tbs_table ?removed)
      (map tbs_table ?added) [] [] s = (tr, asked, s1)"
    by (cases "ask_renames resolve table_question (map tbs_table ?removed) (map tbs_table ?added) [] [] s") auto
  obtain targets bt un drops s2 where targets: "plan_targets resolve drop_columns olds tr news s1 = (targets, bt, un, drops, s2)"
    by (cases "plan_targets resolve drop_columns olds tr news s1") auto
  have none: "asked @ un = []"
    using run settled asked targets by (auto simp: plan_schema_def Let_def)
  then have fields: "sp_table_renames plan = tr" "sp_targets plan = targets"
      "sp_operations plan = concat (map (plan_operations olds tr bt) targets) @ plan_drops olds targets tr"
      "sp_renames plan = concat (map (\<lambda>(t, pairs). map (\<lambda>(o', n). (t, o', n)) pairs) bt)"
    using run asked targets by (auto simp: plan_schema_def Let_def)
  have tr: "tables_renamed olds news tr" by (rule tables_asked [OF olds news asked])
  have prev_ok: "well_named p" if prev: "previous_of olds tr k = Some p" for k p
  proof (cases "find_table olds k")
    case None
    then obtain q where q: "renamed_from olds tr k = Some q" "p = renamed k q"
      using prev by (auto simp: previous_of_def)
    then have qk: "(tbs_table q, k) \<in> set tr" "q \<in> set olds" using renamed_from_iff [OF olds tr] by auto
    then have "names_free q k" using clear fields(1) by (auto simp: plan_clear_def)
    then show ?thesis using well_named_renamed [of q k] qk olds q by (simp add: schema_ok_def)
  next
    case (Some q)
    then have "q = p" "q \<in> set olds" using prev find_table_iff [OF olds, of k q] by (simp_all add: previous_of_def)
    then show ?thesis using olds by (simp add: schema_ok_def)
  qed
  have ok: "map tbs_table targets = map tbs_table news \<and> distinct (map fst bt) \<and>
      fst ` set bt \<subseteq> tbs_table ` set news \<and>
      (\<forall>t \<in> set targets. planned drop_columns olds tr t (renames_for bt (tbs_table t)))"
    by (rule plan_targets_ok [OF targets]) (use news prev_ok in \<open>auto simp: schema_ok_def\<close>)
  show ?thesis
    by (rule that [of bt]) (use fields tr ok renames_in_for in \<open>auto simp: renames_in_def\<close>)
qed

lemma target_present:
  assumes "map tbs_table ts = map tbs_table news"
  shows "has_table ts k = has_table news k"
proof -
  have "set (map tbs_table ts) = set (map tbs_table news)" using assms by simp
  then show ?thesis unfolding has_table_def set_map by (metis (no_types, lifting) image_iff)
qed

lemma run_plan:
  assumes run: "plan_schema resolve drop_columns olds news s = (plan, s')"
    and settled: "sp_unresolved plan = []" and olds: "schema_ok olds" and news: "schema_ok news"
    and clear: "plan_clear olds plan"
  shows "run_all alter_database (sp_operations plan) (database_of olds) = Some (database_of (sp_targets plan))"
proof -
  let ?tr = "sp_table_renames plan" and ?ts = "sp_targets plan"
  obtain bt where tr: "tables_renamed olds news ?tr"
    and ops: "sp_operations plan = concat (map (plan_operations olds ?tr bt) ?ts) @ plan_drops olds ?ts ?tr"
    and names: "map tbs_table ?ts = map tbs_table news"
    and plan: "\<forall>t \<in> set ?ts. planned drop_columns olds ?tr t (renames_for bt (tbs_table t))"
    and rn: "\<forall>table. renames_in plan table = renames_for bt table"
    by (rule plan_schema_parts [OF run settled olds news clear]) blast
  note present = target_present [OF names]
  have dist: "distinct (map tbs_table ?ts)" using names news by (simp add: schema_ok_def)
  have ts_ok: "schema_ok ?ts" using dist plan by (simp add: schema_ok_def planned_def)
  have in_news: "has_table news (tbs_table t)" if "t \<in> set ?ts" for t
    using that present [of "tbs_table t"] by (auto simp: has_table_def)
  have olds_names: "distinct (map tbs_table olds)" using olds by (simp add: schema_ok_def)
  have ready: "ready olds ?tr t (database_of olds)" if "t \<in> set ?ts" for t
  proof (cases "renamed_from olds ?tr (tbs_table t)")
    case None
    then show ?thesis by (simp add: ready_def database_find)
  next
    case (Some p)
    then have p: "(tbs_table p, tbs_table t) \<in> set ?tr" "p \<in> set olds" using renamed_from_iff [OF olds tr] by auto
    then have "find_table olds (tbs_table p) = Some p" using find_table_iff [OF olds] by simp
    moreover have "find_table olds (tbs_table t) = None" using p(1) tr by (auto simp: tables_renamed_def find_table_None)
    ultimately show ?thesis by (simp add: ready_def database_find Some)
  qed
  let ?db = "fold (placed olds ?tr) ?ts (database_of olds)"
  have one: "run_all alter_database (concat (map (plan_operations olds ?tr bt) ?ts)) (database_of olds) = Some ?db"
  proof (rule run_plan_targets [OF olds tr dist])
    show "\<forall>t \<in> set ?ts. \<forall>p. renamed_from olds ?tr (tbs_table t) = Some p \<longrightarrow> names_free p (tbs_table t)"
      using clear renamed_from_iff [OF olds tr] by (auto simp: plan_clear_def)
    show "\<forall>t \<in> set ?ts. \<forall>p. previous_of olds ?tr (tbs_table t) = Some p \<longrightarrow>
        keys_stay p t (renames_for bt (tbs_table t))"
      using clear rn by (auto simp: plan_clear_def)
  qed (use in_news plan ready in auto)
  have source: "(\<exists>t \<in> set ?ts. \<exists>p. renamed_from olds ?tr (tbs_table t) = Some p \<and> tbs_table p = k) \<longleftrightarrow> k \<in> fst ` set ?tr"
    for k
  proof
    assume "\<exists>t \<in> set ?ts. \<exists>p. renamed_from olds ?tr (tbs_table t) = Some p \<and> tbs_table p = k"
    then show "k \<in> fst ` set ?tr" using renamed_from_iff [OF olds tr] by force
  next
    assume "k \<in> fst ` set ?tr"
    then obtain n where n: "(k, n) \<in> set ?tr" by auto
    then have "has_table olds k" "has_table ?ts n" using tr present by (auto simp: tables_renamed_def)
    then show "\<exists>t \<in> set ?ts. \<exists>p. renamed_from olds ?tr (tbs_table t) = Some p \<and> tbs_table p = k"
      using n renamed_from_iff [OF olds tr] by (auto simp: has_table_def)
  qed
  have db: "?db k = (case find_table ?ts k of Some t \<Rightarrow> Some (live_of t)
      | None \<Rightarrow> if k \<in> fst ` set ?tr then None else database_of olds k)" for k
    using fold_placed [OF olds tr dist] in_news source by auto
  let ?keep = "\<lambda>p. tbs_table p \<in> set (map fst ?tr) \<or> has_table ?ts (tbs_table p)"
  have two: "run_all alter_database (plan_drops olds ?ts ?tr) ?db =
      Some (\<lambda>k. if \<exists>p \<in> set olds. \<not> ?keep p \<and> tbs_table p = k then None else ?db k)"
    unfolding plan_drops_def
  proof (rule run_table_drops [OF olds_names], intro ballI impI)
    fix p assume p: "p \<in> set olds" "\<not> ?keep p"
    then have "find_table ?ts (tbs_table p) = None" by (simp add: find_table_None)
    moreover have "find_table olds (tbs_table p) = Some p" using find_table_iff [OF olds] p by simp
    ultimately show "well_named p \<and> ?db (tbs_table p) = Some (live_of p)"
      using db [of "tbs_table p"] p olds by (simp add: database_find schema_ok_def)
  qed
  have "(if \<exists>p \<in> set olds. \<not> ?keep p \<and> tbs_table p = k then None else ?db k) = database_of ?ts k" for k
  proof (cases "find_table ?ts k")
    case (Some t)
    then have "has_table ?ts k" using find_table_None [of ?ts k] by auto
    then show ?thesis using db [of k] Some by (auto simp: database_find)
  next
    case None
    then have "\<not> has_table ?ts k" by (simp add: find_table_None)
    then have "find_table olds k = None \<or> k \<in> fst ` set ?tr \<or> (\<exists>p \<in> set olds. \<not> ?keep p \<and> tbs_table p = k)"
      using find_table_None [of olds k] by (auto simp: has_table_def)
    then show ?thesis using db [of k] None by (auto simp: database_find)
  qed
  then show ?thesis using one two by (simp add: ops fun_eq_iff [symmetric])
qed

section \<open>Reverses\<close>

lemma run_table_writes:
  assumes "distinct (map tbs_table ps)"
    and "\<forall>p \<in> set ps. \<not> keep p \<longrightarrow> (\<forall>db'. db' (tbs_table p) = db (tbs_table p) \<longrightarrow>
           run_all alter_database (f p) db' = Some (db'(tbs_table p \<mapsto> live_of p)))"
  shows "run_all alter_database (concat (map (\<lambda>p. if keep p then [] else f p) ps)) db =
           Some (\<lambda>k. case find_table ps k of Some p \<Rightarrow> if keep p then db k else Some (live_of p) | None \<Rightarrow> db k)"
  using assms
proof (induction ps arbitrary: db)
  case Nil
  then show ?case by (simp add: find_table_def)
next
  case (Cons p ps)
  have out: "\<forall>q \<in> set ps. tbs_table q \<noteq> tbs_table p" using Cons.prems(1) by (auto simp: image_iff)
  then have none: "find_table ps (tbs_table p) = None" by (auto simp: find_table_None has_table_def)
  have find: "find_table (p # ps) k = (if tbs_table p = k then Some p else find_table ps k)" for k
    by (simp add: find_table_def)
  let ?db = "if keep p then db else db(tbs_table p \<mapsto> live_of p)"
  have step: "run_all alter_database (if keep p then [] else f p) db = Some ?db"
  proof (cases "keep p")
    case False
    then show ?thesis
      using Cons.prems(2) [rule_format, of p db, OF list.set_intros(1) False refl] by (simp only: if_False)
  qed simp
  have "run_all alter_database (concat (map (\<lambda>p. if keep p then [] else f p) ps)) ?db =
      Some (\<lambda>k. case find_table ps k of Some p \<Rightarrow> if keep p then ?db k else Some (live_of p) | None \<Rightarrow> ?db k)"
    by (rule Cons.IH) (use Cons.prems out in auto)
  moreover have "(case find_table ps k of Some p \<Rightarrow> if keep p then ?db k else Some (live_of p) | None \<Rightarrow> ?db k) =
      (case find_table (p # ps) k of Some p \<Rightarrow> if keep p then db k else Some (live_of p) | None \<Rightarrow> db k)" for k
    using none find [of k] by (auto split: option.splits)
  ultimately show ?case using step by (simp add: fun_eq_iff)
qed

lemma run_table_returns:
  assumes "distinct (map fst tr)" and "distinct (map snd tr)" and "fst ` set tr \<inter> snd ` set tr = {}"
    and "\<And>o' n db'. (o', n) \<in> set tr \<Longrightarrow> db' o' = db o' \<Longrightarrow> db' n = db n \<Longrightarrow>
           run_all alter_database (f (o', n)) db' = Some (db'(n := None, o' := L o'))"
  shows "run_all alter_database (concat (map f tr)) db =
           Some (\<lambda>k. if k \<in> snd ` set tr then None else if k \<in> fst ` set tr then L k else db k)"
  using assms
proof (induction tr arbitrary: db)
  case Nil
  then show ?case by simp
next
  case (Cons e tr)
  obtain o' n where e: "e = (o', n)" by (cases e)
  have ne: "a \<noteq> o' \<and> b \<noteq> n \<and> a \<noteq> n \<and> b \<noteq> o'" if "(a, b) \<in> set tr" for a b
  proof -
    have "a \<in> fst ` set tr" "b \<in> snd ` set tr" using that by force+
    then show ?thesis using Cons.prems(1-3) by (auto simp: e)
  qed
  have on: "o' \<noteq> n" using Cons.prems(3) by (auto simp: e)
  let ?db = "db(n := None, o' := L o')"
  have step: "run_all alter_database (f (o', n)) db = Some ?db"
    by (rule Cons.prems(4)) (simp_all add: e)
  have rest: "run_all alter_database (concat (map f tr)) ?db =
      Some (\<lambda>k. if k \<in> snd ` set tr then None else if k \<in> fst ` set tr then L k else ?db k)"
  proof (rule Cons.IH)
    fix a b db' assume ab: "(a, b) \<in> set tr" "db' a = ?db a" "db' b = ?db b"
    show "run_all alter_database (f (a, b)) db' = Some (db'(b := None, a := L a))"
      by (rule Cons.prems(4)) (use ab ne [OF ab(1)] in simp_all)
  qed (use Cons.prems in auto)
  have "(if k \<in> snd ` set tr then None else if k \<in> fst ` set tr then L k else ?db k) =
      (if k \<in> snd ` set (e # tr) then None else if k \<in> fst ` set (e # tr) then L k else db k)" for k
  proof -
    have "k \<notin> fst ` set tr \<and> k \<notin> snd ` set tr" if "k = o' \<or> k = n" using that ne by fastforce
    then show ?thesis using on by (auto simp: e)
  qed
  then show ?case using step rest by (simp add: e)
qed

lemma inverted_for_in: "inverted_for (sp_renames plan) table = map (\<lambda>(o', n). (n, o')) (renames_in plan table)"
  by (auto simp: inverted_for_def renames_in_def split_beta)

text \<open>One table taken back: to its old name, or to what it was under the name it keeps.\<close>

lemma run_reverse_renamed:
  assumes p_ok: "well_named p" and t_ok: "well_named t" and free: "names_free p (tbs_table t)"
    and ok: "renames_ok p t rn" and keys: "keys_stay p t rn"
    and here: "db (tbs_table t) = Some (live_of t)" and gone: "db (tbs_table p) = None"
  shows "run_all alter_database
           (diff_snapshots_with_renames (Some t) (Some (renamed (tbs_table t) p)) (map (\<lambda>(o', n). (n, o')) rn) @
            unrename_objects p (tbs_table t) @ [RenameTable (tbs_table t) (tbs_table p)]) db =
           Some (db(tbs_table t := None, tbs_table p \<mapsto> live_of p))"
proof -
  let ?n = "tbs_table t"
  let ?q = "renamed ?n p"
  have q_ok: "well_named ?q" by (rule well_named_renamed [OF p_ok free])
  have ok': "renames_ok ?q t rn" and keys': "keys_stay ?q t rn"
    using ok keys by (simp_all add: renames_ok_renamed keys_stay_renamed)
  have at0: "db (tbs_table ?q) = Some (live_of t)" using here by (simp add: renamed_parts)
  have one: "run_all alter_database (diff_table t ?q (map (\<lambda>(o', n). (n, o')) rn)) db = Some (db(?n \<mapsto> live_of ?q))"
    using run_table_diff [where db = db, OF t_ok q_ok renames_ok_inverse [OF ok'] keys_stay_inverse [OF q_ok t_ok ok' keys'] at0]
    by (simp add: renamed_parts)
  let ?db1 = "db(?n \<mapsto> live_of ?q)"
  have at1: "?db1 ?n = Some (live_of ?q)" by simp
  have two: "run_all alter_database (unrename_objects p ?n) ?db1 = Some (?db1(?n \<mapsto> live_of p))"
    using run_on_table [where db = ?db1 and table = ?n, OF rename_objects_on(2) at1]
      run_unrename_objects [OF p_ok free] by simp
  have ne: "tbs_table p \<noteq> ?n" using here gone by auto
  have three: "alter_database (RenameTable ?n (tbs_table p)) (db(?n \<mapsto> live_of p)) =
      Some (db(?n := None, tbs_table p \<mapsto> live_of p))"
    using run_rename_table [of "db(?n \<mapsto> live_of p)" ?n "live_of p" "tbs_table p"] gone ne by simp
  show ?thesis
    using one two three by (simp add: diff_snapshots_with_renames_def)
qed

lemma run_reverse:
  assumes run: "plan_schema resolve drop_columns olds news s = (plan, s')"
    and settled: "sp_unresolved plan = []" and olds: "schema_ok olds" and news: "schema_ok news"
    and clear: "plan_clear olds plan"
  shows "run_all alter_database
           (reverse_plan olds (sp_targets plan) (sp_renames plan) (sp_table_renames plan))
           (database_of (sp_targets plan)) = Some (database_of olds)"
proof -
  let ?tr = "sp_table_renames plan" and ?ts = "sp_targets plan"
  obtain bt where tr: "tables_renamed olds news ?tr"
    and names: "map tbs_table ?ts = map tbs_table news"
    and plan: "\<forall>t \<in> set ?ts. planned drop_columns olds ?tr t (renames_for bt (tbs_table t))"
    and rn: "\<forall>table. renames_in plan table = renames_for bt table"
    by (rule plan_schema_parts [OF run settled olds news clear]) blast
  note present = target_present [OF names]
  have dist: "distinct (map tbs_table ?ts)" using names news by (simp add: schema_ok_def)
  have ts_ok: "schema_ok ?ts" using dist plan by (simp add: schema_ok_def planned_def)
  have olds_names: "distinct (map tbs_table olds)" using olds by (simp add: schema_ok_def)
  have from_old: "renames_ok p t (renames_in plan (tbs_table t)) \<and> keys_stay p t (renames_in plan (tbs_table t))"
    if "t \<in> set ?ts" "previous_of olds ?tr (tbs_table t) = Some p" for t p
    using that plan rn clear by (auto simp: planned_def plan_clear_def)
  define L where "L = database_of olds"
  let ?undo = "reverse_renamed olds ?ts (sp_renames plan)"
  let ?db1 = "\<lambda>k. if k \<in> snd ` set ?tr then None else if k \<in> fst ` set ?tr then L k else database_of ?ts k"
  have one: "run_all alter_database (concat (map ?undo ?tr)) (database_of ?ts) = Some ?db1"
  proof (rule run_table_returns)
    show "distinct (map fst ?tr)" "distinct (map snd ?tr)" using tr by (simp_all add: tables_renamed_def)
    have "fst ` set ?tr \<subseteq> {k. has_table olds k}" "snd ` set ?tr \<subseteq> {k. \<not> has_table olds k}"
      using tr by (auto simp: tables_renamed_def)
    then show "fst ` set ?tr \<inter> snd ` set ?tr = {}" by blast
  next
    fix o' n db' assume on: "(o', n) \<in> set ?tr" "db' o' = database_of ?ts o'" "db' n = database_of ?ts n"
    obtain p where p: "find_table olds o' = Some p"
      using on(1) tr find_table_None [of olds o'] by (cases "find_table olds o'") (auto simp: tables_renamed_def)
    obtain t where t: "find_table ?ts n = Some t"
      using on(1) tr present find_table_None [of ?ts n] by (cases "find_table ?ts n") (auto simp: tables_renamed_def)
    have gone: "find_table ?ts o' = None" using on(1) tr present by (auto simp: tables_renamed_def find_table_None)
    have p': "p \<in> set olds" "tbs_table p = o'" using p find_table_iff [OF olds] by simp_all
    have t': "t \<in> set ?ts" "tbs_table t = n" using t find_table_iff [OF ts_ok] by simp_all
    have ok: "well_named p" "well_named t" using p' t' olds ts_ok by (simp_all add: schema_ok_def)
    have free: "names_free p (tbs_table t)" using clear on(1) p' t' by (auto simp: plan_clear_def)
    have "renamed_from olds ?tr n = Some p" using renamed_from_iff [OF olds tr] on(1) p' by simp
    moreover have "find_table olds n = None" using on(1) tr by (auto simp: tables_renamed_def find_table_None)
    ultimately have "previous_of olds ?tr (tbs_table t) = Some (renamed n p)" by (simp add: previous_of_def t')
    then have rk: "renames_ok p t (renames_in plan (tbs_table t))" "keys_stay p t (renames_in plan (tbs_table t))"
      using from_old [OF t'(1)] by (simp_all add: renames_ok_renamed keys_stay_renamed)
    have "db' (tbs_table t) = Some (live_of t)" "db' (tbs_table p) = None"
      using on t gone p' t' by (simp_all add: database_find)
    note undone = run_reverse_renamed [OF ok free rk this]
    have "L o' = Some (live_of p)" by (simp add: L_def database_find p)
    then show "run_all alter_database (?undo (o', n)) db' = Some (db'(n := None, o' := L o'))"
      using undone p' t' by (simp add: reverse_renamed_def p t inverted_for_in)
  qed
  let ?stay = "\<lambda>p. tbs_table p \<in> set (map fst ?tr)"
  let ?db2 = "\<lambda>k. case find_table olds k of Some p \<Rightarrow> if ?stay p then ?db1 k else Some (live_of p) | None \<Rightarrow> ?db1 k"
  have two: "run_all alter_database
      (concat (map (\<lambda>p. if ?stay p then []
        else diff_snapshots_with_renames (find_table ?ts (tbs_table p)) (Some p)
               (inverted_for (sp_renames plan) (tbs_table p))) olds)) ?db1 = Some ?db2"
  proof (rule run_table_writes [OF olds_names], intro ballI impI allI)
    fix p db' assume p: "p \<in> set olds" "\<not> ?stay p" and db': "db' (tbs_table p) = ?db1 (tbs_table p)"
    have p_ok: "well_named p" using p olds by (simp add: schema_ok_def)
    have find: "find_table olds (tbs_table p) = Some p" using p find_table_iff [OF olds] by simp
    have "tbs_table p \<notin> snd ` set ?tr" using p tr by (force simp: tables_renamed_def has_table_def)
    then have at_p: "db' (tbs_table p) = database_of ?ts (tbs_table p)" using db' p by simp
    show "run_all alter_database (diff_snapshots_with_renames (find_table ?ts (tbs_table p)) (Some p)
        (inverted_for (sp_renames plan) (tbs_table p))) db' = Some (db'(tbs_table p \<mapsto> live_of p))"
    proof (cases "find_table ?ts (tbs_table p)")
      case None
      then have "db' (tbs_table p) = None" using at_p by (simp add: database_find)
      then show ?thesis unfolding None by (rule run_create [OF p_ok])
    next
      case (Some t)
      then have t: "t \<in> set ?ts" "tbs_table t = tbs_table p" using find_table_iff [OF ts_ok] by simp_all
      have t_ok: "well_named t" using t ts_ok by (simp add: schema_ok_def)
      have "previous_of olds ?tr (tbs_table t) = Some p" by (simp add: previous_of_def t(2) find)
      then have rk: "renames_ok p t (renames_in plan (tbs_table t))" "keys_stay p t (renames_in plan (tbs_table t))"
        using from_old [OF t(1)] by simp_all
      have "db' (tbs_table p) = Some (live_of t)" using at_p Some by (simp add: database_find)
      then show ?thesis
        using run_table_diff [OF t_ok p_ok renames_ok_inverse [OF rk(1)] keys_stay_inverse [OF p_ok t_ok rk], of db']
        by (simp add: Some diff_snapshots_with_renames_def inverted_for_in t(2))
    qed
  qed
  let ?keep = "\<lambda>t. tbs_table t \<in> set (map snd ?tr) \<or> has_table olds (tbs_table t)"
  have three: "run_all alter_database
      (concat (map (\<lambda>t. if ?keep t then [] else diff_snapshots (Some t) None) (rev ?ts))) ?db2 =
      Some (\<lambda>k. if \<exists>t \<in> set (rev ?ts). \<not> ?keep t \<and> tbs_table t = k then None else ?db2 k)"
  proof (rule run_table_drops, goal_cases)
    case 1
    show ?case using dist by (simp add: rev_map [symmetric])
  next
    case 2
    show ?case
    proof (intro ballI impI)
      fix t assume t: "t \<in> set (rev ?ts)" "\<not> ?keep t"
      then have "find_table ?ts (tbs_table t) = Some t" "find_table olds (tbs_table t) = None"
        using find_table_iff [OF ts_ok] by (simp_all add: find_table_None)
      moreover have "tbs_table t \<notin> fst ` set ?tr" using t tr by (force simp: tables_renamed_def)
      ultimately show "well_named t \<and> ?db2 (tbs_table t) = Some (live_of t)"
        using t ts_ok by (simp add: schema_ok_def database_find)
    qed
  qed
  have "(if \<exists>t \<in> set (rev ?ts). \<not> ?keep t \<and> tbs_table t = k then None else ?db2 k) = database_of olds k" for k
  proof (cases "find_table olds k")
    case (Some p)
    then have p: "p \<in> set olds" "tbs_table p = k" using find_table_iff [OF olds] by simp_all
    have "k \<notin> snd ` set ?tr" using p tr by (force simp: tables_renamed_def has_table_def)
    then show ?thesis using Some p by (auto simp: L_def database_find has_table_def)
  next
    case None
    then have no: "\<not> has_table olds k" by (simp add: find_table_None)
    then have "k \<notin> fst ` set ?tr" using tr by (force simp: tables_renamed_def)
    moreover have "k \<in> snd ` set ?tr \<or> find_table ?ts k = None \<or> (\<exists>t \<in> set (rev ?ts). \<not> ?keep t \<and> tbs_table t = k)"
      using no find_table_None [of ?ts k] by (auto simp: has_table_def)
    ultimately show ?thesis using None by (auto simp: database_find)
  qed
  then have three': "run_all alter_database
      (concat (map (\<lambda>t. if ?keep t then [] else diff_snapshots (Some t) None) (rev ?ts))) ?db2 = Some (database_of olds)"
    using three by presburger
  have split: "(if a then [] else if b then [] else c) = (if a \<or> b then [] else c)"
    for a b and c :: "schema_operation list" by simp
  show ?thesis
    unfolding reverse_plan_def split using one two three' by (simp only: run_all_append bind.simps)
qed

section \<open>What a plan does\<close>

lemma keys_stay_code [code]:
  "keys_stay old new renames \<longleftrightarrow>
     (\<forall>c \<in> set (tbs_columns new).
        case old_match old renames c of
          None \<Rightarrow> True | Some o' \<Rightarrow> cln_is_primary_key o' = cln_is_primary_key c)"
  by (auto simp: keys_stay_def split: option.splits)

lemma plan_clear_code [code]:
  "plan_clear olds plan \<longleftrightarrow>
     (\<forall>(o', n) \<in> set (sp_table_renames plan). \<forall>p \<in> set olds. tbs_table p = o' \<longrightarrow> names_free p n) \<and>
     (\<forall>t \<in> set (sp_targets plan).
        case previous_of olds (sp_table_renames plan) (tbs_table t) of
          None \<Rightarrow> True | Some p \<Rightarrow> keys_stay p t (renames_in plan (tbs_table t)))"
  by (auto simp: plan_clear_def split: option.splits)

definition drops_column :: "schema_operation \<Rightarrow> bool" where
  "drops_column op = (case op of DropColumn _ _ \<Rightarrow> True | _ \<Rightarrow> False)"

lemma diff_table_keeps:
  assumes "renames_ok p t rn"
    and "\<forall>c \<in> set (tbs_columns p). has_column t (cln_name c) \<or> cln_name c \<in> fst ` set rn"
  shows "\<forall>op \<in> set (diff_table p t rn). \<not> drops_column op"
  using assms applied_all [OF assms(1)]
  by (auto simp: diff_table_def diff_columns_def diff_objects_def drop_statement_def alter_column_def Let_def
      drops_column_def split: option.splits)

lemma plan_keeps_columns:
  assumes run: "plan_schema resolve False olds news s = (plan, s')"
    and settled: "sp_unresolved plan = []" and olds: "schema_ok olds" and news: "schema_ok news"
    and clear: "plan_clear olds plan" and op: "op \<in> set (sp_operations plan)"
  shows "\<not> drops_column op"
proof -
  let ?tr = "sp_table_renames plan"
  obtain bt where tr: "tables_renamed olds news ?tr"
    and ops: "sp_operations plan = concat (map (plan_operations olds ?tr bt) (sp_targets plan)) @
      plan_drops olds (sp_targets plan) ?tr"
    and plan: "\<forall>t \<in> set (sp_targets plan). planned False olds ?tr t (renames_for bt (tbs_table t))"
    by (rule plan_schema_parts [OF run settled olds news clear]) blast
  have drops: "\<not> drops_column op" if "op \<in> set (plan_drops olds (sp_targets plan) ?tr)"
    using that by (auto simp: plan_drops_def diff_snapshots_def diff_snapshots_with_renames_def drop_statement_def
        drops_column_def split: if_splits)
  have "\<not> drops_column op" if t: "t \<in> set (sp_targets plan)" and op: "op \<in> set (plan_operations olds ?tr bt t)" for t
  proof -
    let ?n = "tbs_table t" and ?rn = "renames_for bt (tbs_table t)"
    have keep: "\<forall>op \<in> set (diff_table p t ?rn). \<not> drops_column op" if "previous_of olds ?tr ?n = Some p" for p
      by (rule diff_table_keeps) (use that plan t in \<open>auto simp: planned_def\<close>)
    show ?thesis
    proof (cases "renamed_from olds ?tr ?n")
      case (Some p)
      then have "(tbs_table p, ?n) \<in> set ?tr" using renamed_from_iff [OF olds tr] by simp
      then have "find_table olds ?n = None" using tr by (auto simp: tables_renamed_def find_table_None)
      then have "previous_of olds ?tr ?n = Some (renamed ?n p)" by (simp add: previous_of_def Some)
      note keep [OF this]
      then show ?thesis
        using op by (auto simp: plan_operations_def Let_def Some diff_snapshots_with_renames_def drops_column_def
            rename_objects_def)
    next
      case None
      show ?thesis
      proof (cases "find_table olds ?n")
        case missing: None
        then show ?thesis
          using op by (auto simp: plan_operations_def Let_def None diff_snapshots_with_renames_def drops_column_def)
      next
        case (Some p)
        then have "previous_of olds ?tr ?n = Some p" by (simp add: previous_of_def)
        note keep [OF this]
        then show ?thesis
          using op by (auto simp: plan_operations_def Let_def None Some diff_snapshots_with_renames_def)
      qed
    qed
  qed
  then show ?thesis using op drops by (auto simp: ops)
qed


text \<open>
  C7: The reverse of a plan runs on the database the plan leaves and takes it back to the one it
  found: tables and columns under their old names, with the objects named after them, and
  everything the plan made or dropped undone.
\<close>

theorem migration_reversed:
  assumes "plan = fst (plan_schema resolve drop_columns olds news s)" and "sp_unresolved plan = []"
    and "schema_ok olds" and "schema_ok news" and "plan_clear olds plan"
  shows "Option.bind (run_all alter_database (sp_operations plan) (database_of olds))
           (run_all alter_database
              (reverse_plan olds (sp_targets plan) (sp_renames plan) (sp_table_renames plan))) =
         Some (database_of olds)"
proof -
  obtain s' where run: "plan_schema resolve drop_columns olds news s = (plan, s')"
    using assms(1) by (metis prod.collapse)
  show ?thesis using run_plan [OF run assms(2-5)] run_reverse [OF run assms(2-5)] by simp
qed

text \<open>A table renamed with a column and an identity of it, another column dropped.\<close>

definition sample_column :: "string \<Rightarrow> bool \<Rightarrow> column_snapshot" where
  "sample_column name key =
     \<lparr>cln_name = name, cln_sql_type = ''TEXT'', cln_nullable = False, cln_default = None, cln_is_primary_key = key\<rparr>"

definition sample_table :: "string \<Rightarrow> string list \<Rightarrow> table_snapshot" where
  "sample_table table columns =
     \<lparr>tbs_format_version = 1, tbs_table = table, tbs_schema = None,
      tbs_columns = sample_column ''id'' True # map (\<lambda>c. sample_column c False) columns,
      tbs_primary_key = [''id''],
      tbs_identities = [\<lparr>ids_name = ''idx_'' @ table @ ''_email'', ids_columns = [hd columns], ids_unique = True,
                         ids_predicate = None, ids_nils_distinct = True\<rparr>],
      tbs_indexes = [], tbs_checks = [], tbs_statements = [], tbs_references = []\<rparr>"

definition sample_resolver :: "unit resolver" where
  "sample_resolver s q = (RenamedFrom (hd (rq_candidates q)), s)"

definition sample_plan :: schema_plan where
  "sample_plan = fst (plan_schema sample_resolver False [sample_table ''users'' [''email'', ''note'']]
     [sample_table ''people'' [''mail'']] ())"

lemma sample_plan_ok:
  "sp_unresolved sample_plan = [] \<and> plan_clear [sample_table ''users'' [''email'', ''note'']] sample_plan \<and>
   schema_ok [sample_table ''users'' [''email'', ''note'']] \<and> schema_ok [sample_table ''people'' [''mail'']]"
  by code_simp


lemma migration_reversed_witness:
  "Option.bind (run_all alter_database (sp_operations sample_plan) (database_of [sample_table ''users'' [''email'', ''note'']]))
     (run_all alter_database (reverse_plan [sample_table ''users'' [''email'', ''note'']] (sp_targets sample_plan)
        (sp_renames sample_plan) (sp_table_renames sample_plan))) =
   Some (database_of [sample_table ''users'' [''email'', ''note'']])"
  using migration_reversed [OF sample_plan_def] sample_plan_ok by blast

section \<open>Foreign keys to tables made later\<close>

text \<open>
  A database that resolves a foreign key when it is made, as Postgres does: its table must be
  there, or be the one being made.
\<close>

definition references_exist :: "schema_operation \<Rightarrow> database \<Rightarrow> bool" where
  "references_exist op db \<longleftrightarrow>
     (case op of
        CreateTable t \<Rightarrow>
          (\<forall>r \<in> set (tbs_references t). rfs_target_table r = tbs_table t \<or> db (rfs_target_table r) \<noteq> None)
      | AddReference _ r \<Rightarrow> db (rfs_target_table r) \<noteq> None
      | _ \<Rightarrow> True)"

definition alter_strict :: "schema_operation \<Rightarrow> database \<Rightarrow> database option" where
  "alter_strict op db = (if references_exist op db then alter_database op db else None)"

lemma alter_database_dom:
  assumes "altered_table op = Some table" and "db table = Some t" and "alter_database op db = Some db'"
  shows "\<exists>t'. db' = db(table \<mapsto> t')"
  using alter_database_table [where db = db, OF assms(1,2)] assms(3)
  by (cases "alter_table op t") auto

lemma strict_on_table:
  "\<forall>op \<in> set ops. altered_table op = Some table \<Longrightarrow> db table \<noteq> None \<Longrightarrow>
   \<forall>op \<in> set ops. \<forall>tb r. op = AddReference tb r \<longrightarrow> db (rfs_target_table r) \<noteq> None \<Longrightarrow>
   run_all alter_strict ops db = run_all alter_database ops db"
proof (induction ops arbitrary: db)
  case (Cons op ops)
  obtain t where t: "db table = Some t" using Cons.prems(2) by auto
  have here: "references_exist op db"
    using Cons.prems(1,3) by (cases op) (auto simp: references_exist_def)
  show ?case
  proof (cases "alter_database op db")
    case None
    then show ?thesis by (simp add: alter_strict_def here)
  next
    case (Some db')
    obtain t' where db': "db' = db(table \<mapsto> t')" using alter_database_dom [OF _ t Some] Cons.prems(1) by auto
    have "run_all alter_strict ops db' = run_all alter_database ops db'"
      by (rule Cons.IH) (use Cons.prems db' in auto)
    moreover have "alter_strict op db = Some db'" by (simp add: alter_strict_def Some here)
    ultimately show ?thesis using Some by simp
  qed
qed simp

definition install_table :: "table_snapshot \<Rightarrow> schema_operation list" where
  "install_table t = diff_snapshots None (Some t)"

lemma install_table_eq: "install_table t = CreateTable t # map (RunStatement (tbs_table t)) (tbs_statements t)"
  by (simp add: install_table_def diff_snapshots_def diff_snapshots_with_renames_def)

lemma defer_loop_statements:
  "defer_loop creating created (map (RunStatement table) ss @ ops) =
     (map (RunStatement table) ss @ fst (defer_loop creating created ops), snd (defer_loop creating created ops))"
  by (induction ss) (auto split: prod.splits)

lemma live_references:
  assumes ok: "well_named t"
  shows "(live_of (t\<lparr>tbs_references := filter (\<lambda>r. \<not> P r) (tbs_references t)\<rparr>))
           \<lparr>lt_references := keyed rfs_name id (filter (\<lambda>r. \<not> P r) (tbs_references t)) ++
                            keyed rfs_name id (filter P (tbs_references t))\<rparr> = live_of t"
proof -
  have names: "distinct (map rfs_name (tbs_references t))" using ok by (simp add: well_named_def)
  have "keyed rfs_name id (filter (\<lambda>r. \<not> P r) (tbs_references t)) ++ keyed rfs_name id (filter P (tbs_references t)) =
      keyed rfs_name id (tbs_references t)"
  proof (rule keyed_eqI [OF names])
    fix r assume r: "r \<in> set (tbs_references t)"
    show "(keyed rfs_name id (filter (\<lambda>r. \<not> P r) (tbs_references t)) ++
        keyed rfs_name id (filter P (tbs_references t))) (rfs_name r) = Some (id r)"
    proof (cases "P r")
      case True
      then show ?thesis
        using keyed_in [OF distinct_map_filter [OF names], of r P id] r by (simp add: map_add_def)
    next
      case False
      have "rfs_name r \<notin> rfs_name ` set (filter P (tbs_references t))"
        using False r names by (auto simp: distinct_map inj_on_def)
      then have "keyed rfs_name id (filter P (tbs_references t)) (rfs_name r) = None"
        using keyed_None_iff by metis
      then show ?thesis
        using keyed_in [OF distinct_map_filter [OF names], of r "\<lambda>r. \<not> P r" id] r False by (simp add: map_add_def)
    qed
  next
    fix k assume "k \<notin> rfs_name ` set (tbs_references t)"
    then have "k \<notin> rfs_name ` set (filter (\<lambda>r. \<not> P r) (tbs_references t))"
      and "k \<notin> rfs_name ` set (filter P (tbs_references t))" by auto
    then have "keyed rfs_name id (filter (\<lambda>r. \<not> P r) (tbs_references t)) k = None"
      and "keyed rfs_name id (filter P (tbs_references t)) k = None" using keyed_None_iff by metis+
    then show "(keyed rfs_name id (filter (\<lambda>r. \<not> P r) (tbs_references t)) ++
        keyed rfs_name id (filter P (tbs_references t))) k = None" by (simp add: map_add_def)
  qed
  then show ?thesis by (simp add: live_of_def)
qed

lemma run_deferred:
  assumes "defer_loop creating created (concat (map install_table ts)) = (ordered, deferred)"
    and "schema_ok ts" and "\<forall>t \<in> set ts. db (tbs_table t) = None" and "\<forall>k \<in> set created. db k \<noteq> None"
    and "\<forall>t \<in> set ts. \<forall>r \<in> set (tbs_references t). rfs_target_table r \<in> set creating"
    and "set creating \<subseteq> set created \<union> tbs_table ` set ts"
  shows "\<exists>m. run_all alter_strict ordered db = Some m \<and> (\<forall>k. \<not> has_table ts k \<longrightarrow> m k = db k) \<and>
    (\<forall>t \<in> set ts. m (tbs_table t) \<noteq> None) \<and>
    (\<forall>db2. (\<forall>t \<in> set ts. db2 (tbs_table t) = m (tbs_table t)) \<longrightarrow> (\<forall>k \<in> set creating. db2 k \<noteq> None) \<longrightarrow>
       run_all alter_strict deferred db2 =
         Some (\<lambda>k. case find_table ts k of Some t \<Rightarrow> Some (live_of t) | None \<Rightarrow> db2 k))"
  using assms
proof (induction ts arbitrary: created db ordered deferred)
  case Nil
  then show ?case by (auto simp: find_table_def)
next
  case (Cons t ts)
  let ?n = "tbs_table t" and ?P = "refers_later creating created t"
  let ?t = "t\<lparr>tbs_references := filter (\<lambda>r. \<not> ?P r) (tbs_references t)\<rparr>"
  have t_ok: "well_named t" and ts_ok: "schema_ok ts" using Cons.prems(2) by (auto simp: schema_ok_def)
  have out: "\<not> has_table ts ?n" using Cons.prems(2) by (auto simp: schema_ok_def has_table_def image_iff)
  have ne: "\<And>u. u \<in> set ts \<Longrightarrow> tbs_table u \<noteq> ?n" using out by (auto simp: has_table_def)
  have t'_ok: "well_named ?t"
    using t_ok by (auto simp: well_named_def distinct_map_filter)
  obtain o' d where rest: "defer_loop creating (?n # created) (concat (map install_table ts)) = (o', d)"
    by (cases "defer_loop creating (?n # created) (concat (map install_table ts))")
  have ordered: "ordered = install_table ?t @ o'"
    and deferred: "deferred = map (AddReference ?n) (filter ?P (tbs_references t)) @ d"
    using Cons.prems(1) rest
    by (auto simp: install_table_eq [of t] install_table_eq [of ?t] defer_loop_statements Let_def)
  have free: "db ?n = None" using Cons.prems(3) by simp
  let ?db = "db(?n \<mapsto> live_of ?t)"
  have create: "run_all alter_database (install_table ?t) db = Some ?db"
    using run_create [OF t'_ok, of db "[]"] free by (simp add: install_table_def diff_snapshots_def)
  have exist: "references_exist (CreateTable ?t) db"
    using Cons.prems(4,5) by (auto simp: references_exist_def refers_later_def)
  have installed: "run_all alter_strict (install_table ?t) db = Some ?db"
  proof -
    obtain db1 where db1: "alter_database (CreateTable ?t) db = Some db1"
      using create by (cases "alter_database (CreateTable ?t) db") (auto simp: install_table_eq)
    then have "db1 ?n \<noteq> None" by (auto simp: alter_database_def make_key_def split: if_splits)
    then have "run_all alter_strict (map (RunStatement ?n) (tbs_statements t)) db1 =
        run_all alter_database (map (RunStatement ?n) (tbs_statements t)) db1"
      by (intro strict_on_table) auto
    moreover have "alter_strict (CreateTable ?t) db = Some db1" by (simp add: alter_strict_def db1 exist)
    ultimately show ?thesis
      using create db1 by (simp add: install_table_eq)
  qed
  have "\<exists>m. run_all alter_strict o' ?db = Some m \<and> (\<forall>k. \<not> has_table ts k \<longrightarrow> m k = ?db k) \<and>
    (\<forall>t \<in> set ts. m (tbs_table t) \<noteq> None) \<and>
    (\<forall>db2. (\<forall>t \<in> set ts. db2 (tbs_table t) = m (tbs_table t)) \<longrightarrow> (\<forall>k \<in> set creating. db2 k \<noteq> None) \<longrightarrow>
       run_all alter_strict d db2 = Some (\<lambda>k. case find_table ts k of Some t \<Rightarrow> Some (live_of t) | None \<Rightarrow> db2 k))"
    by (rule Cons.IH [OF rest ts_ok]) (use Cons.prems(3-6) ne in auto)
  then obtain m where m: "run_all alter_strict o' ?db = Some m" "\<forall>k. \<not> has_table ts k \<longrightarrow> m k = ?db k"
    "\<forall>t \<in> set ts. m (tbs_table t) \<noteq> None"
    and later: "\<And>db2. \<forall>t \<in> set ts. db2 (tbs_table t) = m (tbs_table t) \<Longrightarrow> \<forall>k \<in> set creating. db2 k \<noteq> None \<Longrightarrow>
       run_all alter_strict d db2 = Some (\<lambda>k. case find_table ts k of Some t \<Rightarrow> Some (live_of t) | None \<Rightarrow> db2 k)"
    by blast
  have m_t: "m ?n = Some (live_of ?t)" using m(2) out by simp
  show ?case
  proof (intro exI [of _ m] conjI allI impI)
    show "run_all alter_strict ordered db = Some m" using installed m(1) by (simp add: ordered)
    show "\<forall>u \<in> set (t # ts). m (tbs_table u) \<noteq> None" using m(3) m_t by auto
    fix k assume "\<not> has_table (t # ts) k"
    then show "m k = db k" using m(2) by (auto simp: has_table_def)
  next
    fix db2 assume same: "\<forall>u \<in> set (t # ts). db2 (tbs_table u) = m (tbs_table u)"
      and there: "\<forall>k \<in> set creating. db2 k \<noteq> None"
    let ?later = "filter ?P (tbs_references t)"
    have db2_t: "db2 ?n = Some (live_of ?t)" using same m_t by simp
    have names: "distinct (map rfs_name ?later)"
      using t_ok by (simp add: well_named_def distinct_map_filter)
    have fresh: "\<forall>r \<in> set ?later. lt_references (live_of ?t) (rfs_name r) = None"
    proof
      fix r assume r: "r \<in> set ?later"
      have "inj_on rfs_name (set (tbs_references t))" using t_ok by (simp add: well_named_def distinct_map)
      then have "rfs_name r \<notin> rfs_name ` set (tbs_references ?t)" using r by (auto dest: inj_onD)
      then show "lt_references (live_of ?t) (rfs_name r) = None"
        unfolding live_of_def live_table.select_convs keyed_None_iff .
    qed
    have "run_all alter_table (map (AddReference ?n) ?later) (live_of ?t) =
        map_option (\<lambda>m. (live_of ?t)\<lparr>lt_references := m\<rparr>)
          (run_all (\<lambda>r. make_key (rfs_name r) (id r)) ?later (lt_references (live_of ?t)))"
      by (rule references_part.run_part) simp
    also have "\<dots> = Some (live_of t)"
      using run_make_keys [OF names fresh, of id] live_references [OF t_ok, of ?P]
      by (simp add: live_of_def)
    finally have "run_all alter_database (map (AddReference ?n) ?later) db2 = Some (db2(?n \<mapsto> live_of t))"
      using run_on_table [of "map (AddReference ?n) ?later" ?n db2 "live_of ?t"] db2_t by simp
    moreover have "run_all alter_strict (map (AddReference ?n) ?later) db2 =
        run_all alter_database (map (AddReference ?n) ?later) db2"
      by (rule strict_on_table) (use db2_t there Cons.prems(5) in auto)
    ultimately have added: "run_all alter_strict (map (AddReference ?n) ?later) db2 = Some (db2(?n \<mapsto> live_of t))"
      by simp
    have "run_all alter_strict d (db2(?n \<mapsto> live_of t)) =
        Some (\<lambda>k. case find_table ts k of Some t \<Rightarrow> Some (live_of t) | None \<Rightarrow> (db2(?n \<mapsto> live_of t)) k)"
      by (rule later) (use same there ne in auto)
    moreover have "(case find_table ts k of Some t \<Rightarrow> Some (live_of t) | None \<Rightarrow> (db2(?n \<mapsto> live_of t)) k) =
        (case find_table (t # ts) k of Some t \<Rightarrow> Some (live_of t) | None \<Rightarrow> db2 k)" for k
      using out find_table_None [of ts ?n] by (auto simp: find_table_def split: option.splits)
    ultimately show "run_all alter_strict deferred db2 =
        Some (\<lambda>k. case find_table (t # ts) k of Some t \<Rightarrow> Some (live_of t) | None \<Rightarrow> db2 k)"
      using added by (simp add: deferred)
  qed
qed

lemma created_install: "created_tables (concat (map install_table ts)) = map tbs_table ts"
proof -
  have "created_tables (map (RunStatement table) ss @ ops) = created_tables ops" for table ss ops
    by (induction ss) auto
  then show ?thesis by (induction ts) (simp_all add: install_table_eq)
qed

text \<open>
  C8: Tables that refer to each other, in a cycle even, are made in
  any order: with the foreign keys to tables made later put off, each key is made when its table
  is there, and every table comes out with all its keys.
\<close>

theorem deferred_references_resolve:
  assumes "schema_ok ts" and "\<forall>t \<in> set ts. \<forall>r \<in> set (tbs_references t). has_table ts (rfs_target_table r)"
  shows "run_all alter_strict (defer_forward_references (concat (map (\<lambda>t. diff_snapshots None (Some t)) ts))) Map.empty =
           Some (database_of ts)"
proof -
  let ?ops = "concat (map install_table ts)"
  obtain o' d where run: "defer_loop (map tbs_table ts) [] ?ops = (o', d)"
    by (cases "defer_loop (map tbs_table ts) [] ?ops")
  have "\<forall>t \<in> set ts. \<forall>r \<in> set (tbs_references t). rfs_target_table r \<in> set (map tbs_table ts)"
    using assms(2) by (simp add: has_table_def image_iff) metis
  then obtain m where m: "run_all alter_strict o' Map.empty = Some m" "\<forall>t \<in> set ts. m (tbs_table t) \<noteq> None"
      "\<forall>k. \<not> has_table ts k \<longrightarrow> m k = None"
    and d: "run_all alter_strict d m = Some (\<lambda>k. case find_table ts k of Some t \<Rightarrow> Some (live_of t) | None \<Rightarrow> m k)"
    using run_deferred [OF run assms(1), of Map.empty] by auto
  have "(case find_table ts k of Some t \<Rightarrow> Some (live_of t) | None \<Rightarrow> m k) = database_of ts k" for k
    using m(3) find_table_None [of ts k] by (auto simp: database_find split: option.splits)
  then have "run_all alter_strict d m = Some (database_of ts)" using d by presburger
  moreover have "defer_forward_references ?ops = o' @ d"
    by (simp add: defer_forward_references_def created_install run)
  ultimately have "run_all alter_strict (defer_forward_references ?ops) Map.empty = Some (database_of ts)"
    using m(1) by simp
  then show ?thesis unfolding install_table_def [abs_def] .
qed

definition cyclic_tables :: "table_snapshot list" where
  "cyclic_tables =
     (let ref = (\<lambda>name target.
        \<lparr>rfs_name = name, rfs_column = ''other'', rfs_columns = [''other''], rfs_target_table = target,
         rfs_target_column = ''id'', rfs_target_columns = [''id''], rfs_on_delete = ''NO ACTION'',
         rfs_on_update = ''NO ACTION''\<rparr>)
      in [(sample_table ''a'' [''other''])\<lparr>tbs_references := [ref ''fk_a_b'' ''b'', ref ''fk_a_a'' ''a'']\<rparr>,
          (sample_table ''b'' [''other''])\<lparr>tbs_references := [ref ''fk_b_a'' ''a'']\<rparr>])"

lemma cyclic_tables_ok:
  "schema_ok cyclic_tables \<and> (\<forall>t \<in> set cyclic_tables. \<forall>r \<in> set (tbs_references t). has_table cyclic_tables (rfs_target_table r))"
  by code_simp

lemma deferred_references_resolve_witness:
  "run_all alter_strict (defer_forward_references (concat (map (\<lambda>t. diff_snapshots None (Some t)) cyclic_tables))) Map.empty =
     Some (database_of cyclic_tables)"
  using deferred_references_resolve [of cyclic_tables] cyclic_tables_ok by blast

section \<open>What a plan misses\<close>

text \<open>
  A column that becomes the primary key, or stops being it, takes no operation, so no migration is
  written and the database keeps the key it has.
\<close>

lemma primary_key_change_missed:
  "let old = sample_table ''users'' [''email''];
       new = old\<lparr>tbs_columns := [sample_column ''id'' False, sample_column ''email'' True], tbs_primary_key := [''email'']\<rparr>
   in new \<noteq> old \<and> diff_snapshots (Some old) (Some new) = []"
  by code_simp

text \<open>
  Only the keys of tables being made are put off: one added to a table that exists, for a new
  table planned after it as two tables that refer to each other may be, is made before its table.
\<close>

lemma added_reference_too_early:
  "map (\<lambda>op. case op of AddReference t r \<Rightarrow> (t, rfs_target_table r) | CreateTable t \<Rightarrow> (tbs_table t, []) | _ \<Rightarrow> ([], []))
     (defer_forward_references (diff_tables [sample_table ''a'' [''other'']] cyclic_tables)) =
   [(''a'', ''b''), (''a'', ''a''), (''b'', [])]"
  by code_simp

text \<open>
  A table renamed \<open>a\<close> to \<open>a_b\<close> with indexes \<open>x\<close> and \<open>b_x\<close>: the first takes the name the second
  still has.
\<close>

definition clashing_table :: table_snapshot where
  "clashing_table =
     (let ids = (\<lambda>name. \<lparr>ids_name = name, ids_columns = [''id''], ids_unique = True, ids_predicate = None,
                         ids_nils_distinct = True\<rparr>)
      in (sample_table ''a'' [''email''])\<lparr>tbs_identities := [ids ''idx_a_x'', ids ''idx_a_b_x'']\<rparr>)"

lemma rename_clashes:
  "schema_ok [clashing_table] \<and> \<not> names_free clashing_table ''a_b'' \<and>
   rename_objects clashing_table ''a_b'' =
     [RenameIndex ''a_b'' ''idx_a_x'' ''idx_a_b_x'', RenameIndex ''a_b'' ''idx_a_b_x'' ''idx_a_b_b_x'']"
  by code_simp

lemma rename_clash_fails:
  "run_all alter_table (rename_objects clashing_table ''a_b'') (live_of clashing_table) = None"
  using rename_clashes
  by (simp add: live_of_def clashing_table_def sample_table_def Let_def)

end
